(* ===== verification/Prelude.thy ===== *)
theory Prelude
  imports Main "HOL-Library.Word" "HOL-Library.Monad_Syntax" "HOL-Library.Signed_Division"
begin

unbundle bit_operations_syntax

text \<open>
  Shared vocabulary of the development: the fixed-width integers of the C++ code, memory as byte
  lists with checked reads and writes (an access outside the buffer is the value \<open>None\<close>, the
  model's reading of undefined behaviour), the host's little-endian layout of integers, and the
  byte-order functions \<open>htons\<close> and \<open>htonl\<close> of \<open>arpa/inet.h\<close> on such a host.
\<close>

section \<open>Machine integers\<close>

type_synonym u8 = "8 word"
type_synonym u16 = "16 word"
type_synonym u32 = "32 word"
type_synonym u64 = "64 word"

type_synonym bytes = "u8 list"

text \<open>Rules that evaluate wire formats, and rules that decide memory accesses.\<close>

named_theorems wire_simps
named_theorems mem_simps

section \<open>Checked memory accesses\<close>

text \<open>One byte, a block of bytes, and a block written back. \<open>None\<close> is an access out of bounds.\<close>

definition rd :: "bytes \<Rightarrow> nat \<Rightarrow> u8 option" where
  "rd buf i = (if i < length buf then Some (buf ! i) else None)"

definition rd_block :: "bytes \<Rightarrow> nat \<Rightarrow> nat \<Rightarrow> bytes option" where
  "rd_block buf off n = (if off + n \<le> length buf then Some (take n (drop off buf)) else None)"

definition wr_block :: "bytes \<Rightarrow> nat \<Rightarrow> bytes \<Rightarrow> bytes option" where
  "wr_block buf off bs =
     (if off + length bs \<le> length buf
      then Some (take off buf @ bs @ drop (off + length bs) buf) else None)"

lemma rd_Some [mem_simps]: "i < length buf \<Longrightarrow> rd buf i = Some (buf ! i)"
  by (simp add: rd_def)

lemma rd_None [mem_simps]: "length buf \<le> i \<Longrightarrow> rd buf i = None"
  by (simp add: rd_def)

lemma rd_last: "xs \<noteq> [] \<Longrightarrow> rd xs (length xs - 1) = Some (last xs)"
  by (simp add: rd_def last_conv_nth)

lemma rd_block_Some [mem_simps]:
  "off + n \<le> length buf \<Longrightarrow> rd_block buf off n = Some (take n (drop off buf))"
  by (simp add: rd_block_def)

lemma rd_block_None [mem_simps]: "length buf < off + n \<Longrightarrow> rd_block buf off n = None"
  by (simp add: rd_block_def)

lemma wr_block_Some [mem_simps]:
  "off + length bs \<le> length buf
   \<Longrightarrow> wr_block buf off bs = Some (take off buf @ bs @ drop (off + length bs) buf)"
  by (simp add: wr_block_def)

lemma wr_block_None [mem_simps]:
  "length buf < off + length bs \<Longrightarrow> wr_block buf off bs = None"
  by (simp add: wr_block_def)

lemma rd_block_length: "rd_block buf off n = Some bs \<Longrightarrow> length bs = n"
  by (auto simp: rd_block_def split: if_splits)

lemma wr_block_length: "wr_block buf off bs = Some buf' \<Longrightarrow> length buf' = length buf"
  by (auto simp: wr_block_def split: if_splits)

lemma wr_block_eq_None_iff: "wr_block buf off bs = None \<longleftrightarrow> length buf < off + length bs"
  by (auto simp: wr_block_def)

lemma four_bytesE:
  assumes "4 \<le> length xs"
  obtains a b c d rest where "xs = a # b # c # d # rest"
  using assms by (auto simp: numeral_eq_Suc Suc_le_length_iff)

lemma unat_of_nat_small: "n < 2 ^ LENGTH('a) \<Longrightarrow> unat (of_nat n :: 'a::len word) = n"
  by (simp add: unat_of_nat)

lemma bind_NoneI: "(\<And>x. m = Some x \<Longrightarrow> f x = None) \<Longrightarrow> Option.bind m f = None"
  by (cases m) auto

text \<open>A write into the middle part of a buffer whose parts are known.\<close>

lemma wr_block_append:
  "length pre = off \<Longrightarrow> length old = length bs
   \<Longrightarrow> wr_block (pre @ old @ post) off bs = Some (pre @ bs @ post)"
  by (simp add: wr_block_def)

lemma rd_block_append:
  "length pre = off \<Longrightarrow> length bs = n \<Longrightarrow> rd_block (pre @ bs @ post) off n = Some bs"
  by (simp add: rd_block_def)

section \<open>Little-endian layout and byte order\<close>

text \<open>
  \<open>le_bytes n w\<close> is the memory of an \<open>n\<close>-byte integer on a little-endian host, and
  \<open>from_le\<close> reads it back.
\<close>

fun le_bytes :: "nat \<Rightarrow> 'a::len word \<Rightarrow> bytes" where
  "le_bytes 0 w = []"
| "le_bytes (Suc n) w = ucast w # le_bytes n (drop_bit 8 w)"

fun from_le :: "bytes \<Rightarrow> 'a::len word" where
  "from_le [] = 0"
| "from_le (b # bs) = ucast b OR push_bit 8 (from_le bs)"

definition be_bytes :: "nat \<Rightarrow> 'a::len word \<Rightarrow> bytes" where
  "be_bytes n w = rev (le_bytes n w)"

lemma length_le_bytes [simp]: "length (le_bytes n w) = n"
  by (induction n arbitrary: w) auto

lemma length_be_bytes [simp]: "length (be_bytes n w) = n"
  by (simp add: be_bytes_def)

text \<open>Evaluation at a numeral, splitting, and the bits a layout depends on.\<close>

lemma le_bytes_numeral:
  "le_bytes (numeral k) w = ucast w # le_bytes (pred_numeral k) (drop_bit 8 w)"
  by (simp add: numeral_eq_Suc)

lemma le_bytes_add: "le_bytes (m + n) w = le_bytes m w @ le_bytes n (drop_bit (8 * m) w)"
  by (induction m arbitrary: w) (simp_all add: drop_bit_drop_bit add.commute)

lemma le_bytes_cong:
  "(\<And>i. i < 8 * n \<Longrightarrow> bit v i \<longleftrightarrow> bit w i) \<Longrightarrow> le_bytes n v = le_bytes n w"
proof (induction n arbitrary: v w)
  case 0
  then show ?case by simp
next
  case (Suc n)
  have "(ucast v :: u8) = ucast w"
    by (rule bit_word_eqI) (use Suc.prems in \<open>simp add: bit_ucast_iff\<close>)
  moreover have "le_bytes n (drop_bit 8 v) = le_bytes n (drop_bit 8 w)"
    by (rule Suc.IH) (use Suc.prems in \<open>simp add: bit_drop_bit_eq\<close>)
  ultimately show ?case by simp
qed

lemma from_le_le_bytes: "from_le (le_bytes n w) = take_bit (8 * n) w"
proof (induction n arbitrary: w)
  case 0
  then show ?case by simp
next
  case (Suc n)
  have "ucast (ucast w :: u8) OR push_bit 8 (take_bit (8 * n) (drop_bit 8 w))
      = take_bit (8 * Suc n) w"
    by (rule bit_word_eqI)
      (auto simp: bit_or_iff bit_push_bit_iff bit_take_bit_iff bit_drop_bit_eq bit_ucast_iff)
  with Suc.IH show ?case by simp
qed

lemma le_bytes_from_le:
  "length bs = n \<Longrightarrow> 8 * n \<le> LENGTH('a) \<Longrightarrow> le_bytes n (from_le bs :: 'a::len word) = bs"
proof (induction bs arbitrary: n)
  case Nil
  then show ?case by simp
next
  case (Cons b bs)
  let ?w = "from_le bs :: 'a word"
  obtain m where n: "n = Suc m" and m: "length bs = m" using Cons.prems(1) by (cases n) auto
  have w: "take_bit (8 * m) ?w = ?w"
  proof -
    have "from_le (le_bytes m ?w) = take_bit (8 * m) ?w" by (rule from_le_le_bytes)
    moreover have "le_bytes m ?w = bs" using Cons.IH m Cons.prems(2) n by simp
    ultimately show ?thesis by simp
  qed
  have hd: "ucast (ucast b OR push_bit 8 ?w) = b"
    using Cons.prems(2) n
    by (intro bit_word_eqI) (auto simp: bit_or_iff bit_push_bit_iff bit_ucast_iff)
  have bit_w: "i < 8 * m" if "bit ?w i" for i
    using that arg_cong[OF w, of "\<lambda>x. bit x i"] by (auto simp: bit_take_bit_iff)
  have "drop_bit 8 (ucast b OR push_bit 8 ?w) = ?w"
  proof (rule bit_word_eqI)
    fix i assume "i < LENGTH('a)"
    show "bit (drop_bit 8 (ucast b OR push_bit 8 ?w)) i \<longleftrightarrow> bit ?w i"
      using bit_w[of i] Cons.prems(2) n bit_imp_le_length[of b "8 + i"]
      by (auto simp: bit_or_iff bit_push_bit_iff bit_ucast_iff bit_drop_bit_eq)
  qed
  with hd n m Cons show ?case by simp
qed

text \<open>The byte swap of an \<open>n\<close>-byte integer: what \<open>htons\<close> and \<open>htonl\<close> do on this host.\<close>

definition bswap :: "nat \<Rightarrow> 'a::len word \<Rightarrow> 'a word" where
  "bswap n w = from_le (be_bytes n w)"

definition htons :: "u16 \<Rightarrow> u16" where "htons w = bswap 2 w"
definition ntohs :: "u16 \<Rightarrow> u16" where "ntohs w = bswap 2 w"
definition htonl :: "u32 \<Rightarrow> u32" where "htonl w = bswap 4 w"
definition ntohl :: "u32 \<Rightarrow> u32" where "ntohl w = bswap 4 w"

lemma le_bytes_bswap:
  "8 * n \<le> LENGTH('a) \<Longrightarrow> le_bytes n (bswap n (w :: 'a::len word)) = be_bytes n w"
  by (simp add: bswap_def le_bytes_from_le)

lemma bswap_bswap:
  assumes "8 * n \<le> LENGTH('a)"
  shows "bswap n (bswap n (w :: 'a::len word)) = take_bit (8 * n) w"
  using assms by (simp add: bswap_def be_bytes_def le_bytes_from_le from_le_le_bytes)

lemma take_bit_full [simp]:
  "take_bit 8 (x :: u8) = x" "take_bit 16 (y :: u16) = y" "take_bit 32 (z :: u32) = z"
  "take_bit 64 (v :: u64) = v" "take_bit 24 (t :: 24 word) = t"
  by (simp_all add: take_bit_word_eq_self)

lemma ntohs_htons [simp]: "ntohs (htons w) = w"
  using bswap_bswap[of 2 w] by (simp add: ntohs_def htons_def)

lemma ntohl_htonl [simp]: "ntohl (htonl w) = w"
  using bswap_bswap[of 4 w] by (simp add: ntohl_def htonl_def)

lemma htons_ntohs [simp]: "htons (ntohs w) = w"
  using bswap_bswap[of 2 w] by (simp add: ntohs_def htons_def)

lemma htonl_ntohl [simp]: "htonl (ntohl w) = w"
  using bswap_bswap[of 4 w] by (simp add: ntohl_def htonl_def)

text \<open>Storing the swapped integer puts its most significant byte first: network byte order.\<close>

lemma le_bytes_htons [wire_simps]: "le_bytes 2 (htons w) = be_bytes 2 w"
  by (simp add: htons_def le_bytes_bswap)

lemma le_bytes_htonl [wire_simps]: "le_bytes 4 (htonl w) = be_bytes 4 w"
  by (simp add: htonl_def le_bytes_bswap)

lemma from_le_le_bytes_full [simp]:
  "from_le (le_bytes 2 (a :: u16)) = a" "from_le (le_bytes 4 (b :: u32)) = b"
  "from_le (le_bytes 8 (c :: u64)) = c" "from_le (le_bytes 3 (d :: 24 word)) = d"
  by (simp_all add: from_le_le_bytes)

lemma ntohs_from_le_be_bytes [simp]: "ntohs (from_le (be_bytes 2 w)) = w"
  by (metis from_le_le_bytes_full(1) le_bytes_htons ntohs_htons)

lemma ntohl_from_le_be_bytes [simp]: "ntohl (from_le (be_bytes 4 w)) = w"
  by (metis from_le_le_bytes_full(2) le_bytes_htonl ntohl_htonl)

end
