(* ===== verification/Rtcom_Types.thy ===== *)
theory Rtcom_Types
  imports Prelude
begin

text \<open>
  The types of \<open>src/common/types.h\<close>: the enumerations, the protocol constants, the configuration
  structs with their default member initialisers, and the call description that the signalling and
  the media side share. Enumerators keep their names. A struct member that the C++ code leaves
  uninitialised is an option, \<open>None\<close> until it is first written.
\<close>

section \<open>SIP and media enumerations\<close>

datatype sip_call_state =
    kIdle | kCalling | kRinging | kInProgress | kConnected
  | kDisconnecting | kDisconnected | kFailed | kRegistered | kUnregistered

datatype sip_method = kRegister | kInvite | kAck | kBye | kCancel | kOptions

datatype codec_type = kAudioAAC | kVideoH264 | kAudioPCMU | kAudioPCMA

datatype media_direction = kSendOnly | kRecvOnly | kSendRecv | kInactive

section \<open>Protocol constants\<close>

definition kRtpVersion :: u8 where "kRtpVersion = 2"
definition kRtpHeaderSize :: nat where "kRtpHeaderSize = 12"
definition kRtpMaxPayloadSize :: nat where "kRtpMaxPayloadSize = 1460"
definition kRtcpMaxPacketSize :: nat where "kRtcpMaxPacketSize = 1500"
definition kDefaultAudioPort :: u16 where "kDefaultAudioPort = 5004"
definition kDefaultVideoPort :: u16 where "kDefaultVideoPort = 5010"
definition kJitterBufferMaxMs :: u32 where "kJitterBufferMaxMs = 200"
definition kJitterBufferMinMs :: u32 where "kJitterBufferMinMs = 20"

text \<open>
  The enumeration \<open>RtpPayloadType\<close> has underlying type \<open>uint8_t\<close> and the code casts received
  values to it, so a value of it is any byte; the enumerators are names for four of them.
\<close>

type_synonym rtp_payload_type = u8

definition kPCMU :: rtp_payload_type where "kPCMU = 0"
definition kPCMA :: rtp_payload_type where "kPCMA = 8"
definition kAAC :: rtp_payload_type where "kAAC = 96"
definition kH264 :: rtp_payload_type where "kH264 = 97"

lemmas rtp_payload_type_defs = kPCMU_def kPCMA_def kAAC_def kH264_def

section \<open>Configuration\<close>

record sip_config =
  sc_server_addr :: string
  sc_server_port :: u16
  sc_local_addr :: string
  sc_local_port :: u16
  sc_username :: string
  sc_domain :: string
  sc_password :: string
  sc_register_expires :: u32
  sc_retry_t1_ms :: u32
  sc_retry_t2_ms :: u32
  sc_retry_t4_ms :: u32
  sc_max_retransmit :: u32

definition default_sip_config :: sip_config where
  "default_sip_config =
     \<lparr>sc_server_addr = ''127.0.0.1'', sc_server_port = 5060,
      sc_local_addr = ''127.0.0.1'', sc_local_port = 5060,
      sc_username = ''user'', sc_domain = ''example.com'', sc_password = [],
      sc_register_expires = 3600, sc_retry_t1_ms = 500, sc_retry_t2_ms = 4000,
      sc_retry_t4_ms = 5000, sc_max_retransmit = 7\<rparr>"

record media_config =
  mc_audio_port :: u16
  mc_video_port :: u16
  mc_audio_codec :: codec_type
  mc_video_codec :: codec_type
  mc_audio_bitrate :: u32
  mc_video_bitrate :: u32
  mc_audio_sample_rate :: u32
  mc_video_fps :: u32
  mc_video_width :: u32
  mc_video_height :: u32

definition default_media_config :: media_config where
  "default_media_config =
     \<lparr>mc_audio_port = kDefaultAudioPort, mc_video_port = kDefaultVideoPort,
      mc_audio_codec = kAudioAAC, mc_video_codec = kVideoH264,
      mc_audio_bitrate = 64000, mc_video_bitrate = 1000000,
      mc_audio_sample_rate = 44100, mc_video_fps = 30,
      mc_video_width = 640, mc_video_height = 480\<rparr>"

record server_config =
  cfg_sip :: sip_config
  cfg_media :: media_config
  cfg_max_sessions :: u32
  cfg_worker_threads :: u32
  cfg_use_glog :: bool
  cfg_log_dir :: string

definition default_server_config :: server_config where
  "default_server_config =
     \<lparr>cfg_sip = default_sip_config, cfg_media = default_media_config,
      cfg_max_sessions = 100, cfg_worker_threads = 4, cfg_use_glog = True,
      cfg_log_dir = ''./logs''\<rparr>"

section \<open>Call session information\<close>

text \<open>
  Time points of the steady clock are nanosecond counts. The two of this struct default to the
  clock's epoch, the numeric members have no initialiser.
\<close>

type_synonym time_ns = int

record call_session_info =
  ci_call_id :: string
  ci_caller_uri :: string
  ci_callee_uri :: string
  ci_state :: sip_call_state
  ci_local_ssrc :: "u32 option"
  ci_remote_ssrc :: "u32 option"
  ci_rtp_timestamp_base :: "u32 option"
  ci_rtp_seq_base :: "u16 option"
  ci_audio_local_port :: "u16 option"
  ci_video_local_port :: "u16 option"
  ci_audio_remote_port :: "u16 option"
  ci_video_remote_port :: "u16 option"
  ci_remote_rtp_addr :: string
  ci_start_time :: time_ns
  ci_last_rtp_time :: time_ns

definition init_call_session_info :: call_session_info where
  "init_call_session_info =
     \<lparr>ci_call_id = [], ci_caller_uri = [], ci_callee_uri = [], ci_state = kIdle,
      ci_local_ssrc = None, ci_remote_ssrc = None, ci_rtp_timestamp_base = None,
      ci_rtp_seq_base = None, ci_audio_local_port = None, ci_video_local_port = None,
      ci_audio_remote_port = None, ci_video_remote_port = None,
      ci_remote_rtp_addr = [], ci_start_time = 0, ci_last_rtp_time = 0\<rparr>"

section \<open>String representations\<close>

fun SipCallStateToString :: "sip_call_state \<Rightarrow> string" where
  "SipCallStateToString kIdle = ''Idle''"
| "SipCallStateToString kCalling = ''Calling''"
| "SipCallStateToString kRinging = ''Ringing''"
| "SipCallStateToString kInProgress = ''InProgress''"
| "SipCallStateToString kConnected = ''Connected''"
| "SipCallStateToString kDisconnecting = ''Disconnecting''"
| "SipCallStateToString kDisconnected = ''Disconnected''"
| "SipCallStateToString kFailed = ''Failed''"
| "SipCallStateToString kRegistered = ''Registered''"
| "SipCallStateToString kUnregistered = ''Unregistered''"

fun CodecTypeToString :: "codec_type \<Rightarrow> string" where
  "CodecTypeToString kAudioAAC = ''AAC''"
| "CodecTypeToString kVideoH264 = ''H264''"
| "CodecTypeToString kAudioPCMU = ''PCMU''"
| "CodecTypeToString kAudioPCMA = ''PCMA''"

text \<open>The log names of states and codecs tell them apart.\<close>

lemma SipCallStateToString_inject:
  "SipCallStateToString s = SipCallStateToString t \<longleftrightarrow> s = t"
  by (cases s; cases t) simp_all

lemma CodecTypeToString_inject: "CodecTypeToString c = CodecTypeToString d \<longleftrightarrow> c = d"
  by (cases c; cases d) simp_all

end
