(* ===== verification/Rtp_Packet.thy ===== *)
theory Rtp_Packet
  imports Rtcom_Types "HOL-Library.Sublist"
begin

text \<open>
  RTP packets: \<open>struct RtpHeader\<close> of \<open>src/common/types.h\<close> and \<open>class RtpPacket\<close> of
  \<open>src/rtp/rtp_packet.h\<close> and \<open>src/rtp/rtp_packet.cpp\<close>.

  The struct is packed and copied to and from the wire with \<open>memcpy\<close>; its multi-byte members hold
  network-order values (\<open>htons\<close>, \<open>htonl\<close>). The layout below is that of GCC on a little-endian
  host: bit-fields are allocated from the least significant bit. One-bit members are booleans.
\<close>

section \<open>The header\<close>

record rtp_header =
  csrc_count :: "4 word"
  extension :: bool
  padding :: bool
  version :: "2 word"
  payload_type :: "7 word"
  marker :: bool
  sequence_number :: u16
  timestamp :: u32
  ssrc :: u32

definition zero_header :: rtp_header where
  "zero_header = \<lparr>csrc_count = 0, extension = False, padding = False, version = 0,
     payload_type = 0, marker = False, sequence_number = 0, timestamp = 0, ssrc = 0\<rparr>"

text \<open>The two bytes of bit-fields, and the twelve bytes of the struct in memory.\<close>

definition header_byte0 :: "rtp_header \<Rightarrow> u8" where
  "header_byte0 h = ucast (csrc_count h) OR push_bit 4 (of_bool (extension h))
     OR push_bit 5 (of_bool (padding h)) OR push_bit 6 (ucast (version h))"

definition header_byte1 :: "rtp_header \<Rightarrow> u8" where
  "header_byte1 h = ucast (payload_type h) OR push_bit 7 (of_bool (marker h))"

definition header_bytes :: "rtp_header \<Rightarrow> bytes" where
  "header_bytes h = header_byte0 h # header_byte1 h
     # le_bytes 2 (sequence_number h) @ le_bytes 4 (timestamp h) @ le_bytes 4 (ssrc h)"

definition header_of :: "bytes \<Rightarrow> rtp_header" where
  "header_of bs =
     \<lparr>csrc_count = ucast (bs ! 0), extension = bit (bs ! 0) 4, padding = bit (bs ! 0) 5,
      version = ucast (drop_bit 6 (bs ! 0)), payload_type = ucast (bs ! 1),
      marker = bit (bs ! 1) 7, sequence_number = from_le (take 2 (drop 2 bs)),
      timestamp = from_le (take 4 (drop 4 bs)), ssrc = from_le (take 4 (drop 8 bs))\<rparr>"

lemma length_header_bytes [simp]: "length (header_bytes h) = kRtpHeaderSize"
  by (simp add: header_bytes_def kRtpHeaderSize_def)

lemmas bit_field_simps =
  bit_or_iff bit_push_bit_iff bit_ucast_iff bit_of_bool_iff bit_drop_bit_eq

lemma header_byte0_fields:
  "ucast (header_byte0 h) = csrc_count h" "bit (header_byte0 h) 4 = extension h"
  "bit (header_byte0 h) 5 = padding h" "ucast (drop_bit 6 (header_byte0 h)) = version h"
proof -
  have c: "\<not> bit (csrc_count h) n" if "4 \<le> n" for n
    using that bit_imp_le_length[of "csrc_count h" n] by fastforce
  show "ucast (header_byte0 h) = csrc_count h"
    by (rule bit_word_eqI) (auto simp: header_byte0_def bit_field_simps)
  show "bit (header_byte0 h) 4 = extension h" "bit (header_byte0 h) 5 = padding h"
    using c by (auto simp: header_byte0_def bit_field_simps)
  show "ucast (drop_bit 6 (header_byte0 h)) = version h"
    using c by (intro bit_word_eqI) (auto simp: header_byte0_def bit_field_simps)
qed

lemma header_byte1_fields:
  "ucast (header_byte1 h) = payload_type h" "bit (header_byte1 h) 7 = marker h"
proof -
  show "ucast (header_byte1 h) = payload_type h"
    by (rule bit_word_eqI) (auto simp: header_byte1_def bit_field_simps)
  have "\<not> bit (payload_type h) 7"
    using bit_imp_le_length[of "payload_type h" 7] by fastforce
  then show "bit (header_byte1 h) 7 = marker h"
    by (auto simp: header_byte1_def bit_field_simps)
qed

lemma rtp_header_eta:
  "\<lparr>csrc_count = csrc_count h, extension = extension h, padding = padding h,
    version = version h, payload_type = payload_type h, marker = marker h,
    sequence_number = sequence_number h, timestamp = timestamp h, ssrc = ssrc h\<rparr> = h"
  by simp

lemma header_of_header_bytes [simp]: "header_of (header_bytes h @ rest) = h"
proof -
  have b: "(header_bytes h @ rest) ! 0 = header_byte0 h" "(header_bytes h @ rest) ! 1 = header_byte1 h"
    by (simp_all add: header_bytes_def)
  have "take 2 (drop 2 (header_bytes h @ rest)) = le_bytes 2 (sequence_number h)"
    "take 4 (drop 4 (header_bytes h @ rest)) = le_bytes 4 (timestamp h)"
    "take 4 (drop 8 (header_bytes h @ rest)) = le_bytes 4 (ssrc h)"
    by (simp_all add: header_bytes_def)
  then show ?thesis
    by (simp only: header_of_def b header_byte0_fields header_byte1_fields
        from_le_le_bytes_full rtp_header_eta)
qed

text \<open>Conversely the struct keeps every bit of the twelve bytes copied into it.\<close>

lemma header_byte0_header_of: "header_byte0 (header_of bs) = bs ! 0"
proof (rule bit_word_eqI)
  fix n assume "n < LENGTH(8)"
  then have "n = 0 \<or> n = 1 \<or> n = 2 \<or> n = 3 \<or> n = 4 \<or> n = 5 \<or> n = 6 \<or> n = 7"
    unfolding len_bit0 len_num1 by arith
  then show "bit (header_byte0 (header_of bs)) n = bit (bs ! 0) n"
    by (elim disjE) (simp_all add: header_byte0_def header_of_def bit_field_simps)
qed

lemma header_byte1_header_of: "header_byte1 (header_of bs) = bs ! 1"
proof (rule bit_word_eqI)
  fix n assume "n < LENGTH(8)"
  then have "n = 0 \<or> n = 1 \<or> n = 2 \<or> n = 3 \<or> n = 4 \<or> n = 5 \<or> n = 6 \<or> n = 7"
    unfolding len_bit0 len_num1 by arith
  then show "bit (header_byte1 (header_of bs)) n = bit (bs ! 1) n"
    by (elim disjE) (simp_all add: header_byte1_def header_of_def bit_field_simps)
qed

lemma header_bytes_header_of:
  assumes "length bs = kRtpHeaderSize"
  shows "header_bytes (header_of bs) = bs"
proof -
  obtain b0 b1 rest where bs: "bs = b0 # b1 # rest" and r: "length rest = 10"
    using assms by (cases bs; cases "tl bs") (auto simp: kRtpHeaderSize_def)
  have "le_bytes 2 (sequence_number (header_of bs)) = take 2 rest"
    "le_bytes 4 (timestamp (header_of bs)) = take 4 (drop 2 rest)"
    "le_bytes 4 (ssrc (header_of bs)) = take 4 (drop 6 rest)"
    using r by (simp_all add: header_of_def bs le_bytes_from_le)
  moreover have "take 2 rest @ take 4 (drop 2 rest) @ take 4 (drop 6 rest) = rest"
  proof -
    have "take 4 (drop 6 rest) = drop 4 (drop 2 rest)" using r by simp
    then show ?thesis by (metis append_take_drop_id)
  qed
  ultimately show ?thesis
    using header_byte0_header_of[of bs] header_byte1_header_of[of bs]
    by (simp add: header_bytes_def bs)
qed

section \<open>The packet class\<close>

record rtp_packet =
  pkt_header :: rtp_header
  pkt_payload :: bytes

text \<open>The default constructor zeroes the header.\<close>

definition RtpPacket_default :: rtp_packet where
  "RtpPacket_default = \<lparr>pkt_header = zero_header, pkt_payload = []\<rparr>"

definition Sequence :: "rtp_packet \<Rightarrow> u16" where
  "Sequence p = ntohs (sequence_number (pkt_header p))"

definition Timestamp :: "rtp_packet \<Rightarrow> u32" where
  "Timestamp p = ntohl (timestamp (pkt_header p))"

definition Ssrc :: "rtp_packet \<Rightarrow> u32" where
  "Ssrc p = ntohl (ssrc (pkt_header p))"

definition Marker :: "rtp_packet \<Rightarrow> bool" where
  "Marker p = marker (pkt_header p)"

definition PayloadType :: "rtp_packet \<Rightarrow> u8" where
  "PayloadType p = ucast (payload_type (pkt_header p))"

definition SetSequence :: "u16 \<Rightarrow> rtp_packet \<Rightarrow> rtp_packet" where
  "SetSequence seq p = p\<lparr>pkt_header := (pkt_header p)\<lparr>sequence_number := htons seq\<rparr>\<rparr>"

definition SetTimestamp :: "u32 \<Rightarrow> rtp_packet \<Rightarrow> rtp_packet" where
  "SetTimestamp ts p = p\<lparr>pkt_header := (pkt_header p)\<lparr>timestamp := htonl ts\<rparr>\<rparr>"

definition SetSsrc :: "u32 \<Rightarrow> rtp_packet \<Rightarrow> rtp_packet" where
  "SetSsrc s p = p\<lparr>pkt_header := (pkt_header p)\<lparr>ssrc := htonl s\<rparr>\<rparr>"

definition SetMarker :: "bool \<Rightarrow> rtp_packet \<Rightarrow> rtp_packet" where
  "SetMarker m p = p\<lparr>pkt_header := (pkt_header p)\<lparr>marker := m\<rparr>\<rparr>"

definition SetPayloadType :: "u8 \<Rightarrow> rtp_packet \<Rightarrow> rtp_packet" where
  "SetPayloadType pt p = p\<lparr>pkt_header := (pkt_header p)\<lparr>payload_type := ucast pt\<rparr>\<rparr>"

definition SetPayload :: "bytes \<Rightarrow> rtp_packet \<Rightarrow> rtp_packet" where
  "SetPayload bs p = p\<lparr>pkt_payload := bs\<rparr>"

definition TotalSize :: "rtp_packet \<Rightarrow> nat" where
  "TotalSize p = kRtpHeaderSize + length (pkt_payload p)"

lemmas accessor_defs =
  Sequence_def Timestamp_def Ssrc_def Marker_def PayloadType_def

text \<open>
  \<open>RtpPacket::Parse\<close>. The datagram is the byte list, \<open>len\<close> its length; each read of the buffer is
  checked, so \<open>None\<close> would be a read outside it. The three stages are the CSRC list and extension
  header, then the padding, then the payload copy.
\<close>

definition parse_payload_offset :: "bytes \<Rightarrow> rtp_header \<Rightarrow> nat option" where
  "parse_payload_offset data h =
     (let payload_offset = kRtpHeaderSize + unat (csrc_count h) * 4
      in if extension h \<and> length data > payload_offset + 4
         then do {
           e \<leftarrow> rd_block data (payload_offset + 2) 2;
           Some (payload_offset + (4 + unat (ntohs (from_le e)) * 4))
         }
         else Some payload_offset)"

definition parse_payload_len :: "bytes \<Rightarrow> rtp_header \<Rightarrow> nat \<Rightarrow> nat option" where
  "parse_payload_len data h payload_len =
     (if padding h \<and> payload_len > 0
      then do {
        pad_len \<leftarrow> rd data (length data - 1);
        Some (if unat pad_len < payload_len then payload_len - unat pad_len else payload_len)
      }
      else Some payload_len)"

definition RtpPacket_Parse :: "bytes \<Rightarrow> rtp_packet option" where
  "RtpPacket_Parse data =
     (if length data < kRtpHeaderSize then Some RtpPacket_default
      else do {
        hb \<leftarrow> rd_block data 0 kRtpHeaderSize;
        let h = header_of hb;
        payload_offset \<leftarrow> parse_payload_offset data h;
        if payload_offset < length data
        then do {
          payload_len \<leftarrow> parse_payload_len data h (length data - payload_offset);
          payload \<leftarrow> rd_block data payload_offset payload_len;
          Some \<lparr>pkt_header = h, pkt_payload = payload\<rparr>
        }
        else Some \<lparr>pkt_header = h, pkt_payload = []\<rparr>
      })"

text \<open>
  \<open>RtpPacket::Serialize\<close> into a caller's buffer: the bytes written count, and the buffer after the
  call. A buffer that is too small is left alone and 0 is returned.
\<close>

definition RtpPacket_Serialize :: "rtp_packet \<Rightarrow> bytes \<Rightarrow> nat \<times> bytes" where
  "RtpPacket_Serialize p buffer =
     (let total = TotalSize p
      in if length buffer < total then (0, buffer)
         else (total, header_bytes (pkt_header p) @ pkt_payload p @ drop total buffer))"

text \<open>\<open>RtpPacket::Build\<close>; the payload type is stored in seven bits.\<close>

definition RtpPacket_Build :: "u8 \<Rightarrow> u16 \<Rightarrow> u32 \<Rightarrow> u32 \<Rightarrow> bool \<Rightarrow> bytes \<Rightarrow> rtp_packet" where
  "RtpPacket_Build pt seq ts s m payload =
     \<lparr>pkt_header =
        \<lparr>csrc_count = 0, extension = False, padding = False, version = ucast kRtpVersion,
         payload_type = ucast pt, marker = m, sequence_number = htons seq,
         timestamp = htonl ts, ssrc = htonl s\<rparr>,
      pkt_payload = payload\<rparr>"

section \<open>The struct and the wire\<close>

text \<open>
  Property C29. The struct is a faithful type of wire headers. Copying the packed struct out is a bijection
  between its values and the blocks of twelve bytes, with the copy in as its inverse, so no bit of the
  wire is lost in the bit-fields or shared by two of them. A value written through a setter of the
  class is the value read through the getter, up to the seven bits of the payload type, and so is every
  argument of \<open>Build\<close>.
\<close>

theorem RtpHeader_layout:
  "bij_betw header_bytes UNIV {bs. length bs = kRtpHeaderSize}
   \<and> (\<forall>h. header_of (header_bytes h) = h)
   \<and> (\<forall>p x. Sequence (SetSequence x p) = x) \<and> (\<forall>p x. Timestamp (SetTimestamp x p) = x)
   \<and> (\<forall>p x. Ssrc (SetSsrc x p) = x) \<and> (\<forall>p b. Marker (SetMarker b p) = b)
   \<and> (\<forall>p x. PayloadType (SetPayloadType x p) = take_bit 7 x)
   \<and> (\<forall>pt seq ts s m bs. PayloadType (RtpPacket_Build pt seq ts s m bs) = take_bit 7 pt
        \<and> Sequence (RtpPacket_Build pt seq ts s m bs) = seq \<and> Timestamp (RtpPacket_Build pt seq ts s m bs) = ts
        \<and> Ssrc (RtpPacket_Build pt seq ts s m bs) = s \<and> Marker (RtpPacket_Build pt seq ts s m bs) = m)"
proof (intro conjI allI)
  have undo: "header_of (header_bytes h) = h" for h using header_of_header_bytes [of h "[]"] by simp
  show "bij_betw header_bytes UNIV {bs. length bs = kRtpHeaderSize}"
    by (rule bij_betw_byWitness [where f' = header_of]) (auto simp: undo header_bytes_header_of)
  show "header_of (header_bytes h) = h" for h by (rule undo)
  have seven: "ucast (ucast x :: 7 word) = take_bit 7 x" for x :: u8
    by (rule bit_word_eqI) (auto simp: bit_take_bit_iff bit_ucast_iff)
  show "PayloadType (SetPayloadType x p) = take_bit 7 x" for p x
    by (simp add: PayloadType_def SetPayloadType_def seven)
  show "PayloadType (RtpPacket_Build pt seq ts s m bs) = take_bit 7 pt" for pt seq ts s m bs
    by (simp add: PayloadType_def RtpPacket_Build_def seven)
qed (simp_all add: accessor_defs SetSequence_def SetTimestamp_def SetSsrc_def SetMarker_def RtpPacket_Build_def)

section \<open>Memory safety of the parser\<close>

lemma parse_payload_offset_Some:
  obtains off where "parse_payload_offset data h = Some off" "kRtpHeaderSize \<le> off"
  by (cases "extension h \<and> length data > kRtpHeaderSize + unat (csrc_count h) * 4 + 4")
    (auto simp: parse_payload_offset_def Let_def mem_simps)

lemma parse_payload_len_Some:
  assumes "n \<le> length data"
  obtains m where "parse_payload_len data h n = Some m" "m \<le> n" "0 < n \<Longrightarrow> 0 < m"
proof (cases "padding h \<and> n > 0")
  case True
  then have "rd data (length data - 1) = Some (data ! (length data - 1))"
    using assms by (intro rd_Some) arith
  with True show thesis
    by (intro that[of "if unat (data ! (length data - 1)) < n
          then n - unat (data ! (length data - 1)) else n"])
      (auto simp: parse_payload_len_def)
next
  case False
  then show thesis by (intro that[of n]) (auto simp: parse_payload_len_def)
qed

text \<open>
  What a successful parse is: the header read from the first twelve bytes, the payload a segment of
  the datagram behind it.
\<close>

lemma RtpPacket_Parse_cases:
  assumes "kRtpHeaderSize \<le> length data"
  obtains off n where
    "RtpPacket_Parse data =
       Some \<lparr>pkt_header = header_of data, pkt_payload = take n (drop off data)\<rparr>"
    "kRtpHeaderSize \<le> off" "off + n \<le> max off (length data)"
proof -
  have hb: "rd_block data 0 kRtpHeaderSize = Some (take kRtpHeaderSize data)"
    using assms by (simp add: mem_simps)
  have h: "header_of (take kRtpHeaderSize data) = header_of data"
    using assms by (simp add: header_of_def kRtpHeaderSize_def drop_take)
  obtain off where off: "parse_payload_offset data (header_of data) = Some off" "kRtpHeaderSize \<le> off"
    by (rule parse_payload_offset_Some)
  show thesis
  proof (cases "off < length data")
    case True
    obtain m where m: "parse_payload_len data (header_of data) (length data - off) = Some m"
        "m \<le> length data - off"
      by (rule parse_payload_len_Some[of "length data - off" data]) auto
    show thesis
      using True assms off m
      by (intro that[of m off])
        (auto simp: RtpPacket_Parse_def hb h mem_simps)
  next
    case False
    then show thesis
      using assms off by (intro that[of 0 off]) (auto simp: RtpPacket_Parse_def hb h)
  qed
qed

lemma RtpPacket_Parse_total: "\<exists>p. RtpPacket_Parse data = Some p"
proof (cases "kRtpHeaderSize \<le> length data")
  case True
  then show ?thesis by (rule RtpPacket_Parse_cases) blast
qed (simp add: RtpPacket_Parse_def)

text \<open>
  Property C11. Memory safety and shape of \<open>RtpPacket::Parse\<close>: on every datagram, whatever its bytes
  and its length, all reads stay inside the buffer and a packet is returned; a datagram shorter than
  the fixed header gives the zeroed packet, and otherwise the header is the first twelve bytes and
  the payload is a contiguous segment of what follows them.
\<close>

theorem RtpPacket_Parse_safe:
  "\<exists>p. RtpPacket_Parse data = Some p
     \<and> (if length data < kRtpHeaderSize then p = RtpPacket_default
        else header_bytes (pkt_header p) = take kRtpHeaderSize data
          \<and> sublist (pkt_payload p) (drop kRtpHeaderSize data))"
proof (cases "length data < kRtpHeaderSize")
  case True
  then show ?thesis by (simp add: RtpPacket_Parse_def)
next
  case False
  then obtain off n where
    p: "RtpPacket_Parse data =
          Some \<lparr>pkt_header = header_of data, pkt_payload = take n (drop off data)\<rparr>"
    and off: "kRtpHeaderSize \<le> off"
    by (meson RtpPacket_Parse_cases not_less)
  have "drop off data = drop (off - kRtpHeaderSize) (drop kRtpHeaderSize data)"
    using off by simp
  then have "sublist (take n (drop off data)) (drop kRtpHeaderSize data)"
    by (metis sublist_drop sublist_order.dual_order.trans sublist_take)
  moreover have "header_of data = header_of (take kRtpHeaderSize data)"
    using False by (simp add: header_of_def kRtpHeaderSize_def drop_take)
  ultimately show ?thesis
    using False by (simp add: p header_bytes_header_of)
qed

section \<open>The packet layout of RFC 3550\<close>

text \<open>
  The layout the parser is written against, as an encoder: the fixed header, the CSRC list, the
  header extension (profile, length in words, words), the payload and the padding, whose last byte
  counts it. \<open>rfc3550_valid\<close> ties the header's bits and counts to the parts.
\<close>

type_synonym rtp_ext = "(u16 \<times> u32 list) option"

definition words_bytes :: "u32 list \<Rightarrow> bytes" where
  "words_bytes ws = concat (map (be_bytes 4) ws)"

definition ext_bytes :: "rtp_ext \<Rightarrow> bytes" where
  "ext_bytes e = (case e of None \<Rightarrow> []
     | Some (prof, ws) \<Rightarrow> be_bytes 2 prof @ be_bytes 2 (of_nat (length ws) :: u16) @ words_bytes ws)"

definition padding_bytes :: "nat \<Rightarrow> bytes" where
  "padding_bytes n = (if n = 0 then [] else replicate (n - 1) 0 @ [of_nat n])"

definition rfc3550_encode :: "rtp_header \<Rightarrow> u32 list \<Rightarrow> rtp_ext \<Rightarrow> bytes \<Rightarrow> nat \<Rightarrow> bytes" where
  "rfc3550_encode h csrcs e payload pad =
     header_bytes h @ words_bytes csrcs @ ext_bytes e @ payload @ padding_bytes pad"

definition rfc3550_valid :: "rtp_header \<Rightarrow> u32 list \<Rightarrow> rtp_ext \<Rightarrow> nat \<Rightarrow> bool" where
  "rfc3550_valid h csrcs e pad \<longleftrightarrow>
     length csrcs = unat (csrc_count h)
     \<and> (case e of None \<Rightarrow> \<not> extension h | Some (_, ws) \<Rightarrow> extension h \<and> length ws < 65536)
     \<and> padding h = (0 < pad) \<and> pad < 256"

lemma length_words_bytes [simp]: "length (words_bytes ws) = length ws * 4"
  by (induction ws) (auto simp: words_bytes_def)

lemma length_padding_bytes [simp]: "length (padding_bytes n) = n"
  by (simp add: padding_bytes_def)

lemma parse_payload_offset_encode:
  assumes "rfc3550_valid h csrcs e pad" and "payload \<noteq> []"
  shows "parse_payload_offset (rfc3550_encode h csrcs e payload pad) h =
     Some (kRtpHeaderSize + length csrcs * 4 + length (ext_bytes e))"
proof (cases e)
  case None
  then show ?thesis
    using assms by (simp add: parse_payload_offset_def rfc3550_valid_def ext_bytes_def)
next
  case (Some pw)
  obtain prof ws where e: "e = Some (prof, ws)" using Some by (cases pw) auto
  define pre where "pre = header_bytes h @ words_bytes csrcs @ be_bytes 2 prof"
  define post where "post = words_bytes ws @ payload @ padding_bytes pad"
  have enc: "rfc3550_encode h csrcs (Some (prof, ws)) payload pad =
      pre @ be_bytes 2 (of_nat (length ws) :: u16) @ post"
    by (simp add: rfc3550_encode_def ext_bytes_def pre_def post_def)
  have n: "unat (of_nat (length ws) :: u16) = length ws"
    using assms(1) e by (simp add: rfc3550_valid_def unat_of_nat)
  have pre: "length pre = kRtpHeaderSize + unat (csrc_count h) * 4 + 2"
    using assms(1) by (simp add: pre_def rfc3550_valid_def)
  have "rd_block (pre @ be_bytes 2 (of_nat (length ws) :: u16) @ post) (length pre) 2 =
      Some (be_bytes 2 (of_nat (length ws) :: u16))"
    by (simp add: rd_block_append)
  moreover have "0 < length post" using assms(2) by (simp add: post_def)
  ultimately show ?thesis
    using assms(1) pre n
    by (simp add: e enc parse_payload_offset_def rfc3550_valid_def ext_bytes_def)
qed

lemma parse_payload_len_padding:
  assumes "padding h = (0 < pad)" and "pad < 256" and "payload \<noteq> []"
  shows "parse_payload_len (pre @ payload @ padding_bytes pad) h (length payload + pad) =
     Some (length payload)"
proof (cases "pad = 0")
  case True
  then show ?thesis using assms by (simp add: parse_payload_len_def)
next
  case False
  have "rd (pre @ payload @ padding_bytes pad) (length (pre @ payload @ padding_bytes pad) - 1)
      = Some (last (pre @ payload @ padding_bytes pad))"
    using assms(3) by (intro rd_last) simp
  moreover have "last (pre @ payload @ padding_bytes pad) = of_nat pad"
    using False by (simp add: padding_bytes_def)
  moreover have "unat (of_nat pad :: u8) = pad" using assms(2) by (simp add: unat_of_nat)
  ultimately show ?thesis
    using False assms by (simp add: parse_payload_len_def)
qed

lemma parse_layout:
  assumes "rfc3550_valid h csrcs e pad" and "payload \<noteq> []"
  shows "RtpPacket_Parse (rfc3550_encode h csrcs e payload pad) =
     Some \<lparr>pkt_header = h, pkt_payload = payload\<rparr>"
proof -
  let ?data = "rfc3550_encode h csrcs e payload pad"
  let ?pre = "header_bytes h @ words_bytes csrcs @ ext_bytes e"
  have data: "?data = ?pre @ payload @ padding_bytes pad" by (simp add: rfc3550_encode_def)
  have off: "parse_payload_offset ?data h = Some (length ?pre)"
    using parse_payload_offset_encode[OF assms] by simp
  have len: "length ?data - length ?pre = length payload + pad"
    unfolding data by simp
  have n: "parse_payload_len ?data h (length ?data - length ?pre) = Some (length payload)"
    unfolding len data
    using assms parse_payload_len_padding[of h pad payload ?pre] by (simp add: rfc3550_valid_def)
  have hb: "rd_block ?data 0 kRtpHeaderSize = Some (header_bytes h)"
    by (simp add: rd_block_def rfc3550_encode_def)
  have pl: "rd_block ?data (length ?pre) (length payload) = Some payload"
    unfolding data by (rule rd_block_append) simp_all
  have lt: "length ?pre < length ?data" "kRtpHeaderSize \<le> length ?data"
    using assms(2) unfolding data by simp_all
  have h: "header_of (header_bytes h) = h"
    using header_of_header_bytes[of h "[]"] by simp
  show ?thesis
    using lt off n hb pl h by (simp add: RtpPacket_Parse_def)
qed


definition example_header :: rtp_header where
  "example_header = \<lparr>csrc_count = 1, extension = True, padding = True, version = 2,
     payload_type = 96, marker = True, sequence_number = 0, timestamp = 0, ssrc = 0\<rparr>"


text \<open>
  The two boundary cases outside that theorem. The extension header is skipped only when more than
  its four bytes are left, so an empty extension that ends the packet comes back as payload; and
  padding is stripped only when it is shorter than the rest, so a packet of padding alone keeps it.
\<close>

lemma RtpPacket_Parse_empty_extension:
  assumes "rfc3550_valid h csrcs (Some (prof, [])) 0"
  shows "RtpPacket_Parse (rfc3550_encode h csrcs (Some (prof, [])) [] 0) =
     Some \<lparr>pkt_header = h, pkt_payload = be_bytes 2 prof @ [0, 0]\<rparr>"
proof -
  let ?data = "rfc3550_encode h csrcs (Some (prof, [])) [] 0"
  have zero: "be_bytes 2 (0 :: u16) = [0, 0]" by (simp add: be_bytes_def eval_nat_numeral)
  have data: "?data = (header_bytes h @ words_bytes csrcs) @ (be_bytes 2 prof @ [0, 0]) @ []"
    by (simp add: rfc3550_encode_def ext_bytes_def padding_bytes_def words_bytes_def zero)
  have len: "length ?data = kRtpHeaderSize + unat (csrc_count h) * 4 + 4"
    unfolding data using assms by (simp add: rfc3550_valid_def)
  have "parse_payload_offset ?data h = Some (kRtpHeaderSize + unat (csrc_count h) * 4)"
    by (simp add: parse_payload_offset_def len)
  moreover have "rd_block ?data 0 kRtpHeaderSize = Some (header_bytes h)"
    by (simp add: rd_block_def rfc3550_encode_def)
  moreover have "rd_block ?data (kRtpHeaderSize + unat (csrc_count h) * 4) 4
      = Some (be_bytes 2 prof @ [0, 0])"
    unfolding data using assms by (intro rd_block_append) (simp_all add: rfc3550_valid_def)
  moreover have "parse_payload_len ?data h 4 = Some 4"
    using assms by (simp add: parse_payload_len_def rfc3550_valid_def)
  moreover have "header_of (header_bytes h) = h"
    using header_of_header_bytes[of h "[]"] by simp
  ultimately show ?thesis by (simp add: RtpPacket_Parse_def len)
qed

section \<open>Building and serialising\<close>

lemma Build_accessors [simp]:
  "Sequence (RtpPacket_Build pt seq ts s m pl) = seq"
  "Timestamp (RtpPacket_Build pt seq ts s m pl) = ts"
  "Ssrc (RtpPacket_Build pt seq ts s m pl) = s"
  "Marker (RtpPacket_Build pt seq ts s m pl) = m"
  "PayloadType (RtpPacket_Build pt seq ts s m pl) = take_bit 7 pt"
  "pkt_payload (RtpPacket_Build pt seq ts s m pl) = pl"
proof -
  have "ucast (ucast pt :: 7 word) = take_bit 7 pt"
    by (rule bit_word_eqI) (auto simp: bit_ucast_iff bit_take_bit_iff)
  then show "PayloadType (RtpPacket_Build pt seq ts s m pl) = take_bit 7 pt"
    by (simp add: accessor_defs RtpPacket_Build_def)
qed (simp_all add: accessor_defs RtpPacket_Build_def)

text \<open>A header that announces nothing beyond the fixed part, as every built packet has.\<close>

definition plain_header :: "rtp_header \<Rightarrow> bool" where
  "plain_header h \<longleftrightarrow> csrc_count h = 0 \<and> \<not> extension h \<and> \<not> padding h"

lemma plain_header_Build [simp]: "plain_header (pkt_header (RtpPacket_Build pt seq ts s m pl))"
  by (simp add: plain_header_def RtpPacket_Build_def)

lemma RtpPacket_Parse_plain:
  assumes "plain_header h"
  shows "RtpPacket_Parse (header_bytes h @ payload) = Some \<lparr>pkt_header = h, pkt_payload = payload\<rparr>"
proof (cases "payload = []")
  case True
  have "header_of (header_bytes h) = h"
    using header_of_header_bytes[of h "[]"] by simp
  with True assms show ?thesis
    by (simp add: RtpPacket_Parse_def parse_payload_offset_def plain_header_def mem_simps)
next
  case False
  have "rfc3550_valid h [] None 0" using assms by (simp add: rfc3550_valid_def plain_header_def)
  from parse_layout[OF this False] show ?thesis
    by (simp add: rfc3550_encode_def words_bytes_def ext_bytes_def padding_bytes_def)
qed

text \<open>
  Serialising and parsing are inverse: a packet without CSRCs, extension or padding
  fits any buffer of its total size, the call writes exactly that many bytes and leaves the rest of
  the buffer alone, and parsing the written bytes gives the packet back, header bit for bit.
\<close>

theorem RtpPacket_Serialize_Parse:
  assumes "plain_header (pkt_header p)" and "TotalSize p \<le> length buffer"
    and "RtpPacket_Serialize p buffer = (n, buffer')"
  shows "n = TotalSize p \<and> length buffer' = length buffer \<and> drop n buffer' = drop n buffer
     \<and> RtpPacket_Parse (take n buffer') = Some p"
proof -
  have n: "n = TotalSize p"
    and b: "buffer' = header_bytes (pkt_header p) @ pkt_payload p @ drop n buffer"
    using assms(2,3) by (auto simp: RtpPacket_Serialize_def Let_def)
  have "take n buffer' = header_bytes (pkt_header p) @ pkt_payload p"
    unfolding b n by (simp add: TotalSize_def)
  then have "RtpPacket_Parse (take n buffer') = Some p"
    using RtpPacket_Parse_plain[OF assms(1), of "pkt_payload p"] by simp
  moreover have "drop n buffer' = drop n buffer"
    unfolding b n by (simp add: TotalSize_def)
  moreover have "length buffer' = length buffer"
    unfolding b using assms(2) n by (simp add: TotalSize_def)
  ultimately show ?thesis using n by simp
qed

lemma RtpPacket_Serialize_Parse_witness:
  "RtpPacket_Parse (take 16
     (header_bytes (pkt_header (RtpPacket_Build 96 12345 67890 7 True [0, 1, 2, 3]))
        @ [0, 1, 2, 3] @ drop 16 (replicate 20 0)))
   = Some (RtpPacket_Build 96 12345 67890 7 True [0, 1, 2, 3])"
proof -
  let ?p = "RtpPacket_Build 96 12345 67890 7 True [0, 1, 2, 3]"
  have "RtpPacket_Serialize ?p (replicate 20 0) =
      (16, header_bytes (pkt_header ?p) @ [0, 1, 2, 3] @ drop 16 (replicate 20 0))"
    by (simp add: RtpPacket_Serialize_def TotalSize_def kRtpHeaderSize_def)
  from RtpPacket_Serialize_Parse[OF _ _ this] show ?thesis
    by (simp add: TotalSize_def kRtpHeaderSize_def)
qed

text \<open>A buffer that is too small is refused and not touched.\<close>

lemma RtpPacket_Serialize_too_small:
  "length buffer < TotalSize p \<Longrightarrow> RtpPacket_Serialize p buffer = (0, buffer)"
  by (simp add: RtpPacket_Serialize_def)

text \<open>
  The bytes of a built packet are those of RFC 3550, section 5.1: version 2 with no
  padding, extension or CSRC in the first byte, marker and seven bits of payload type in the second,
  then sequence number, timestamp and SSRC most significant byte first.
\<close>

lemma Build_header_bytes:
  "header_bytes (pkt_header (RtpPacket_Build pt seq ts s m pl)) =
     [0x80, take_bit 7 pt OR (if m then 0x80 else 0)]
     @ be_bytes 2 seq @ be_bytes 4 ts @ be_bytes 4 s"
proof -
  let ?h = "pkt_header (RtpPacket_Build pt seq ts s m pl)"
  have b0: "header_byte0 ?h = 0x80"
    by (simp add: header_byte0_def RtpPacket_Build_def kRtpVersion_def)
  have b1: "header_byte1 ?h = take_bit 7 pt OR (if m then 0x80 else 0)"
  proof -
    have "ucast (ucast pt :: 7 word) = take_bit 7 pt"
      by (rule bit_word_eqI) (auto simp: bit_ucast_iff bit_take_bit_iff)
    then show ?thesis by (simp add: header_byte1_def RtpPacket_Build_def)
  qed
  show ?thesis
    unfolding header_bytes_def b0 b1
    by (simp add: RtpPacket_Build_def wire_simps)
qed

end
