(* ===== verification/H264_Fragmenter.thy ===== *)
theory H264_Fragmenter
  imports Rtcom_Types
begin

text \<open>
  H.264 NAL unit fragmentation: \<open>class H264Fragmenter\<close> of \<open>src/rtp/rtp_packet.h\<close> and
  \<open>src/rtp/rtp_packet.cpp\<close> (FU-A of RFC 6184).
\<close>

section \<open>Fragmenting\<close>

definition kMaxFuPayload :: nat where
  "kMaxFuPayload = kRtpMaxPayloadSize - kRtpHeaderSize - 2"

lemma kMaxFuPayload_val: "kMaxFuPayload = 1446"
  by (simp add: kMaxFuPayload_def kRtpMaxPayloadSize_def kRtpHeaderSize_def)

definition fu_indicator :: "u8 \<Rightarrow> u8" where
  "fu_indicator nal_header = (nal_header AND 0xE0) OR 28"

definition fu_header :: "u8 \<Rightarrow> bool \<Rightarrow> bool \<Rightarrow> u8" where
  "fu_header nal_header first final =
     (let h = nal_header AND 0x1F;
          h = (if first then h OR 0x80 else h)
      in if final then h OR 0x40 else h)"

text \<open>
  The \<open>while\<close> loop over the NAL payload. The state is the loop's \<open>offset\<close> and \<open>first\<close>; every
  iteration takes a chunk of at most \<open>kMaxFuPayload\<close> bytes, whatever the MTU.
\<close>

function fragment_loop :: "u8 \<Rightarrow> bytes \<Rightarrow> nat \<Rightarrow> bool \<Rightarrow> bytes list" where
  "fragment_loop nal_header nal_payload offset first =
     (if offset < length nal_payload
      then let chunk = min kMaxFuPayload (length nal_payload - offset);
               final = (offset + chunk \<ge> length nal_payload);
               frag = [fu_indicator nal_header, fu_header nal_header first final]
                      @ take chunk (drop offset nal_payload)
           in frag # fragment_loop nal_header nal_payload (offset + chunk) False
      else [])"
  by pat_completeness auto
termination
  by (relation "measure (\<lambda>(h, p, off, first). length p - off)") (auto simp: kMaxFuPayload_val)

declare fragment_loop.simps [simp del]

text \<open>
  \<open>Fragment\<close>: a NAL unit that fits the MTU is passed through as it is. Otherwise it has a first byte
  (its length exceeds \<open>mtu \<ge> 0\<close>), the NAL header, which the fragments carry in split form.
\<close>

definition H264Fragmenter_Fragment :: "bytes \<Rightarrow> nat \<Rightarrow> bytes list option" where
  "H264Fragmenter_Fragment nal_data mtu =
     (if length nal_data \<le> mtu then Some [nal_data]
      else do {
        nal_header \<leftarrow> rd nal_data 0;
        Some (fragment_loop nal_header (drop 1 nal_data) 0 True)
      })"

section \<open>Defragmenting\<close>

text \<open>
  The \<open>for\<close> loop over the fragments with its index \<open>i\<close> and the accumulated \<open>complete_nal\<close>;
  \<open>Defragment\<close> returns \<open>None\<close> for the C++ result \<open>false\<close>.
\<close>

fun defragment_loop :: "nat \<Rightarrow> bytes list \<Rightarrow> bytes \<Rightarrow> bytes" where
  "defragment_loop i [] nal = nal"
| "defragment_loop i (frag # frags) nal =
     (case frag of
        ind # hdr # rest \<Rightarrow>
          let nal_header = (ind AND 0xE0) OR (hdr AND 0x1F);
              nal = (if i = 0 then nal @ [nal_header] else nal)
          in defragment_loop (i + 1) frags (nal @ rest)
      | _ \<Rightarrow> defragment_loop (i + 1) frags nal)"

definition H264Fragmenter_Defragment :: "bytes list \<Rightarrow> bytes option" where
  "H264Fragmenter_Defragment fragments =
     (if fragments = [] then None else Some (defragment_loop 0 fragments []))"

section \<open>The header bytes\<close>

lemma fu_headers_rebuild:
  "(fu_indicator h AND 0xE0) OR (fu_header h first final AND 0x1F) = h"
proof -
  have "h AND 0xE0 OR h AND 0x1F = h"
  proof -
    have "h AND 0xE0 OR h AND 0x1F = h AND (0xE0 OR 0x1F)"
      by (simp only: word_ao_dist2)
    also have "(0xE0 OR 0x1F :: u8) = - 1" by simp
    finally show ?thesis by simp
  qed
  moreover have "fu_indicator h AND 0xE0 = h AND 0xE0"
    by (simp add: fu_indicator_def word_ao_dist and.assoc)
  moreover have "fu_header h first final AND 0x1F = h AND 0x1F"
    by (simp add: fu_header_def Let_def word_ao_dist and.assoc)
  ultimately show ?thesis by simp
qed

lemma fu_indicator_type: "fu_indicator h AND 0x1F = 28"
  by (simp add: fu_indicator_def word_ao_dist and.assoc)

lemma fu_header_bits:
  "bit (fu_header h first final) 7 = first" "bit (fu_header h first final) 6 = final"
  by (simp_all add: fu_header_def Let_def bit_or_iff bit_and_iff)

section \<open>The loops\<close>

lemma fragment_loop_stop: "length p \<le> offset \<Longrightarrow> fragment_loop h p offset first = []"
  by (subst fragment_loop.simps) simp

lemma fragment_loop_step:
  "offset < length p \<Longrightarrow> fragment_loop h p offset first =
     ([fu_indicator h, fu_header h first (length p \<le> offset + kMaxFuPayload)]
       @ take kMaxFuPayload (drop offset p))
     # fragment_loop h p (offset + kMaxFuPayload) False"
  by (subst fragment_loop.simps)
    (auto simp: Let_def min_def fragment_loop_stop intro: arg_cong[where f = "fu_header h first"])

lemma fragment_loop_Nil_iff: "fragment_loop h p offset first = [] \<longleftrightarrow> length p \<le> offset"
  by (subst fragment_loop.simps) (simp add: Let_def not_less)

text \<open>The fragments carry the NAL payload in order, cut without loss or overlap.\<close>

lemma fragment_loop_payload:
  "concat (map (drop 2) (fragment_loop h p offset first)) = drop offset p"
proof (induction h p offset first rule: fragment_loop.induct)
  case (1 h p offset first)
  show ?case
  proof (cases "offset < length p")
    case True
    let ?chunk = "min kMaxFuPayload (length p - offset)"
    have "concat (map (drop 2) (fragment_loop h p (offset + ?chunk) False)) = drop (offset + ?chunk) p"
      using "1.IH" True by simp
    moreover have "take ?chunk (drop offset p) @ drop (offset + ?chunk) p = drop offset p"
      by (metis add.commute append_take_drop_id drop_drop)
    ultimately show ?thesis
      using True by (subst fragment_loop.simps) (simp add: Let_def)
  next
    case False
    then show ?thesis by (simp add: fragment_loop_stop)
  qed
qed

text \<open>Each fragment's two header bytes, by its position, and its size.\<close>

lemma fragment_loop_nth:
  assumes "i < length (fragment_loop h p offset first)"
  shows "take 2 (fragment_loop h p offset first ! i) =
      [fu_indicator h,
       fu_header h (first \<and> i = 0) (Suc i = length (fragment_loop h p offset first))]
    \<and> 2 < length (fragment_loop h p offset first ! i)
    \<and> length (fragment_loop h p offset first ! i) \<le> 2 + kMaxFuPayload"
  using assms
proof (induction i arbitrary: offset first)
  case 0
  then have off: "offset < length p"
    by (metis fragment_loop_Nil_iff length_0_conv less_nat_zero_code not_le)
  show ?case
    by (simp add: fragment_loop_step[OF off] fragment_loop_Nil_iff kMaxFuPayload_val off)
next
  case (Suc i)
  then have off: "offset < length p"
    by (metis fragment_loop_Nil_iff list.size(3) not_less_zero not_le)
  have "i < length (fragment_loop h p (offset + kMaxFuPayload) False)"
    using Suc.prems by (simp add: fragment_loop_step[OF off])
  from Suc.IH[OF this] show ?case by (simp add: fragment_loop_step[OF off])
qed

lemma fragment_loop_length:
  "length (fragment_loop h p offset first)
     = (length p - offset + (kMaxFuPayload - 1)) div kMaxFuPayload"
proof (induction h p offset first rule: fragment_loop.induct)
  case (1 h p offset first)
  show ?case
  proof (cases "offset < length p")
    case True
    let ?chunk = "min kMaxFuPayload (length p - offset)"
    have "length (fragment_loop h p (offset + ?chunk) False)
        = (length p - (offset + ?chunk) + (kMaxFuPayload - 1)) div kMaxFuPayload"
      using "1.IH" True by simp
    then show ?thesis
      using True by (subst fragment_loop.simps) (simp add: Let_def kMaxFuPayload_val min_def, arith)
  next
    case False
    then show ?thesis by (simp add: fragment_loop_stop kMaxFuPayload_val)
  qed
qed

lemma defragment_loop_Suc: "defragment_loop (Suc i) frags nal = nal @ concat (map (drop 2) frags)"
  by (induction frags arbitrary: i nal) (auto split: list.splits)

section \<open>Correctness\<close>

lemma Fragment_fragmented:
  assumes "mtu < length nal"
  shows "H264Fragmenter_Fragment nal mtu = Some (fragment_loop (hd nal) (tl nal) 0 True)"
  using assms by (cases nal) (auto simp: H264Fragmenter_Fragment_def mem_simps)

lemma Fragment_reassembles:
  assumes "mtu < length nal" and "2 \<le> length nal"
    and "H264Fragmenter_Fragment nal mtu = Some frags"
  shows "H264Fragmenter_Defragment frags = Some nal"
proof -
  obtain h p where nal: "nal = h # p" and p: "0 < length p" using assms(2) by (cases nal) (auto simp: Suc_le_eq)
  define rest where "rest = fragment_loop h p kMaxFuPayload False"
  have frags: "frags = ([fu_indicator h, fu_header h True (length p \<le> kMaxFuPayload)]
      @ take kMaxFuPayload p) # rest"
    using assms(1,3) p fragment_loop_step[of 0 p h True]
    by (simp add: Fragment_fragmented nal rest_def)
  have "concat (map (drop 2) rest) = drop kMaxFuPayload p"
    unfolding rest_def by (rule fragment_loop_payload)
  then show ?thesis
    by (simp add: H264Fragmenter_Defragment_def frags nal defragment_loop_Suc fu_headers_rebuild)
qed

lemma fragment_loop_sizes:
  "f \<in> set (fragment_loop h p 0 True) \<Longrightarrow> length f \<le> 2 + kMaxFuPayload"
  using fragment_loop_nth [of _ h p 0 True] by (metis in_set_conv_nth)

text \<open>With the MTU the session manager passes, there is a fragment, and each fits an RTP payload.\<close>

lemma Fragment_for_rtp:
  obtains fs where "H264Fragmenter_Fragment nal kRtpMaxPayloadSize = Some fs" "fs \<noteq> []"
    "list_all (\<lambda>f. length f \<le> kRtpMaxPayloadSize) fs"
proof (cases "kRtpMaxPayloadSize < length nal")
  case True
  then have "fragment_loop (hd nal) (tl nal) 0 True \<noteq> []"
    by (simp add: fragment_loop_Nil_iff kRtpMaxPayloadSize_def)
  moreover have "2 + kMaxFuPayload \<le> kRtpMaxPayloadSize"
    by (simp add: kMaxFuPayload_val kRtpMaxPayloadSize_def)
  then have "list_all (\<lambda>f. length f \<le> kRtpMaxPayloadSize) (fragment_loop (hd nal) (tl nal) 0 True)"
    using fragment_loop_sizes [of _ "hd nal" "tl nal"] by (force simp: list_all_iff)
  ultimately show thesis using that Fragment_fragmented [OF True] by blast
next
  case False
  with that [of "[nal]"] show thesis by (simp add: H264Fragmenter_Fragment_def)
qed

text \<open>
  Property C27. Fragmenting and reassembling a NAL unit is the identity: whenever the unit is longer
  than the MTU (and so is cut into FU-A fragments) and has a payload, the reassembled unit is the
  original, header byte included.
\<close>

theorem H264_fragment_roundtrip:
  assumes "mtu < length nal" and "2 \<le> length nal"
    and "H264Fragmenter_Fragment nal mtu = Some frags"
  shows "H264Fragmenter_Defragment frags = Some nal"
  using assms by (rule Fragment_reassembles)

lemma H264_fragment_roundtrip_witness:
  "H264Fragmenter_Defragment [[124, 0xC5, 1, 2, 3]] = Some [0x65, 1, 2, 3]"
proof (rule H264_fragment_roundtrip[of 3])
  show "H264Fragmenter_Fragment [0x65, 1, 2, 3] 3 = Some [[124, 0xC5, 1, 2, 3]]"
    by (simp add: Fragment_fragmented fragment_loop_step fragment_loop_stop kMaxFuPayload_val
        fu_indicator_def fu_header_def)
qed simp_all

text \<open>
  The fragments of a unit longer than the MTU are well-formed FU-A packets: there are
  exactly as many as the payload needs, each has type 28 and the unit's F and NRI bits in its first
  byte, the start bit is set on the first fragment only and the end bit on the last only, and the
  NAL type is in the low bits of every FU header.
\<close>

theorem H264_fragments_well_formed:
  assumes "mtu < length nal" and "H264Fragmenter_Fragment nal mtu = Some frags"
  shows "length frags = (length nal - 1 + (kMaxFuPayload - 1)) div kMaxFuPayload
    \<and> (\<forall>i < length frags.
         2 < length (frags ! i)
         \<and> frags ! i ! 0 AND 0x1F = 28 \<and> frags ! i ! 0 AND 0xE0 = hd nal AND 0xE0
         \<and> bit (frags ! i ! 1) 7 = (i = 0) \<and> bit (frags ! i ! 1) 6 = (Suc i = length frags)
         \<and> frags ! i ! 1 AND 0x1F = hd nal AND 0x1F)"
proof -
  have frags: "frags = fragment_loop (hd nal) (tl nal) 0 True"
    using assms by (simp add: Fragment_fragmented)
  have "2 < length (frags ! i)
      \<and> frags ! i ! 0 AND 0x1F = 28 \<and> frags ! i ! 0 AND 0xE0 = hd nal AND 0xE0
      \<and> bit (frags ! i ! 1) 7 = (i = 0) \<and> bit (frags ! i ! 1) 6 = (Suc i = length frags)
      \<and> frags ! i ! 1 AND 0x1F = hd nal AND 0x1F" if "i < length frags" for i
  proof -
    have "2 < length (frags ! i)"
      using fragment_loop_nth[of i "hd nal" "tl nal" 0 True] that unfolding frags by simp
    then obtain b0 b1 rest where f: "frags ! i = b0 # b1 # rest" and r: "rest \<noteq> []"
      by (cases "frags ! i"; cases "tl (frags ! i)") auto
    have "b0 = fu_indicator (hd nal)" "b1 = fu_header (hd nal) (i = 0) (Suc i = length frags)"
      using fragment_loop_nth[of i "hd nal" "tl nal" 0 True] that f unfolding frags by simp_all
    moreover have "fu_indicator (hd nal) AND 0xE0 = hd nal AND 0xE0"
      by (simp add: fu_indicator_def word_ao_dist and.assoc)
    moreover have "fu_header (hd nal) (i = 0) (Suc i = length frags) AND 0x1F = hd nal AND 0x1F"
      by (simp add: fu_header_def Let_def word_ao_dist and.assoc)
    ultimately show ?thesis
      using f r by (simp add: fu_indicator_type fu_header_bits)
  qed
  moreover have "length frags = (length nal - 1 + (kMaxFuPayload - 1)) div kMaxFuPayload"
    unfolding frags fragment_loop_length by simp
  ultimately show ?thesis by simp
qed

lemma H264_fragments_well_formed_witness:
  "length [[124, 0xC5, 1, 2, 3 :: u8]] = (length [0x65, 1, 2, 3 :: u8] - 1 + (kMaxFuPayload - 1)) div kMaxFuPayload"
proof -
  have "H264Fragmenter_Fragment [0x65, 1, 2, 3] 3 = Some [[124, 0xC5, 1, 2, 3]]"
    by (simp add: Fragment_fragmented fragment_loop_step fragment_loop_stop kMaxFuPayload_val
        fu_indicator_def fu_header_def)
  from H264_fragments_well_formed[OF _ this] show ?thesis by simp
qed

text \<open>
  No output of \<open>Fragment\<close> is longer than the MTU or 1448 bytes, whichever is larger;
  with the MTU the session manager passes, every fragment therefore fits an RTP payload. With a
  smaller MTU the bound is attained: a unit of at least 1447 bytes yields a first fragment of 1448
  bytes, so the MTU argument decides only whether to fragment, not the fragment size.
\<close>

theorem H264_fragment_sizes:
  assumes "H264Fragmenter_Fragment nal mtu = Some frags"
  shows "(\<forall>f \<in> set frags. length f \<le> max mtu (2 + kMaxFuPayload))
    \<and> (mtu < length nal \<and> kMaxFuPayload < length nal \<longrightarrow>
        frags \<noteq> [] \<and> length (hd frags) = 2 + kMaxFuPayload)"
proof (cases "mtu < length nal")
  case True
  then have frags: "frags = fragment_loop (hd nal) (tl nal) 0 True"
    using assms by (simp add: Fragment_fragmented)
  have "length f \<le> 2 + kMaxFuPayload" if "f \<in> set frags" for f
  proof -
    from that obtain i where "i < length frags" "f = frags ! i" by (metis in_set_conv_nth)
    then show ?thesis
      using fragment_loop_nth[of i "hd nal" "tl nal" 0 True] by (simp add: frags)
  qed
  moreover have "frags \<noteq> [] \<and> length (hd frags) = 2 + kMaxFuPayload"
    if "kMaxFuPayload < length nal"
    using that fragment_loop_step[of 0 "tl nal" "hd nal" True]
    by (auto simp: frags kMaxFuPayload_val)
  ultimately show ?thesis by (auto simp: le_max_iff_disj)
next
  case False
  then show ?thesis using assms by (auto simp: H264Fragmenter_Fragment_def)
qed

lemma H264_fragment_sizes_witness:
  "\<exists>frags. H264Fragmenter_Fragment (replicate 2000 0) 1200 = Some frags \<and> 1200 < length (hd frags)"
proof -
  have frag: "H264Fragmenter_Fragment (replicate 2000 0) 1200
      = Some (fragment_loop 0 (replicate 1999 0) 0 True)"
    by (simp add: Fragment_fragmented tl_replicate hd_replicate)
  from H264_fragment_sizes[OF this] have "length (hd (fragment_loop 0 (replicate 1999 0) 0 True)) = 1448"
    by (simp add: kMaxFuPayload_val)
  with frag show ?thesis by (intro exI[of _ "fragment_loop 0 (replicate 1999 0) 0 True"]) simp
qed

text \<open>
  A unit that fits the MTU is passed through whole, but \<open>Defragment\<close> reads every fragment as FU-A: it
  merges the first two bytes of such a unit into one, so what comes back is a byte shorter.
\<close>

lemma Defragment_single_nal:
  assumes "length nal \<le> mtu" and "nal = b0 # b1 # rest"
  shows "H264Fragmenter_Fragment nal mtu = Some [nal]"
    and "H264Fragmenter_Defragment [nal] = Some (((b0 AND 0xE0) OR (b1 AND 0x1F)) # rest)"
  using assms by (simp_all add: H264Fragmenter_Fragment_def H264Fragmenter_Defragment_def)

end
