(* ===== verification/Aac_Packetizer.thy ===== *)
theory Aac_Packetizer
  imports Rtcom_Types "HOL-Library.Sublist"
begin

text \<open>
  AAC payloads in RTP: \<open>class AacPacketizer\<close> of \<open>src/rtp/rtp_packet.h\<close> and
  \<open>src/rtp/rtp_packet.cpp\<close> (after RFC 3640: a two-byte AU-headers-length in bits, the AU headers, the
  access units).
\<close>

definition AacPacketizer_Pack :: "bytes \<Rightarrow> bytes" where
  "AacPacketizer_Pack aac_data =
     (let au_header_len = (0 :: u16);
          au_size = (of_nat (length aac_data) :: u16)
      in [ucast (drop_bit 8 au_header_len AND 0xFF), ucast (au_header_len AND 0xFF),
          ucast (drop_bit 5 au_size AND 0xFF), ucast (push_bit 3 (au_size AND 0x1F))]
         @ aac_data)"

text \<open>
  The size is read from bytes 2 and 3 as 13 bits, and the data is taken from behind the AU headers
  whose length in bits bytes 0 and 1 give. \<open>Inl ()\<close> is the C++ result \<open>false\<close>; \<open>None\<close> a read outside
  the payload.
\<close>

definition AacPacketizer_Unpack :: "bytes \<Rightarrow> (unit + bytes) option" where
  "AacPacketizer_Unpack rtp_payload =
     (if length rtp_payload < 4 then Some (Inl ())
      else do {
        p0 \<leftarrow> rd rtp_payload 0;
        p1 \<leftarrow> rd rtp_payload 1;
        p2 \<leftarrow> rd rtp_payload 2;
        p3 \<leftarrow> rd rtp_payload 3;
        let au_size = (push_bit 5 (ucast p2) OR drop_bit 3 (ucast p3)) AND (0x1FFF :: u16);
        let au_data_offset = 2 + unat (push_bit 8 (ucast p0) OR ucast p1 :: u16) div 8;
        if au_data_offset + unat au_size > length rtp_payload then Some (Inl ())
        else map_option Inr (rd_block rtp_payload au_data_offset (unat au_size))
      })"

section \<open>Field encodings\<close>

text \<open>The 13-bit size field as the two bytes \<open>Pack\<close> writes, and its decoding.\<close>

definition size_hi :: "nat \<Rightarrow> u8" where
  "size_hi n = ucast (drop_bit 5 (of_nat n :: u16) AND 0xFF)"

definition size_lo :: "nat \<Rightarrow> u8" where
  "size_lo n = ucast (push_bit 3 ((of_nat n :: u16) AND 0x1F))"

lemma Pack_eq: "AacPacketizer_Pack d = [0, 0, size_hi (length d), size_lo (length d)] @ d"
  by (simp add: AacPacketizer_Pack_def size_hi_def size_lo_def Let_def)

lemma size_field_decode:
  "(push_bit 5 (ucast (size_hi n)) OR drop_bit 3 (ucast (size_lo n))) AND (0x1FFF :: u16)
     = take_bit 13 (of_nat n :: u16)"
proof (rule bit_word_eqI)
  have m5: "(0x1F :: u16) = mask 5" and m8: "(0xFF :: u16) = mask 8"
    and m13: "(0x1FFF :: u16) = mask 13" by (simp_all add: mask_eq_exp_minus_1)
  fix i :: nat assume i: "i < LENGTH(16)"
  show "bit ((push_bit 5 (ucast (size_hi n)) OR drop_bit 3 (ucast (size_lo n))) AND (0x1FFF :: u16)) i
      = bit (take_bit 13 (of_nat n :: u16)) i"
    using i unfolding size_hi_def size_lo_def m5 m8 m13
    by (cases "i < 5")
      (auto simp: bit_and_iff bit_or_iff bit_push_bit_iff bit_drop_bit_eq bit_ucast_iff
        bit_mask_iff bit_take_bit_iff)
qed

lemma size_field_unat: "unat (take_bit 13 (of_nat n :: u16)) = n mod 8192"
  unfolding unsigned_take_bit_eq by (simp add: take_bit_eq_mod unat_of_nat mod_mod_cancel)

section \<open>Unpacking\<close>

text \<open>The size and the position of the data as the four length bytes give them.\<close>

definition au_size_field :: "u8 \<Rightarrow> u8 \<Rightarrow> nat" where
  "au_size_field p2 p3 = unat ((push_bit 5 (ucast p2) OR drop_bit 3 (ucast p3)) AND (0x1FFF :: u16))"

definition au_skip_field :: "u8 \<Rightarrow> u8 \<Rightarrow> nat" where
  "au_skip_field p0 p1 = unat (push_bit 8 (ucast p0) OR ucast p1 :: u16) div 8"

lemma Unpack_cases:
  "AacPacketizer_Unpack (p0 # p1 # p2 # p3 # rest) =
    Some (if au_skip_field p0 p1 + au_size_field p2 p3 \<le> 2 + length rest
      then Inr (take (au_size_field p2 p3) (drop (au_skip_field p0 p1) (p2 # p3 # rest)))
      else Inl ())"
  by (simp add: AacPacketizer_Unpack_def rd_def rd_block_def au_size_field_def au_skip_field_def)

lemma au_size_field_size [simp]: "au_size_field (size_hi n) (size_lo n) = n mod 8192"
  by (simp add: au_size_field_def size_field_decode size_field_unat)

text \<open>
  \<open>Unpack\<close> is memory safe on every RTP payload, and it rejects a payload or returns a
  segment of it that lies behind the two length bytes.
\<close>

theorem AacPacketizer_Unpack_safe:
  "\<exists>r. AacPacketizer_Unpack payload = Some r
     \<and> (case r of Inl _ \<Rightarrow> True | Inr aac \<Rightarrow> sublist aac (drop 2 payload))"
proof (cases "length payload < 4")
  case True
  then show ?thesis by (simp add: AacPacketizer_Unpack_def)
next
  case False
  then obtain p0 p1 p2 p3 rest where p: "payload = p0 # p1 # p2 # p3 # rest"
    by (auto elim: four_bytesE[of payload] simp: not_less)
  have "sublist (take n (drop k (p2 # p3 # rest))) (p2 # p3 # rest)" for n k
    by (metis sublist_drop sublist_order.order.trans sublist_take)
  then show ?thesis by (simp add: p Unpack_cases)
qed

text \<open>
  \<open>Unpack\<close> decodes the RFC 3640 form with one AU header: AU-headers-length 16, a 13-bit
  size and a 3-bit index of 0, then the access unit, are unpacked to that access unit, also when
  further bytes follow it.
\<close>

theorem AacPacketizer_Unpack_rfc3640:
  assumes "length au < 8192"
  shows "AacPacketizer_Unpack ([0, 16, size_hi (length au), size_lo (length au)] @ au @ rest)
     = Some (Inr au)"
proof -
  have "au_skip_field 0 16 = 2" by (simp add: au_skip_field_def)
  with assms show ?thesis by (simp add: Unpack_cases)
qed

lemma AacPacketizer_Unpack_rfc3640_witness:
  "AacPacketizer_Unpack [0, 16, size_hi 3, size_lo 3, 11, 22, 33, 44] = Some (Inr [11, 22, 33])"
  using AacPacketizer_Unpack_rfc3640[of "[11, 22, 33]" "[44]"] by (simp add: eval_nat_numeral)

text \<open>
  \<open>Pack\<close> announces AU-headers-length 0 although it writes a two-byte AU header, so
  \<open>Unpack\<close> takes the data to begin at that header: what comes back has the right length (below
  8192 bytes) but is the size field followed by all but the last two bytes of the data. The round
  trip loses data for every access unit of one byte or more.
\<close>

theorem AacPacketizer_Pack_Unpack:
  assumes "length d < 8192"
  shows "AacPacketizer_Unpack (AacPacketizer_Pack d)
     = Some (Inr (take (length d) ([size_hi (length d), size_lo (length d)] @ d)))"
proof -
  have "au_skip_field 0 0 = 0" by (simp add: au_skip_field_def)
  with assms show ?thesis by (simp add: Pack_eq Unpack_cases)
qed

lemma AacPacketizer_Pack_Unpack_witness:
  "AacPacketizer_Unpack (AacPacketizer_Pack [1, 2, 3, 4]) = Some (Inr [0, 32, 1, 2])"
  using AacPacketizer_Pack_Unpack[of "[1, 2, 3, 4]"] by (simp add: size_hi_def size_lo_def)

end
