(* ===== verification/Rtcp_Handler.thy ===== *)
theory Rtcp_Handler
  imports Rtcom_Types
begin

text \<open>
  RTCP: \<open>struct RtcpSRHeader\<close> and \<open>struct RtcpReportBlock\<close> of \<open>src/common/types.h\<close>, and
  \<open>class RtcpHandler\<close> of \<open>src/rtp/rtcp_handler.h\<close> and \<open>src/rtp/rtcp_handler.cpp\<close>.

  The builders allocate a vector and store into it, the parser reads a received buffer; both are
  modelled with the checked accesses of the prelude, so \<open>None\<close> is an access outside the vector or
  the buffer. The packed structs have the layout of GCC on a little-endian host.
\<close>

section \<open>Packed structs\<close>

record rtcp_sr_header =
  sr_report_count :: "5 word"
  sr_padding :: bool
  sr_version :: "2 word"
  sr_packet_type :: u8
  sr_length :: u16
  sr_ssrc :: u32
  sr_ntp_timestamp :: u64
  sr_rtp_timestamp :: u32
  sr_packet_count :: u32
  sr_octet_count :: u32

definition sr_header_bytes :: "rtcp_sr_header \<Rightarrow> bytes" where
  "sr_header_bytes h =
     [ucast (sr_report_count h) OR push_bit 5 (of_bool (sr_padding h))
        OR push_bit 6 (ucast (sr_version h)), sr_packet_type h]
     @ le_bytes 2 (sr_length h) @ le_bytes 4 (sr_ssrc h) @ le_bytes 8 (sr_ntp_timestamp h)
     @ le_bytes 4 (sr_rtp_timestamp h) @ le_bytes 4 (sr_packet_count h)
     @ le_bytes 4 (sr_octet_count h)"

record rtcp_report_block =
  rb_ssrc :: u32
  rb_fraction_lost :: u8
  rb_cumulative_lost :: "24 word"
  rb_highest_seqnum :: u32
  rb_interarrival_jitter :: u32
  rb_last_sr :: u32
  rb_delay_since_last_sr :: u32

definition report_block_bytes :: "rtcp_report_block \<Rightarrow> bytes" where
  "report_block_bytes b =
     le_bytes 4 (rb_ssrc b) @ [rb_fraction_lost b] @ le_bytes 3 (rb_cumulative_lost b)
     @ le_bytes 4 (rb_highest_seqnum b) @ le_bytes 4 (rb_interarrival_jitter b)
     @ le_bytes 4 (rb_last_sr b) @ le_bytes 4 (rb_delay_since_last_sr b)"

definition report_block_of :: "bytes \<Rightarrow> rtcp_report_block" where
  "report_block_of bs =
     \<lparr>rb_ssrc = from_le (take 4 bs), rb_fraction_lost = bs ! 4,
      rb_cumulative_lost = from_le (take 3 (drop 5 bs)),
      rb_highest_seqnum = from_le (take 4 (drop 8 bs)),
      rb_interarrival_jitter = from_le (take 4 (drop 12 bs)),
      rb_last_sr = from_le (take 4 (drop 16 bs)),
      rb_delay_since_last_sr = from_le (take 4 (drop 20 bs))\<rparr>"

lemma length_sr_header_bytes [simp]: "length (sr_header_bytes h) = 28"
  by (simp add: sr_header_bytes_def)

lemma length_report_block_bytes [simp]: "length (report_block_bytes b) = 24"
  by (simp add: report_block_bytes_def)

lemma report_block_of_bytes [simp]: "report_block_of (report_block_bytes b @ rest) = b"
proof -
  have "(report_block_bytes b @ rest) ! 4 = rb_fraction_lost b"
    by (simp add: report_block_bytes_def nth_append)
  then show ?thesis
    by (simp add: report_block_of_def) (simp add: report_block_bytes_def)
qed

section \<open>The handler\<close>

record rtcp_handler =
  rh_ssrc :: u32
  rh_fraction_lost :: u8
  rh_cumulative_lost :: u32
  rh_highest_seq :: u32
  rh_jitter :: u32
  rh_last_sr_ts :: u32
  rh_delay_since_last_sr :: u32
  rh_last_rtcp_send :: time_ns

definition RtcpHandler_new :: "u32 \<Rightarrow> time_ns \<Rightarrow> rtcp_handler" where
  "RtcpHandler_new s now =
     \<lparr>rh_ssrc = s, rh_fraction_lost = 0, rh_cumulative_lost = 0, rh_highest_seq = 0,
      rh_jitter = 0, rh_last_sr_ts = 0, rh_delay_since_last_sr = 0, rh_last_rtcp_send = now\<rparr>"

definition UpdateFromReport :: "rtcp_report_block \<Rightarrow> rtcp_handler \<Rightarrow> rtcp_handler" where
  "UpdateFromReport b h =
     h\<lparr>rh_fraction_lost := rb_fraction_lost b,
       rh_cumulative_lost := ucast (rb_cumulative_lost b),
       rh_highest_seq := rb_highest_seqnum b,
       rh_jitter := rb_interarrival_jitter b,
       rh_last_sr_ts := rb_last_sr b,
       rh_delay_since_last_sr := rb_delay_since_last_sr b\<rparr>"

subsection \<open>Builders\<close>

definition sr_ntp_field :: "u64 \<Rightarrow> u64" where
  "sr_ntp_field ntp_ts =
     push_bit 32 (ucast (htonl (ucast (drop_bit 32 ntp_ts))))
     OR ucast (htonl (ucast (ntp_ts AND 0xFFFFFFFF)))"

definition BuildSenderReport :: "rtcp_handler \<Rightarrow> u64 \<Rightarrow> u32 \<Rightarrow> u32 \<Rightarrow> u32 \<Rightarrow> bytes" where
  "BuildSenderReport h ntp_ts rtp_ts packet_count octet_count =
     sr_header_bytes
       \<lparr>sr_report_count = 0, sr_padding = False, sr_version = ucast kRtpVersion,
        sr_packet_type = 200, sr_length = htons 6, sr_ssrc = htonl (rh_ssrc h),
        sr_ntp_timestamp = sr_ntp_field ntp_ts, sr_rtp_timestamp = htonl rtp_ts,
        sr_packet_count = htonl packet_count, sr_octet_count = htonl octet_count\<rparr>"

text \<open>The report block as stored in the packet: each member converted as the code does.\<close>

definition block_to_net :: "rtcp_report_block \<Rightarrow> rtcp_report_block" where
  "block_to_net b =
     \<lparr>rb_ssrc = htonl (rb_ssrc b), rb_fraction_lost = rb_fraction_lost b,
      rb_cumulative_lost = ucast (drop_bit 8 (htonl (ucast (rb_cumulative_lost b)))),
      rb_highest_seqnum = htonl (rb_highest_seqnum b),
      rb_interarrival_jitter = htonl (rb_interarrival_jitter b),
      rb_last_sr = htonl (rb_last_sr b),
      rb_delay_since_last_sr = htonl (rb_delay_since_last_sr b)\<rparr>"

fun receiver_report_loop :: "nat \<Rightarrow> rtcp_report_block list \<Rightarrow> bytes \<Rightarrow> bytes option" where
  "receiver_report_loop i [] packet = Some packet"
| "receiver_report_loop i (b # bs) packet =
     do {
       packet \<leftarrow> wr_block packet (8 + i * 24) (report_block_bytes (block_to_net b));
       receiver_report_loop (i + 1) bs packet
     }"

text \<open>The four bytes every RTCP packet of the builders starts with, and the SSRC.\<close>

definition write_rtcp_header :: "u8 \<Rightarrow> u8 \<Rightarrow> nat \<Rightarrow> u32 \<Rightarrow> bytes \<Rightarrow> bytes option" where
  "write_rtcp_header first pt nbytes s packet =
     do {
       packet \<leftarrow> wr_block packet 0 [first];
       packet \<leftarrow> wr_block packet 1 [pt];
       let len = (of_nat (nbytes div 4 - 1) :: u16);
       packet \<leftarrow> wr_block packet 2 [ucast (drop_bit 8 len AND 0xFF)];
       packet \<leftarrow> wr_block packet 3 [ucast (len AND 0xFF)];
       wr_block packet 4 (le_bytes 4 (htonl s))
     }"

definition BuildReceiverReport :: "rtcp_handler \<Rightarrow> rtcp_report_block list \<Rightarrow> bytes option" where
  "BuildReceiverReport h blocks =
     (let total = 8 + length blocks * 24
      in do {
        packet \<leftarrow> write_rtcp_header (push_bit 6 kRtpVersion OR (of_nat (length blocks) AND 0x1F))
                     201 total (rh_ssrc h) (replicate total 0);
        receiver_report_loop 0 blocks packet
      })"

definition cname_bytes :: "string \<Rightarrow> bytes" where
  "cname_bytes cname = map of_char cname"

text \<open>The size \<open>BuildSdes\<close> allocates: header and item, rounded up to a multiple of four.\<close>

definition sdes_padded :: "nat \<Rightarrow> nat" where
  "sdes_padded cname_len =
     (let item_len = 1 + 1 + 1 + cname_len;
          total = 4 + item_len
      in (total + 3) div 4 * 4)"

definition BuildSdes :: "rtcp_handler \<Rightarrow> string \<Rightarrow> bytes option" where
  "BuildSdes h cname =
     (let cname_len = length cname;
          padded = sdes_padded cname_len
      in do {
        packet \<leftarrow> write_rtcp_header (push_bit 6 kRtpVersion OR 1) 202 padded (rh_ssrc h)
                     (replicate padded 0);
        packet \<leftarrow> wr_block packet 8 [1];
        packet \<leftarrow> wr_block packet 9 [of_nat cname_len];
        wr_block packet 10 (cname_bytes cname)
      })"

definition BuildCompound :: "rtcp_handler \<Rightarrow> string \<Rightarrow> u64 \<Rightarrow> u32 \<Rightarrow> u32 \<Rightarrow> u32 \<Rightarrow> bytes option" where
  "BuildCompound h cname ntp_ts rtp_ts packet_count octet_count =
     do {
       let sr = BuildSenderReport h ntp_ts rtp_ts packet_count octet_count;
       sdes \<leftarrow> BuildSdes h cname;
       Some (sr @ sdes)
     }"

subsection \<open>The parser\<close>

definition block_from_net :: "rtcp_report_block \<Rightarrow> rtcp_report_block" where
  "block_from_net b =
     b\<lparr>rb_ssrc := ntohl (rb_ssrc b), rb_highest_seqnum := ntohl (rb_highest_seqnum b),
       rb_interarrival_jitter := ntohl (rb_interarrival_jitter b),
       rb_last_sr := ntohl (rb_last_sr b),
       rb_delay_since_last_sr := ntohl (rb_delay_since_last_sr b)\<rparr>"

text \<open>The inner loop; its first argument counts the iterations \<open>rc - i\<close> that are left.\<close>

fun parse_report_blocks :: "nat \<Rightarrow> bytes \<Rightarrow> nat \<Rightarrow> nat \<Rightarrow> rtcp_report_block list option" where
  "parse_report_blocks 0 data rb_offset limit = Some []"
| "parse_report_blocks (Suc n) data rb_offset limit =
     (if rb_offset + 24 \<le> limit
      then do {
        bs \<leftarrow> rd_block data rb_offset 24;
        blocks \<leftarrow> parse_report_blocks n data (rb_offset + 24) limit;
        Some (block_from_net (report_block_of bs) # blocks)
      }
      else Some [])"

text \<open>
  One iteration of the outer loop at \<open>offset\<close>: \<open>Some None\<close> is its \<open>break\<close>, otherwise the packet's
  size and, for a sender or receiver report, the reporter and its blocks.
\<close>

definition parse_rtcp_at ::
  "bytes \<Rightarrow> nat \<Rightarrow> (nat \<times> (u32 \<times> rtcp_report_block list) option) option option" where
  "parse_rtcp_at data offset =
     do {
       pt \<leftarrow> rd data (offset + 1);
       hi \<leftarrow> rd data (offset + 2);
       lo \<leftarrow> rd data (offset + 3);
       let pkt_len = (push_bit 8 (ucast hi) OR ucast lo :: u16);
       let pkt_bytes = (unat pkt_len + 1) * 4;
       if offset + pkt_bytes > length data then Some None
       else if pt = 200 \<or> pt = 201
       then do {
         s \<leftarrow> rd_block data (offset + 4) 4;
         first \<leftarrow> rd data offset;
         blocks \<leftarrow> parse_report_blocks (unat (first AND 0x1F)) data (offset + 8) (offset + pkt_bytes);
         Some (Some (pkt_bytes, Some (ntohl (from_le s), blocks)))
       }
       else Some (Some (pkt_bytes, None))
     }"

lemma parse_rtcp_at_size:
  "parse_rtcp_at data offset = Some (Some (n, r)) \<Longrightarrow> 4 \<le> n \<and> offset + n \<le> length data"
  by (auto simp: parse_rtcp_at_def Let_def bind_eq_Some_conv split: if_splits)

type_synonym rtcp_parse_acc = "nat \<times> rtcp_report_block list \<times> u32"

function parse_rtcp_loop :: "bytes \<Rightarrow> nat \<Rightarrow> rtcp_parse_acc \<Rightarrow> rtcp_parse_acc option" where
  "parse_rtcp_loop data offset acc =
     (if offset + 4 \<le> length data
      then (case parse_rtcp_at data offset of
              None \<Rightarrow> None
            | Some None \<Rightarrow> Some acc
            | Some (Some (n, None)) \<Rightarrow> parse_rtcp_loop data (offset + n) acc
            | Some (Some (n, Some (s, bs))) \<Rightarrow>
                (case acc of (count, blocks, _) \<Rightarrow>
                   parse_rtcp_loop data (offset + n) (count + length bs, blocks @ bs, s)))
      else Some acc)"
  by pat_completeness auto
termination
  by (relation "measure (\<lambda>(data, offset, acc). length data - offset)")
    (auto dest: parse_rtcp_at_size)

declare parse_rtcp_loop.simps [simp del]

text \<open>
  \<open>RtcpHandler::Parse\<close>: the count it returns, then its two output arguments \<open>blocks\<close> and
  \<open>reporter_ssrc\<close> with their values before the call given.
\<close>

definition RtcpHandler_Parse ::
  "bytes \<Rightarrow> rtcp_report_block list \<Rightarrow> u32 \<Rightarrow> rtcp_parse_acc option" where
  "RtcpHandler_Parse data blocks reporter_ssrc =
     (if length data < 8 then Some (0, blocks, reporter_ssrc)
      else parse_rtcp_loop data 0 (0, blocks, reporter_ssrc))"

subsection \<open>NTP time\<close>

text \<open>
  \<open>NowNtp\<close> at a system clock reading in nanoseconds since the Unix epoch. The fraction is computed
  in double precision in the code; for \<open>frac < 10^9\<close> the rounding error of \<open>frac / 1e9\<close>, scaled by
  \<open>2^32\<close>, is below \<open>2^-22\<close>, and a non-integral value of \<open>frac * 2^32 / 10^9\<close> is at least
  \<open>512 / 10^9\<close> away from the next integer, so truncation gives the integer quotient below.
\<close>

definition kNtpEpochOffset :: nat where "kNtpEpochOffset = 2208988800"

definition NowNtp :: "nat \<Rightarrow> u64" where
  "NowNtp since_epoch_ns =
     (let secs = since_epoch_ns div 1000000000;
          frac = since_epoch_ns - secs * 1000000000;
          ntp_sec = (of_nat (secs + kNtpEpochOffset) :: u64);
          ntp_frac = (of_nat (frac * 2 ^ 32 div 1000000000) :: u64)
      in push_bit 32 ntp_sec OR ntp_frac)"

section \<open>Sender reports\<close>

lemma sr_ntp_field_bytes:
  "le_bytes 8 (sr_ntp_field t) =
     be_bytes 4 (ucast t :: u32) @ be_bytes 4 (ucast (drop_bit 32 t) :: u32)"
proof -
  have m: "(0xFFFFFFFF :: u64) = mask 32" by (simp add: mask_eq_exp_minus_1)
  have lo: "(ucast (t AND 0xFFFFFFFF) :: u32) = ucast t"
    unfolding m by (rule bit_word_eqI) (simp add: bit_ucast_iff bit_and_iff bit_mask_iff)
  define a b where "a = htonl (ucast t)" and "b = htonl (ucast (drop_bit 32 t))"
  have f: "sr_ntp_field t = push_bit 32 (ucast b) OR ucast a"
    by (simp add: sr_ntp_field_def lo a_def b_def)
  have "le_bytes 4 (sr_ntp_field t) = le_bytes 4 a"
    by (rule le_bytes_cong) (auto simp: f bit_or_iff bit_push_bit_iff bit_ucast_iff)
  moreover have "le_bytes 4 (drop_bit 32 (sr_ntp_field t)) = le_bytes 4 b"
    by (rule le_bytes_cong)
      (auto simp: f bit_or_iff bit_push_bit_iff bit_ucast_iff bit_drop_bit_eq dest: bit_imp_le_length)
  ultimately have "le_bytes 8 (sr_ntp_field t) = le_bytes 4 a @ le_bytes 4 b"
    using le_bytes_add[of 4 4 "sr_ntp_field t"] by simp
  then show ?thesis by (simp add: f a_def b_def wire_simps)
qed

lemma sender_report_bytes:
  "BuildSenderReport h ntp_ts rtp_ts packet_count octet_count =
     [0x80, 200, 0, 6] @ be_bytes 4 (rh_ssrc h)
     @ be_bytes 4 (ucast ntp_ts :: u32) @ be_bytes 4 (ucast (drop_bit 32 ntp_ts) :: u32)
     @ be_bytes 4 rtp_ts @ be_bytes 4 packet_count @ be_bytes 4 octet_count"
proof -
  have "be_bytes 2 (6 :: u16) = [0, 6]" by (simp add: be_bytes_def le_bytes_numeral)
  then show ?thesis
    by (simp add: BuildSenderReport_def sr_header_bytes_def sr_ntp_field_bytes wire_simps
        kRtpVersion_def)
qed

text \<open>
  The 28 bytes of a sender report: version 2, no report blocks, type 200, length 6,
  then the SSRC, the NTP timestamp, the RTP timestamp and the two counts, each 32-bit word most
  significant byte first. The two words of the NTP timestamp are in the order low, high, while
  RFC 3550, section 6.4.1 puts the most significant word first.
\<close>

theorem BuildSenderReport_wire:
  "BuildSenderReport h ntp_ts rtp_ts packet_count octet_count =
     [0x80, 200, 0, 6] @ be_bytes 4 (rh_ssrc h)
     @ be_bytes 4 (ucast ntp_ts :: u32) @ be_bytes 4 (ucast (drop_bit 32 ntp_ts) :: u32)
     @ be_bytes 4 rtp_ts @ be_bytes 4 packet_count @ be_bytes 4 octet_count"
  by (rule sender_report_bytes)
section \<open>Receiver reports\<close>

text \<open>The bytes of one report block on the wire, all fields most significant byte first.\<close>

definition net_block_bytes :: "rtcp_report_block \<Rightarrow> bytes" where
  "net_block_bytes b =
     be_bytes 4 (rb_ssrc b) @ [rb_fraction_lost b] @ be_bytes 3 (rb_cumulative_lost b)
     @ be_bytes 4 (rb_highest_seqnum b) @ be_bytes 4 (rb_interarrival_jitter b)
     @ be_bytes 4 (rb_last_sr b) @ be_bytes 4 (rb_delay_since_last_sr b)"

lemma length_net_block_bytes [simp]: "length (net_block_bytes b) = 24"
  by (simp add: net_block_bytes_def)

lemma cumulative_lost_to_net:
  "ucast (drop_bit 8 (htonl (ucast (c :: 24 word)))) = bswap 3 c"
proof -
  have "le_bytes 3 (ucast (drop_bit 8 (htonl (ucast c))) :: 24 word)
      = le_bytes 3 (drop_bit 8 (htonl (ucast c)))"
    by (rule le_bytes_cong) (simp add: bit_ucast_iff)
  also have "\<dots> = tl (le_bytes 4 (htonl (ucast c)))"
    by (simp add: le_bytes_numeral)
  also have "\<dots> = tl (rev (le_bytes (3 + 1) (ucast c :: u32)))"
    by (simp add: wire_simps be_bytes_def)
  also have "\<dots> = rev (le_bytes 3 (ucast c :: u32))"
    unfolding le_bytes_add by simp
  also have "le_bytes 3 (ucast c :: u32) = le_bytes 3 c"
    by (rule le_bytes_cong) (simp add: bit_ucast_iff)
  finally have "from_le (le_bytes 3 (ucast (drop_bit 8 (htonl (ucast c))) :: 24 word)) = bswap 3 c"
    by (simp add: bswap_def be_bytes_def)
  then show ?thesis by simp
qed

lemma report_block_bytes_to_net: "report_block_bytes (block_to_net b) = net_block_bytes b"
  by (simp add: report_block_bytes_def block_to_net_def net_block_bytes_def wire_simps
      cumulative_lost_to_net le_bytes_bswap)

lemma block_from_net_to_net:
  "block_from_net (block_to_net b) = b\<lparr>rb_cumulative_lost := bswap 3 (rb_cumulative_lost b)\<rparr>"
  by (simp add: block_from_net_def block_to_net_def cumulative_lost_to_net)

text \<open>The header writes: in bounds from eight bytes on, and out of bounds below.\<close>

lemma low_bytes_be: "[ucast (drop_bit 8 len AND 0xFF), ucast (len AND 0xFF)] = be_bytes 2 (len :: u16)"
proof -
  have m: "(0xFF :: u16) = mask 8" by (simp add: mask_eq_exp_minus_1)
  have "(ucast (drop_bit 8 len AND 0xFF) :: u8) = ucast (drop_bit 8 len)"
    "(ucast (len AND 0xFF) :: u8) = ucast len"
    unfolding m by (rule bit_word_eqI, simp add: bit_ucast_iff bit_and_iff bit_mask_iff)+
  then show ?thesis by (simp only: be_bytes_def le_bytes_numeral) (simp add: numeral_eq_Suc)
qed

lemma write_rtcp_header_Some:
  assumes "8 \<le> length packet"
  shows "write_rtcp_header first pt n s packet =
     Some ([first, pt] @ be_bytes 2 (of_nat (n div 4 - 1) :: u16) @ be_bytes 4 s @ drop 8 packet)"
proof -
  obtain a b c d e f g h rest where p: "packet = [a, b, c, d, e, f, g, h] @ rest"
    using assms by (auto simp: numeral_eq_Suc Suc_le_length_iff)
  let ?len = "of_nat (n div 4 - 1) :: u16"
  have "write_rtcp_header first pt n s packet =
     Some ([first, pt, ucast (drop_bit 8 ?len AND 0xFF), ucast (?len AND 0xFF)]
           @ be_bytes 4 s @ rest)"
    by (simp add: write_rtcp_header_def p wr_block_def wire_simps Let_def)
  then show ?thesis
    unfolding low_bytes_be[symmetric] by (simp add: p)
qed

lemma receiver_report_loop_Some:
  "length pre = 8 + i * 24 \<Longrightarrow> length suf = length bs * 24
   \<Longrightarrow> receiver_report_loop i bs (pre @ suf) = Some (pre @ concat (map net_block_bytes bs))"
proof (induction bs arbitrary: i pre suf)
  case Nil
  then show ?case by simp
next
  case (Cons b bs)
  have suf: "suf = take 24 suf @ drop 24 suf" by simp
  have "wr_block (pre @ take 24 suf @ drop 24 suf) (8 + i * 24) (net_block_bytes b)
      = Some (pre @ net_block_bytes b @ drop 24 suf)"
    using Cons.prems by (intro wr_block_append) simp_all
  moreover have "receiver_report_loop (i + 1) bs ((pre @ net_block_bytes b) @ drop 24 suf)
      = Some ((pre @ net_block_bytes b) @ concat (map net_block_bytes bs))"
    using Cons.prems by (intro Cons.IH) simp_all
  ultimately show ?case
    using suf by (simp add: report_block_bytes_to_net)
qed

lemma receiver_report_bytes:
  "BuildReceiverReport h blocks =
     Some ([0x80 OR (of_nat (length blocks) AND 0x1F), 201]
       @ be_bytes 2 (of_nat (6 * length blocks + 1) :: u16) @ be_bytes 4 (rh_ssrc h)
       @ concat (map net_block_bytes blocks))"
proof -
  let ?total = "8 + length blocks * 24"
  let ?pre = "[0x80 OR (of_nat (length blocks) AND 0x1F), 201]
      @ be_bytes 2 (of_nat (6 * length blocks + 1) :: u16) @ be_bytes 4 (rh_ssrc h)"
  have len: "?total div 4 - 1 = 6 * length blocks + 1" by simp
  have "write_rtcp_header (push_bit 6 kRtpVersion OR (of_nat (length blocks) AND 0x1F)) 201 ?total
      (rh_ssrc h) (replicate ?total 0) = Some (?pre @ drop 8 (replicate ?total 0))"
    by (subst write_rtcp_header_Some) (simp_all only: len, simp_all add: kRtpVersion_def)
  moreover have "receiver_report_loop 0 blocks (?pre @ drop 8 (replicate ?total 0))
      = Some (?pre @ concat (map net_block_bytes blocks))"
    by (rule receiver_report_loop_Some) simp_all
  ultimately show ?thesis by (simp add: BuildReceiverReport_def)
qed

text \<open>
  Building a receiver report is memory safe for every number of blocks, and gives the
  wire form of RFC 3550, section 6.4.2: version 2 with the low five bits of the block count, type
  201, the length in words minus one, the SSRC, and the blocks with every field most significant
  byte first.
\<close>

theorem BuildReceiverReport_wire:
  "BuildReceiverReport h blocks =
     Some ([0x80 OR (of_nat (length blocks) AND 0x1F), 201]
       @ be_bytes 2 (of_nat (6 * length blocks + 1) :: u16) @ be_bytes 4 (rh_ssrc h)
       @ concat (map net_block_bytes blocks))"
  by (rule receiver_report_bytes)
section \<open>Parsing what the builders produce\<close>

lemma report_block_of_net_block_bytes: "report_block_of (net_block_bytes b) = block_to_net b"
  using report_block_of_bytes[of "block_to_net b" "[]"] by (simp add: report_block_bytes_to_net)

text \<open>A parsed block: everything as sent, except that the 24-bit loss count is not swapped back.\<close>

definition received_block :: "rtcp_report_block \<Rightarrow> rtcp_report_block" where
  "received_block b = b\<lparr>rb_cumulative_lost := bswap 3 (rb_cumulative_lost b)\<rparr>"

lemma parse_report_blocks_built:
  "length pre = off
   \<Longrightarrow> parse_report_blocks n (pre @ concat (map net_block_bytes bs) @ post) off
         (off + length bs * 24) = Some (map received_block (take n bs))"
proof (induction bs arbitrary: n pre off)
  case Nil
  then show ?case by (cases n) simp_all
next
  case (Cons b bs)
  show ?case
  proof (cases n)
    case 0
    then show ?thesis by simp
  next
    case (Suc m)
    let ?rest = "concat (map net_block_bytes bs) @ post"
    have "rd_block (pre @ net_block_bytes b @ ?rest) off 24 = Some (net_block_bytes b)"
      using Cons.prems by (intro rd_block_append) simp_all
    moreover have "parse_report_blocks m ((pre @ net_block_bytes b) @ ?rest) (off + 24)
        (off + 24 + length bs * 24) = Some (map received_block (take m bs))"
      by (rule Cons.IH) (simp add: Cons.prems)
    ultimately show ?thesis
      by (simp add: Suc report_block_of_net_block_bytes block_from_net_to_net received_block_def
          algebra_simps)
  qed
qed

text \<open>One packet of a known type and size at the front of the remaining buffer.\<close>

lemma be_bytes_2: "be_bytes 2 (w :: u16) = [ucast (drop_bit 8 w), ucast w]"
  by (simp add: be_bytes_def le_bytes_numeral)

lemma be_word_16: "push_bit 8 (ucast (ucast (drop_bit 8 w) :: u8)) OR ucast (ucast w :: u8) = (w :: u16)"
proof (rule bit_word_eqI)
  fix i :: nat assume "i < LENGTH(16)"
  then show "bit (push_bit 8 (ucast (ucast (drop_bit 8 w) :: u8)) OR ucast (ucast w :: u8) :: u16) i = bit w i"
    by (cases "i < 8") (auto simp: bit_or_iff bit_push_bit_iff bit_ucast_iff bit_drop_bit_eq)
qed

lemma parse_rtcp_at_report:
  assumes "data = pre @ [first, pt] @ be_bytes 2 (of_nat words :: u16) @ be_bytes 4 s @ body @ post"
    and "length pre = off" and "pt = 200 \<or> pt = 201" and "words < 65536"
    and "8 + length body = (words + 1) * 4"
    and "parse_report_blocks (unat (first AND 0x1F)) data (off + 8) (off + (words + 1) * 4) = Some bs"
  shows "parse_rtcp_at data off = Some (Some ((words + 1) * 4, Some (s, bs)))"
proof -
  have n: "unat (of_nat words :: u16) = words" using assms(4) by (simp add: unat_of_nat)
  have b: "rd data off = Some first" "rd data (off + 1) = Some pt"
    "rd data (off + 2) = Some (ucast (drop_bit 8 (of_nat words :: u16)))"
    "rd data (off + 3) = Some (ucast (of_nat words :: u16))"
    using assms(2) by (simp_all add: assms(1) rd_def be_bytes_2 nth_append del: of_nat_Suc)
  have s: "rd_block data (off + 4) 4 = Some (be_bytes 4 s)"
  proof -
    have "data = (pre @ [first, pt] @ be_bytes 2 (of_nat words :: u16)) @ be_bytes 4 s @ (body @ post)"
      using assms(1) by simp
    moreover have "length (pre @ [first, pt] @ be_bytes 2 (of_nat words :: u16)) = off + 4"
      using assms(2) by simp
    ultimately show ?thesis by (metis rd_block_append length_be_bytes)
  qed
  have len: "\<not> length data < off + (words + 1) * 4"
    using assms(1,2,5) by simp
  show ?thesis
    using len assms(3,6) b s by (simp add: parse_rtcp_at_def be_word_16 n)
qed

lemma parse_rtcp_at_other:
  assumes "data = pre @ [first, pt] @ be_bytes 2 (of_nat words :: u16) @ body @ post"
    and "length pre = off" and "pt \<noteq> 200" and "pt \<noteq> 201" and "words < 65536"
    and "4 + length body = (words + 1) * 4"
  shows "parse_rtcp_at data off = Some (Some ((words + 1) * 4, None))"
proof -
  have n: "unat (of_nat words :: u16) = words" using assms(5) by (simp add: unat_of_nat)
  have b: "rd data (off + 1) = Some pt"
    "rd data (off + 2) = Some (ucast (drop_bit 8 (of_nat words :: u16)))"
    "rd data (off + 3) = Some (ucast (of_nat words :: u16))"
    using assms(2) by (simp_all add: assms(1) rd_def be_bytes_2 nth_append del: of_nat_Suc)
  have len: "\<not> length data < off + (words + 1) * 4"
    using assms(1,2,6) by simp
  show ?thesis
    using len assms(3,4) b by (simp add: parse_rtcp_at_def be_word_16 n)
qed

lemma parse_rtcp_loop_end: "length data < offset + 4 \<Longrightarrow> parse_rtcp_loop data offset acc = Some acc"
  by (subst parse_rtcp_loop.simps) simp

lemma parse_rtcp_loop_report:
  "parse_rtcp_at data offset = Some (Some (n, Some (s, bs)))
   \<Longrightarrow> parse_rtcp_loop data offset (count, blocks, s0) =
       parse_rtcp_loop data (offset + n) (count + length bs, blocks @ bs, s)"
  using parse_rtcp_at_size[of data offset n "Some (s, bs)"]
  by (subst parse_rtcp_loop.simps) simp

lemma parse_rtcp_loop_other:
  "parse_rtcp_at data offset = Some (Some (n, None))
   \<Longrightarrow> parse_rtcp_loop data offset acc = parse_rtcp_loop data (offset + n) acc"
  using parse_rtcp_at_size[of data offset n None]
  by (subst parse_rtcp_loop.simps) simp

lemma report_count_field:
  "unat ((0x80 OR (of_nat n AND 0x1F)) AND (0x1F :: u8)) = n mod 32"
proof -
  have "(0x80 OR (of_nat n AND 0x1F)) AND (0x1F :: u8) = take_bit 5 (of_nat n)"
    by (simp add: word_ao_dist and.assoc take_bit_eq_mask mask_eq_exp_minus_1)
  also have "unat \<dots> = n mod 32"
    unfolding unsigned_take_bit_eq by (simp add: take_bit_eq_mod unat_of_nat mod_mod_cancel)
  finally show ?thesis .
qed

text \<open>
  Property C35. A built receiver report is parsed back: the parser returns the reporter's SSRC and
  appends the blocks in order, as many as the five-bit count can say (all of them up to 31), each
  with every field as it was sent except the cumulative loss, whose three bytes come back reversed
  because the parser does not convert that field.
\<close>

theorem ReceiverReport_roundtrip:
  assumes "BuildReceiverReport h blocks = Some data" and "length blocks \<le> 10922"
  shows "RtcpHandler_Parse data old s0 =
     (let got = map received_block (take (length blocks mod 32) blocks)
      in Some (length got, old @ got, rh_ssrc h))"
proof -
  let ?n = "length blocks"
  let ?pre = "[0x80 OR (of_nat ?n AND 0x1F), 201]
      @ be_bytes 2 (of_nat (6 * ?n + 1) :: u16) @ be_bytes 4 (rh_ssrc h)"
  let ?got = "map received_block (take (?n mod 32) blocks)"
  have data: "data = ?pre @ concat (map net_block_bytes blocks) @ []"
    using assms(1) by (simp add: receiver_report_bytes)
  have body: "length (concat (map net_block_bytes blocks)) = ?n * 24"
    by (simp add: length_concat sum_list_triv comp_def)
  have blocks: "parse_report_blocks (?n mod 32) data 8 (8 + ?n * 24) = Some ?got"
    unfolding data by (rule parse_report_blocks_built) simp
  have "parse_rtcp_at data 0 = Some (Some ((6 * ?n + 1 + 1) * 4, Some (rh_ssrc h, ?got)))"
  proof (rule parse_rtcp_at_report)
    show "data = [] @ [0x80 OR (of_nat ?n AND 0x1F), 201] @ be_bytes 2 (of_nat (6 * ?n + 1) :: u16)
        @ be_bytes 4 (rh_ssrc h) @ concat (map net_block_bytes blocks) @ []"
      using data by simp
    show "parse_report_blocks (unat ((0x80 OR (of_nat ?n AND 0x1F)) AND (0x1F :: u8))) data (0 + 8)
        (0 + (6 * ?n + 1 + 1) * 4) = Some ?got"
      using blocks by (simp only: report_count_field) (simp add: algebra_simps)
  qed (use assms(2) body in simp_all)
  then have "parse_rtcp_loop data 0 (0, old, s0) = Some (length ?got, old @ ?got, rh_ssrc h)"
    by (simp add: parse_rtcp_loop_report parse_rtcp_loop_end data body)
  moreover have "\<not> length data < 8" by (simp add: data)
  ultimately show ?thesis by (simp add: RtcpHandler_Parse_def)
qed

definition example_block :: rtcp_report_block where
  "example_block = \<lparr>rb_ssrc = 5, rb_fraction_lost = 1, rb_cumulative_lost = 2,
     rb_highest_seqnum = 3, rb_interarrival_jitter = 4, rb_last_sr = 6, rb_delay_since_last_sr = 7\<rparr>"

lemma ReceiverReport_roundtrip_witness:
  "\<exists>data. BuildReceiverReport (RtcpHandler_new 9 0) [example_block] = Some data
     \<and> RtcpHandler_Parse data [] 0 = Some (1, [received_block example_block], 9)"
proof -
  obtain data where d: "BuildReceiverReport (RtcpHandler_new 9 0) [example_block] = Some data"
    by (simp add: receiver_report_bytes)
  from ReceiverReport_roundtrip[OF d] d show ?thesis
    by (simp add: RtcpHandler_new_def)
qed

section \<open>Source descriptions and compound packets\<close>

lemma length_cname_bytes [simp]: "length (cname_bytes c) = length c"
  by (simp add: cname_bytes_def)

lemma sdes_bytes:
  "BuildSdes h cname =
     (if length cname mod 4 = 2
      then Some ([0x81, 202] @ be_bytes 2 (of_nat ((length cname + 10) div 4 - 1) :: u16)
        @ be_bytes 4 (rh_ssrc h) @ [1, of_nat (length cname)] @ cname_bytes cname)
      else None)"
proof -
  let ?n = "length cname"
  define padded where "padded = sdes_padded ?n"
  have size: "padded = (?n + 10) div 4 * 4"
    by (simp add: padded_def sdes_padded_def)
  let ?pre = "[0x81, 202] @ be_bytes 2 (of_nat ((?n + 10) div 4 - 1) :: u16) @ be_bytes 4 (rh_ssrc h)"
  have ge: "8 \<le> padded" using size by presburger
  have hdr: "write_rtcp_header (push_bit 6 kRtpVersion OR 1) 202 padded (rh_ssrc h) (replicate padded 0)
      = Some (?pre @ replicate (padded - 8) 0)"
    using ge by (subst write_rtcp_header_Some) (simp_all add: kRtpVersion_def size)
  have pre: "length ?pre = 8" by simp
  show ?thesis
  proof (cases "?n mod 4 = 2")
    case True
    then have padded: "padded = ?n + 10" using size by presburger
    have rep: "replicate (padded - 8) (0 :: u8) = [0] @ [0] @ replicate ?n 0"
      by (simp add: padded)
    have w8: "wr_block (?pre @ [0] @ ([0] @ replicate ?n 0)) 8 [1]
        = Some (?pre @ [1] @ ([0] @ replicate ?n 0))"
      by (rule wr_block_append) simp_all
    have w9: "wr_block ((?pre @ [1]) @ [0] @ replicate ?n 0) 9 [of_nat ?n]
        = Some ((?pre @ [1]) @ [of_nat ?n] @ replicate ?n 0)"
      by (rule wr_block_append) simp_all
    have w10: "wr_block ((?pre @ [1, of_nat ?n]) @ replicate ?n 0 @ []) 10 (cname_bytes cname)
        = Some ((?pre @ [1, of_nat ?n]) @ cname_bytes cname @ [])"
      by (rule wr_block_append) simp_all
    show ?thesis
      using True hdr w8 w9 w10 by (simp add: BuildSdes_def Let_def padded_def[symmetric] rep padded)
  next
    case False
    then have "padded < ?n + 10" using size by presburger
    then have "wr_block packet 10 (cname_bytes cname) = None" if "length packet = padded" for packet
      using that by (intro wr_block_None) simp
    moreover have "length p2 = padded"
      if "wr_block (?pre @ replicate (padded - 8) 0) 8 [1] = Some p1"
        "wr_block p1 9 [of_nat ?n] = Some p2" for p1 p2
    proof -
      have "length p2 = length (?pre @ replicate (padded - 8) 0)"
        using that by (metis wr_block_length)
      also have "\<dots> = padded" using ge by simp
      finally show ?thesis .
    qed
    ultimately have "do {
        packet \<leftarrow> wr_block (?pre @ replicate (padded - 8) 0) 8 [1];
        packet \<leftarrow> wr_block packet 9 [of_nat ?n];
        wr_block packet 10 (cname_bytes cname) } = None"
      by - (intro bind_NoneI, blast)
    then show ?thesis
      using False hdr by (simp add: BuildSdes_def Let_def padded_def[symmetric])
  qed
qed

text \<open>
  \<open>BuildSdes\<close> allocates seven bytes and the name rounded up to a multiple of four but
  stores ten bytes and the name: it stays inside the vector exactly when the length of the name is
  2 modulo 4, and writes past its end for every other name, the default name \<open>rtcom@unknown\<close> and
  the empty one included.
\<close>

theorem BuildSdes_safe_iff:
  "BuildSdes h cname \<noteq> None \<longleftrightarrow> length cname mod 4 = 2"
  by (simp add: sdes_bytes)

text \<open>
  Whenever a compound packet can be built at all, for a name below 256 bytes, its
  sender report and source description are framed so that the parser walks over both, reports the
  sender's SSRC and finds no report block.
\<close>

theorem BuildCompound_parse:
  assumes "BuildCompound h cname ntp_ts rtp_ts pc oc = Some data" and "length cname < 256"
  shows "RtcpHandler_Parse data blocks s0 = Some (0, blocks, rh_ssrc h)"
proof -
  let ?n = "length cname"
  let ?body = "be_bytes 4 (ucast ntp_ts :: u32) @ be_bytes 4 (ucast (drop_bit 32 ntp_ts) :: u32)
     @ be_bytes 4 rtp_ts @ be_bytes 4 pc @ be_bytes 4 oc"
  let ?words = "(?n + 10) div 4 - 1"
  define sdes where "sdes = [0x81, 202] @ be_bytes 2 (of_nat ?words :: u16)
     @ be_bytes 4 (rh_ssrc h) @ [1, of_nat ?n] @ cname_bytes cname"
  have n: "?n mod 4 = 2" and data': "data = BuildSenderReport h ntp_ts rtp_ts pc oc @ sdes"
    using assms(1) by (auto simp: BuildCompound_def sdes_bytes sdes_def split: if_splits)
  have six: "be_bytes 2 (of_nat 6 :: u16) = [0, 6]" by (simp add: be_bytes_2)
  have data: "data = [] @ [0x80, 200] @ be_bytes 2 (of_nat 6 :: u16) @ be_bytes 4 (rh_ssrc h)
      @ ?body @ sdes"
    unfolding data' sender_report_bytes six by simp
  have sr: "parse_rtcp_at data 0 = Some (Some ((6 + 1) * 4, Some (rh_ssrc h, [])))"
    by (rule parse_rtcp_at_report[OF data]) simp_all
  have words: "(?words + 1) * 4 = ?n + 10" using n by presburger
  have len: "length data = 28 + (?n + 10)" by (simp add: data sdes_def)
  have sd: "parse_rtcp_at data 28 = Some (Some (?n + 10, None))"
  proof -
    have "parse_rtcp_at data 28 = Some (Some ((?words + 1) * 4, None))"
    proof (rule parse_rtcp_at_other)
      show "data = BuildSenderReport h ntp_ts rtp_ts pc oc @ [0x81, 202]
          @ be_bytes 2 (of_nat ?words :: u16)
          @ (be_bytes 4 (rh_ssrc h) @ [1, of_nat ?n] @ cname_bytes cname) @ []"
        by (simp add: data' sdes_def)
      show "length (BuildSenderReport h ntp_ts rtp_ts pc oc) = 28"
        by (simp add: sender_report_bytes)
    qed (use assms(2) words in simp_all)
    then show ?thesis by (simp only: words)
  qed
  have "parse_rtcp_loop data 0 (0, blocks, s0) = Some (0, blocks, rh_ssrc h)"
    using parse_rtcp_loop_report[OF sr, of 0 blocks s0] parse_rtcp_loop_other[OF sd]
    by (simp add: parse_rtcp_loop_end len)
  then show ?thesis by (simp add: RtcpHandler_Parse_def len)
qed

lemma BuildCompound_parse_witness:
  "\<exists>data. BuildCompound (RtcpHandler_new 7 0) ''abc@ex'' 1 2 3 4 = Some data
     \<and> RtcpHandler_Parse data [] 0 = Some (0, [], 7)"
proof -
  obtain data where d: "BuildCompound (RtcpHandler_new 7 0) ''abc@ex'' 1 2 3 4 = Some data"
    by (simp add: BuildCompound_def sdes_bytes)
  from BuildCompound_parse[OF d] d show ?thesis by (simp add: RtcpHandler_new_def)
qed

section \<open>Memory safety of the parser\<close>

lemma parse_report_blocks_safe:
  "limit \<le> length data \<Longrightarrow> \<exists>bs. parse_report_blocks n data off limit = Some bs"
proof (induction n arbitrary: off)
  case 0
  then show ?case by simp
next
  case (Suc n)
  then obtain bs where "parse_report_blocks n data (off + 24) limit = Some bs" by blast
  with Suc.prems show ?case by (simp add: mem_simps)
qed

lemma be_word_zero:
  "(push_bit 8 (ucast hi) OR ucast lo :: u16) = 0 \<Longrightarrow> (hi :: u8) = 0 \<and> (lo :: u8) = 0"
proof -
  assume z: "(push_bit 8 (ucast hi) OR ucast lo :: u16) = 0"
  have "\<not> bit (push_bit 8 (ucast hi) OR ucast lo :: u16) i" for i by (simp add: z)
  note b = this[unfolded bit_or_iff bit_push_bit_iff bit_ucast_iff]
  have "\<not> bit hi i" if "i < 8" for i using b[of "i + 8"] that by simp
  moreover have "\<not> bit lo i" if "i < 8" for i using b[of i] that by simp
  ultimately show ?thesis by (auto intro: bit_word_eqI)
qed

text \<open>A read outside the buffer can only be that of the SSRC of a four-byte report at its end.\<close>

lemma parse_rtcp_at_None:
  assumes "parse_rtcp_at data off = None" and "off + 4 \<le> length data"
  shows "length data < off + 8 \<and> (data ! (off + 1) = 200 \<or> data ! (off + 1) = 201)
    \<and> data ! (off + 2) = 0 \<and> data ! (off + 3) = 0"
proof -
  let ?w = "push_bit 8 (ucast (data ! (off + 2))) OR ucast (data ! (off + 3)) :: u16"
  let ?n = "(unat ?w + 1) * 4"
  have b: "rd data off = Some (data ! off)" "rd data (off + 1) = Some (data ! (off + 1))"
    "rd data (off + 2) = Some (data ! (off + 2))" "rd data (off + 3) = Some (data ! (off + 3))"
    using assms(2) by (simp_all add: rd_def)
  have fits: "off + ?n \<le> length data"
    and pt: "data ! (off + 1) = 200 \<or> data ! (off + 1) = 201"
    using assms(1) b by (auto simp: parse_rtcp_at_def Let_def split: if_splits)
  obtain bs where "parse_report_blocks (unat (data ! off AND 0x1F)) data (off + 8) (off + ?n) = Some bs"
    using parse_report_blocks_safe[OF fits] by blast
  then have "rd_block data (off + 4) 4 = None"
    using assms(1) b fits pt
    by (cases "rd_block data (off + 4) 4") (auto simp: parse_rtcp_at_def Let_def)
  then have len: "length data < off + 8" by (auto simp: rd_block_def split: if_splits)
  then have "?n < 8" using fits by linarith
  then have "unat ?w = 0" by simp
  then have "?w = 0" by (simp only: unat_eq_zero)
  then show ?thesis using len pt be_word_zero by blast
qed

lemma parse_rtcp_loop_None:
  "parse_rtcp_loop data offset acc = None
   \<Longrightarrow> \<exists>off. off + 4 \<le> length data \<and> parse_rtcp_at data off = None"
proof (induction data offset acc rule: parse_rtcp_loop.induct)
  case (1 data offset acc)
  have in_range: "offset + 4 \<le> length data"
    using "1.prems" by (rule contrapos_pp) (simp add: parse_rtcp_loop_end)
  obtain count blocks s0 where acc: "acc = (count, blocks, s0)" by (cases acc) auto
  show ?case
  proof (cases "parse_rtcp_at data offset")
    case None
    with in_range show ?thesis by blast
  next
    case (Some r)
    show ?thesis
    proof (cases r)
      case None
      then show ?thesis
        using "1.prems" Some in_range by (subst (asm) parse_rtcp_loop.simps) simp
    next
      case (Some nr)
      obtain n x where r: "r = Some (n, x)" using Some by (cases nr) auto
      show ?thesis
      proof (cases x)
        case None
        then show ?thesis
          using "1.IH"(1)[OF in_range] "1.prems" \<open>parse_rtcp_at data offset = Some r\<close> r
          by (simp add: parse_rtcp_loop_other)
      next
        case (Some sb)
        obtain s bs where "x = Some (s, bs)" using Some by (cases sb) auto
        then show ?thesis
          using "1.IH"(2)[OF in_range] "1.prems" \<open>parse_rtcp_at data offset = Some r\<close> r acc
          by (simp add: parse_rtcp_loop_report)
      qed
    qed
  qed
qed

text \<open>
  Property C39. The one way in which \<open>Parse\<close> reads outside a received buffer: a sender or receiver
  report whose length field is 0 and that starts less than eight bytes before the end, so that its
  SSRC is not there. On every buffer without such a report the parser is memory safe and returns.
\<close>

theorem RtcpHandler_Parse_fault_shape:
  assumes "RtcpHandler_Parse data blocks s0 = None"
  shows "\<exists>off. off + 4 \<le> length data \<and> length data < off + 8
     \<and> (data ! (off + 1) = 200 \<or> data ! (off + 1) = 201)
     \<and> data ! (off + 2) = 0 \<and> data ! (off + 3) = 0"
proof -
  have "parse_rtcp_loop data 0 (0, blocks, s0) = None"
    using assms by (auto simp: RtcpHandler_Parse_def split: if_splits)
  then obtain off where "off + 4 \<le> length data" "parse_rtcp_at data off = None"
    using parse_rtcp_loop_None by blast
  then show ?thesis using parse_rtcp_at_None by blast
qed

text \<open>Such a buffer exists: two empty reports, eight bytes, and the parser reads bytes 8 to 11.\<close>

lemma RtcpHandler_Parse_overread:
  "RtcpHandler_Parse [0x80, 201, 0, 0, 0x80, 200, 0, 0] blocks s0 = None"
proof -
  let ?d = "[0x80, 201, 0, 0, 0x80, 200, 0, 0] :: bytes"
  have first: "parse_rtcp_at ?d 0 = Some (Some (4, Some (ntohl (from_le [0x80, 200, 0, 0]), [])))"
    by (simp add: parse_rtcp_at_def rd_def rd_block_def)
  have second: "parse_rtcp_at ?d 4 = None"
    by (simp add: parse_rtcp_at_def rd_def rd_block_def)
  have "parse_rtcp_loop ?d 4 acc = None" for acc
    by (subst parse_rtcp_loop.simps) (simp add: second)
  then show ?thesis
    by (simp add: RtcpHandler_Parse_def parse_rtcp_loop_report[OF first])
qed

lemma RtcpHandler_Parse_fault_shape_witness:
  "\<exists>off. off + 4 \<le> length [0x80, 201, 0, 0, 0x80, 200, 0, 0 :: u8]
     \<and> [0x80, 201, 0, 0, 0x80, 200, 0, 0 :: u8] ! (off + 2) = 0"
  using RtcpHandler_Parse_fault_shape[OF RtcpHandler_Parse_overread[of "[]" 0]] by blast

section \<open>NTP time\<close>

lemma scaled_div: "0 < n \<Longrightarrow> (t :: nat) * c div n = t div n * c + t mod n * c div n"
proof -
  assume n: "0 < n"
  have "t * c = (t div n * n + t mod n) * c" by simp
  also have "\<dots> = t mod n * c + t div n * c * n"
    by (simp only: add_mult_distrib add_mult_distrib2 ac_simps)
  finally show ?thesis using n by simp
qed

text \<open>
  \<open>NowNtp\<close> is the Unix time, shifted to the epoch of 1900, as a 32.32 fixed-point
  number of seconds rounded down, until the seconds overflow 32 bits in 2036.
\<close>

theorem NowNtp_value:
  assumes "t div 1000000000 + kNtpEpochOffset < 2 ^ 32"
  shows "unat (NowNtp t) = t * 2 ^ 32 div 1000000000 + kNtpEpochOffset * 2 ^ 32"
proof -
  let ?secs = "t div 1000000000" and ?frac = "t mod 1000000000"
  let ?f = "?frac * 2 ^ 32 div 1000000000"
  have frac: "t - ?secs * 1000000000 = ?frac" by (simp add: minus_div_mult_eq_mod)
  have "?frac * 2 ^ 32 < 2 ^ 32 * 1000000000" by simp
  then have f: "?f < 2 ^ 32" by (simp only: less_mult_imp_div_less)
  have t: "t * 2 ^ 32 div 1000000000 = ?secs * 2 ^ 32 + ?f"
    by (rule scaled_div) simp
  have hi: "push_bit 32 (of_nat (?secs + kNtpEpochOffset) :: u64)
      = of_nat ((?secs + kNtpEpochOffset) * 2 ^ 32)"
    by (simp add: push_bit_eq_mult algebra_simps)
  have fbit: "\<not> bit (of_nat ?f :: u64) n" if "32 \<le> n" for n
  proof -
    have "take_bit 32 ?f = ?f" using f by (simp add: take_bit_nat_eq_self)
    then have "\<not> bit ?f n" using that by (metis bit_take_bit_iff not_less)
    then show ?thesis by (simp add: bit_of_nat_iff)
  qed
  have "NowNtp t = push_bit 32 (of_nat (?secs + kNtpEpochOffset)) + of_nat ?f"
    unfolding NowNtp_def Let_def frac
    by (rule disjunctive_add[symmetric]) (use fbit in \<open>auto simp: bit_push_bit_iff not_le\<close>)
  also have "\<dots> = of_nat ((?secs + kNtpEpochOffset) * 2 ^ 32 + ?f)"
    unfolding hi by (simp only: of_nat_add)
  finally have n: "NowNtp t = of_nat ((?secs + kNtpEpochOffset) * 2 ^ 32 + ?f)" .
  have "(?secs + kNtpEpochOffset) * 2 ^ 32 + ?f < 2 ^ 64"
    using assms f by simp
  then have "unat (NowNtp t) = (?secs + kNtpEpochOffset) * 2 ^ 32 + ?f"
    unfolding n by (intro unat_of_nat_small) simp
  then show ?thesis unfolding t by (simp add: algebra_simps)
qed

lemma NowNtp_value_witness: "unat (NowNtp 1500000000) = 6442450944 + kNtpEpochOffset * 2 ^ 32"
  using NowNtp_value[of 1500000000] by (simp add: kNtpEpochOffset_def)

end
