(* ===== verification/Jitter_Buffer.thy ===== *)
theory Jitter_Buffer
  imports Rtp_Packet "HOL-Library.Multiset" "HOL-Library.Signed_Division"
begin

text \<open>
  The jitter buffer (\<open>rtp/jitter_buffer.h\<close>, \<open>rtp/jitter_buffer.cpp\<close>): a queue of received packets
  kept sorted by sequence number, with the loss counter, the interarrival jitter estimate and the
  adaptive play-out delay. The mutex makes every operation atomic, so an operation is a function of
  the state. The clock reading \<open>steady_clock::now()\<close> is the argument \<open>now\<close>, in nanoseconds.
  \<open>std::sort\<close> promises a sorted permutation and leaves the order of equal keys open: it is the
  argument \<open>srt\<close> of the operations, with its promise as the locale \<open>seq_sorter\<close>.
  The signed 32-bit arithmetic of the jitter estimate is undefined on overflow, and the division by
  the sample rate when that is zero: both are \<open>None\<close>.
\<close>

section \<open>Data\<close>

record jitter_buffer_config =
  jc_min_delay_ms :: u32
  jc_max_delay_ms :: u32
  jc_initial_delay_ms :: u32
  jc_sample_rate :: u32

definition default_jitter_config :: jitter_buffer_config where
  "default_jitter_config =
     \<lparr>jc_min_delay_ms = kJitterBufferMinMs, jc_max_delay_ms = kJitterBufferMaxMs,
      jc_initial_delay_ms = 60, jc_sample_rate = 8000\<rparr>"

record buffer_item =
  bi_packet :: rtp_packet
  bi_arrival_time :: time_ns
  bi_ready :: bool

record jitter_buffer =
  jb_config :: jitter_buffer_config
  jb_buffer :: "buffer_item list"
  jb_expected_seq :: u16
  jb_initialized :: bool
  jb_current_delay_ms :: u32
  jb_packets_lost :: u32
  jb_packets_inserted :: u32
  jb_packets_extracted :: u32
  jb_current_jitter_ms :: u32
  jb_transit_jitter :: u32
  jb_last_transit :: u32
  jb_jitter_initialized :: bool

definition kMaxBufferSize :: nat where "kMaxBufferSize = 500"

definition JitterBuffer_new :: "jitter_buffer_config \<Rightarrow> jitter_buffer" where
  "JitterBuffer_new config =
     \<lparr>jb_config = config, jb_buffer = [], jb_expected_seq = 0, jb_initialized = False,
      jb_current_delay_ms = jc_initial_delay_ms config, jb_packets_lost = 0,
      jb_packets_inserted = 0, jb_packets_extracted = 0, jb_current_jitter_ms = 0,
      jb_transit_jitter = 0, jb_last_transit = 0, jb_jitter_initialized = False\<rparr>"

section \<open>Operations\<close>

text \<open>\<open>duration_cast<milliseconds>\<close> truncates towards zero.\<close>

definition to_ms :: "time_ns \<Rightarrow> int" where
  "to_ms t = t sdiv 1000000"

text \<open>Signed 32-bit subtraction and \<open>std::abs\<close>, defined where the result is representable.\<close>

definition int32_sub :: "int \<Rightarrow> int \<Rightarrow> int option" where
  "int32_sub a b = (if - (2 ^ 31) \<le> a - b \<and> a - b < 2 ^ 31 then Some (a - b) else None)"

definition int32_abs :: "int \<Rightarrow> int option" where
  "int32_abs a = (if a = - (2 ^ 31) then None else Some \<bar>a\<bar>)"

text \<open>The RTP timestamp in milliseconds, computed in 64 bits and cast to \<open>int32_t\<close>.\<close>

definition rtp_ms :: "u32 \<Rightarrow> u32 \<Rightarrow> int" where
  "rtp_ms rate ts = sint (of_nat (unat ts * 1000 div unat rate) :: u32)"

definition CalculateJitter :: "rtp_packet \<Rightarrow> time_ns \<Rightarrow> jitter_buffer \<Rightarrow> jitter_buffer option" where
  "CalculateJitter packet arrival jb =
     (let rtp_ts = Timestamp packet
      in if \<not> jb_jitter_initialized jb
         then Some (jb\<lparr>jb_last_transit := 0, jb_transit_jitter := 0, jb_jitter_initialized := True\<rparr>)
         else if jc_sample_rate (jb_config jb) = 0 then None
         else do {
           let arrival_ms = sint (of_int (to_ms arrival) :: u32);
           transit \<leftarrow> int32_sub arrival_ms (rtp_ms (jc_sample_rate (jb_config jb)) rtp_ts);
           d \<leftarrow> int32_sub transit (sint (jb_last_transit jb));
           delta \<leftarrow> int32_abs d;
           let j = jb_transit_jitter jb + (of_int delta - jb_transit_jitter jb) div 16;
           Some (jb\<lparr>jb_transit_jitter := j, jb_last_transit := of_int transit,
                    jb_current_jitter_ms := j\<rparr>)
         })"

definition item_seq :: "buffer_item \<Rightarrow> u16" where
  "item_seq bi = Sequence (bi_packet bi)"

definition SortBuffer :: "(buffer_item list \<Rightarrow> buffer_item list) \<Rightarrow> jitter_buffer \<Rightarrow> jitter_buffer" where
  "SortBuffer srt jb = jb\<lparr>jb_buffer := srt (jb_buffer jb)\<rparr>"

definition GetBufferDepthMs :: "jitter_buffer \<Rightarrow> u32" where
  "GetBufferDepthMs jb =
     (if length (jb_buffer jb) < 2 then 0
      else of_int (to_ms (bi_arrival_time (last (jb_buffer jb)) - bi_arrival_time (hd (jb_buffer jb)))))"

text \<open>The sequence-number bookkeeping at the head of \<open>Insert\<close>.\<close>

definition track_seq :: "u16 \<Rightarrow> jitter_buffer \<Rightarrow> jitter_buffer" where
  "track_seq seq jb =
     (let jb = (if jb_initialized jb then jb
                else jb\<lparr>jb_expected_seq := seq, jb_initialized := True\<rparr>);
          gap = seq - jb_expected_seq jb;
          jb = (if gap > 0 \<and> gap < 100
                then jb\<lparr>jb_packets_lost := jb_packets_lost jb + ucast gap\<rparr> else jb)
      in if 0 \<le> sint gap then jb\<lparr>jb_expected_seq := seq + 1\<rparr> else jb)"

definition mark_item :: "time_ns \<Rightarrow> u32 \<Rightarrow> buffer_item \<Rightarrow> buffer_item" where
  "mark_item now delay bi =
     bi\<lparr>bi_ready := (delay \<le> of_int (to_ms (now - bi_arrival_time bi)))\<rparr>"

text \<open>The adaptation of the play-out delay, from the depth measured before the marking.\<close>

definition adapt_delay :: "jitter_buffer \<Rightarrow> u32 \<Rightarrow> u32" where
  "adapt_delay jb buffer_depth =
     (let cfg = jb_config jb; cur = jb_current_delay_ms jb
      in if jb_current_jitter_ms jb > cur then min (jc_max_delay_ms cfg) (cur + 10)
         else if cur > jc_min_delay_ms cfg \<and> buffer_depth < cur div 2
         then max (jc_min_delay_ms cfg) (cur - 5)
         else cur)"

definition mark_ready :: "time_ns \<Rightarrow> jitter_buffer \<Rightarrow> jitter_buffer" where
  "mark_ready now jb =
     (if jb_buffer jb = [] then jb
      else let buffer_depth = GetBufferDepthMs jb;
               jb' = jb\<lparr>jb_buffer := map (mark_item now (jb_current_delay_ms jb)) (jb_buffer jb)\<rparr>
           in jb'\<lparr>jb_current_delay_ms := adapt_delay jb' buffer_depth\<rparr>)"

text \<open>The closing \<open>while\<close> loop: the oldest sequence numbers go and count as lost.\<close>

fun drop_excess :: "buffer_item list \<Rightarrow> u32 \<Rightarrow> buffer_item list \<times> u32" where
  "drop_excess [] lost = ([], lost)"
| "drop_excess (b # bs) lost =
     (if length (b # bs) > kMaxBufferSize then drop_excess bs (lost + 1) else (b # bs, lost))"

definition JitterBuffer_Insert ::
  "(buffer_item list \<Rightarrow> buffer_item list) \<Rightarrow> time_ns \<Rightarrow> rtp_packet \<Rightarrow> jitter_buffer \<Rightarrow>
     (bool \<times> jitter_buffer) option" where
  "JitterBuffer_Insert srt now packet jb =
     do {
       jb \<leftarrow> CalculateJitter packet now jb;
       let jb = track_seq (Sequence packet) jb;
       let item = \<lparr>bi_packet = packet, bi_arrival_time = now, bi_ready = False\<rparr>;
       let jb = jb\<lparr>jb_buffer := jb_buffer jb @ [item],
                   jb_packets_inserted := jb_packets_inserted jb + 1\<rparr>;
       let jb = mark_ready now (SortBuffer srt jb);
       let (buf, lost) = drop_excess (jb_buffer jb) (jb_packets_lost jb);
       Some (True, jb\<lparr>jb_buffer := buf, jb_packets_lost := lost\<rparr>)
     }"

text \<open>The loop of \<open>Extract\<close>: the first ready item, and the buffer without it.\<close>

fun take_ready :: "buffer_item list \<Rightarrow> (rtp_packet \<times> buffer_item list) option" where
  "take_ready [] = None"
| "take_ready (b # bs) =
     (if bi_ready b then Some (bi_packet b, bs)
      else case take_ready bs of None \<Rightarrow> None | Some (p, bs') \<Rightarrow> Some (p, b # bs'))"

definition JitterBuffer_Extract :: "jitter_buffer \<Rightarrow> rtp_packet option \<times> jitter_buffer" where
  "JitterBuffer_Extract jb =
     (case take_ready (jb_buffer jb) of
        None \<Rightarrow> (None, jb)
      | Some (p, bs) \<Rightarrow>
          (Some p, jb\<lparr>jb_buffer := bs, jb_packets_extracted := jb_packets_extracted jb + 1\<rparr>))"

definition JitterBuffer_Empty :: "jitter_buffer \<Rightarrow> bool" where
  "JitterBuffer_Empty jb = (jb_buffer jb = [])"

text \<open>\<open>Reset\<close> leaves the inserted and extracted counters and the last jitter value as they are.\<close>

definition JitterBuffer_Reset :: "jitter_buffer \<Rightarrow> jitter_buffer" where
  "JitterBuffer_Reset jb =
     jb\<lparr>jb_buffer := [], jb_initialized := False, jb_expected_seq := 0,
        jb_current_delay_ms := jc_initial_delay_ms (jb_config jb),
        jb_packets_lost := 0, jb_jitter_initialized := False\<rparr>"

text \<open>A run of the buffer: its operations in the order the mutex serialises them.\<close>

datatype jb_op = InsertAt time_ns rtp_packet | ExtractNext | ResetBuffer

fun jb_step ::
  "(buffer_item list \<Rightarrow> buffer_item list) \<Rightarrow> jb_op \<Rightarrow> jitter_buffer \<Rightarrow>
     (rtp_packet list \<times> jitter_buffer) option" where
  "jb_step srt (InsertAt now p) jb =
     do { (ok, jb) \<leftarrow> JitterBuffer_Insert srt now p jb; Some ([], jb) }"
| "jb_step srt ExtractNext jb =
     (case JitterBuffer_Extract jb of (None, jb) \<Rightarrow> Some ([], jb) | (Some p, jb) \<Rightarrow> Some ([p], jb))"
| "jb_step srt ResetBuffer jb = Some ([], JitterBuffer_Reset jb)"

fun jb_run ::
  "(buffer_item list \<Rightarrow> buffer_item list) \<Rightarrow> jb_op list \<Rightarrow> jitter_buffer \<Rightarrow>
     (rtp_packet list \<times> jitter_buffer) option" where
  "jb_run srt [] jb = Some ([], jb)"
| "jb_run srt (op # ops) jb =
     do {
       (out, jb) \<leftarrow> jb_step srt op jb;
       (outs, jb) \<leftarrow> jb_run srt ops jb;
       Some (out @ outs, jb)
     }"

fun inserted_packets :: "jb_op list \<Rightarrow> rtp_packet list" where
  "inserted_packets [] = []"
| "inserted_packets (InsertAt now p # ops) = p # inserted_packets ops"
| "inserted_packets (ExtractNext # ops) = inserted_packets ops"
| "inserted_packets (ResetBuffer # ops) = inserted_packets ops"

section \<open>Basic facts\<close>

lemma kMaxBufferSize_val [simp]: "kMaxBufferSize = 500"
  by (simp add: kMaxBufferSize_def)

lemma item_seq_mark [simp]: "item_seq (mark_item now d bi) = item_seq bi"
  by (simp add: item_seq_def mark_item_def)

lemma bi_packet_mark [simp]: "bi_packet (mark_item now d bi) = bi_packet bi"
  by (simp add: mark_item_def)

lemma map_mark [simp]:
  "map item_seq (map (mark_item now d) xs) = map item_seq xs"
  "map bi_packet (map (mark_item now d) xs) = map bi_packet xs"
  by simp_all

lemma drop_excess_eq:
  "drop_excess bs lost =
     (drop (length bs - kMaxBufferSize) bs, lost + of_nat (length bs - kMaxBufferSize))"
proof (induction bs lost rule: drop_excess.induct)
  case (2 b bs lost)
  show ?case
  proof (cases "length (b # bs) > kMaxBufferSize")
    case True
    then have "length (b # bs) - kMaxBufferSize = Suc (length bs - kMaxBufferSize)" by simp
    then show ?thesis using 2 True by (simp only: drop_excess.simps if_True drop_Suc_Cons of_nat_Suc) simp
  qed simp
qed simp

lemma drop_excess_small: "length bs \<le> kMaxBufferSize \<Longrightarrow> drop_excess bs lost = (bs, lost)"
  by (simp add: drop_excess_eq)

text \<open>What each stage of \<open>Insert\<close> leaves alone.\<close>

lemma CalculateJitter_frame:
  assumes "CalculateJitter p now jb = Some jb'"
  shows "jb_config jb' = jb_config jb" "jb_buffer jb' = jb_buffer jb"
    "jb_expected_seq jb' = jb_expected_seq jb" "jb_initialized jb' = jb_initialized jb"
    "jb_current_delay_ms jb' = jb_current_delay_ms jb" "jb_packets_lost jb' = jb_packets_lost jb"
    "jb_packets_inserted jb' = jb_packets_inserted jb"
    "jb_packets_extracted jb' = jb_packets_extracted jb"
  using assms
  by (auto simp: CalculateJitter_def Let_def bind_eq_Some_conv split: if_splits)

lemma track_seq_frame [simp]:
  "jb_config (track_seq s jb) = jb_config jb" "jb_buffer (track_seq s jb) = jb_buffer jb"
  "jb_current_delay_ms (track_seq s jb) = jb_current_delay_ms jb"
  "jb_packets_inserted (track_seq s jb) = jb_packets_inserted jb"
  "jb_packets_extracted (track_seq s jb) = jb_packets_extracted jb"
  "jb_last_transit (track_seq s jb) = jb_last_transit jb"
  "jb_current_jitter_ms (track_seq s jb) = jb_current_jitter_ms jb"
  by (simp_all add: track_seq_def Let_def)

lemma SortBuffer_frame [simp]:
  "jb_buffer (SortBuffer srt jb) = srt (jb_buffer jb)"
  "jb_config (SortBuffer srt jb) = jb_config jb"
  "jb_expected_seq (SortBuffer srt jb) = jb_expected_seq jb"
  "jb_initialized (SortBuffer srt jb) = jb_initialized jb"
  "jb_current_delay_ms (SortBuffer srt jb) = jb_current_delay_ms jb"
  "jb_packets_lost (SortBuffer srt jb) = jb_packets_lost jb"
  "jb_packets_inserted (SortBuffer srt jb) = jb_packets_inserted jb"
  "jb_packets_extracted (SortBuffer srt jb) = jb_packets_extracted jb"
  "jb_last_transit (SortBuffer srt jb) = jb_last_transit jb"
  "jb_current_jitter_ms (SortBuffer srt jb) = jb_current_jitter_ms jb"
  by (simp_all add: SortBuffer_def)

lemma mark_ready_frame [simp]:
  "jb_config (mark_ready now jb) = jb_config jb"
  "jb_expected_seq (mark_ready now jb) = jb_expected_seq jb"
  "jb_initialized (mark_ready now jb) = jb_initialized jb"
  "jb_packets_lost (mark_ready now jb) = jb_packets_lost jb"
  "jb_packets_inserted (mark_ready now jb) = jb_packets_inserted jb"
  "jb_packets_extracted (mark_ready now jb) = jb_packets_extracted jb"
  "jb_last_transit (mark_ready now jb) = jb_last_transit jb"
  "jb_buffer (mark_ready now jb) = map (mark_item now (jb_current_delay_ms jb)) (jb_buffer jb)"
  by (simp_all add: mark_ready_def Let_def)

lemma mark_ready_delay:
  "jb_buffer jb \<noteq> [] \<Longrightarrow>
   jb_current_delay_ms (mark_ready now jb) = adapt_delay jb (GetBufferDepthMs jb)"
  by (simp add: mark_ready_def Let_def adapt_delay_def)

text \<open>\<open>Insert\<close>'s new state, member by member.\<close>

lemma Insert_unfold:
  assumes "JitterBuffer_Insert srt now p jb = Some (ok, jb')"
  obtains jb1 where "CalculateJitter p now jb = Some jb1" "ok"
    "jb_config jb' = jb_config jb"
    "jb_buffer jb' =
       (let xs = map (mark_item now (jb_current_delay_ms jb))
                   (srt (jb_buffer jb @ [\<lparr>bi_packet = p, bi_arrival_time = now, bi_ready = False\<rparr>]))
        in drop (length xs - kMaxBufferSize) xs)"
    "jb_packets_inserted jb' = jb_packets_inserted jb + 1"
    "jb_packets_extracted jb' = jb_packets_extracted jb"
    "jb_packets_lost jb' = jb_packets_lost (track_seq (Sequence p) jb1)
       + of_nat (length (srt (jb_buffer jb @ [\<lparr>bi_packet = p, bi_arrival_time = now, bi_ready = False\<rparr>]))
                  - kMaxBufferSize)"
    "jb_expected_seq jb' = jb_expected_seq (track_seq (Sequence p) jb1)"
    "jb_initialized jb' = jb_initialized (track_seq (Sequence p) jb1)"
    "jb_last_transit jb' = jb_last_transit jb1"
proof -
  obtain jb1 where c: "CalculateJitter p now jb = Some jb1"
    using assms by (auto simp: JitterBuffer_Insert_def bind_eq_Some_conv)
  note f = CalculateJitter_frame[OF c]
  show thesis
    by (rule that[OF c]) (use assms f in
      \<open>auto simp: JitterBuffer_Insert_def c Let_def drop_excess_eq split: prod.splits\<close>)
qed

section \<open>The sorter's contract, and what the buffer owes to it\<close>

text \<open>
  What \<open>std::sort\<close> with the sequence-number comparison promises. The lemmas of the locale hold for
  every such sorter, stable or not.
\<close>

locale seq_sorter =
  fixes srt :: "buffer_item list \<Rightarrow> buffer_item list"
  assumes srt_mset: "mset (srt xs) = mset xs"
    and srt_sorted: "sorted (map item_seq (srt xs))"
begin

lemma srt_length: "length (srt xs) = length xs"
  using srt_mset by (metis size_mset)

lemma srt_set: "set (srt xs) = set xs"
  using srt_mset by (metis set_mset_mset)

lemma insert_sorted_bounded:
  assumes "JitterBuffer_Insert srt now p jb = Some (ok, jb')"
  shows "sorted (map item_seq (jb_buffer jb'))" "length (jb_buffer jb') \<le> kMaxBufferSize"
proof -
  from assms show "sorted (map item_seq (jb_buffer jb'))"
    by (rule Insert_unfold)
      (auto simp: Let_def drop_map[symmetric] comp_def sorted_wrt_drop srt_sorted[unfolded comp_def]
        simp del: drop_map)
  from assms show "length (jb_buffer jb') \<le> kMaxBufferSize"
    by (rule Insert_unfold) (auto simp: Let_def srt_length)
qed

lemma insert_mset:
  assumes "JitterBuffer_Insert srt now p jb = Some (ok, jb')"
  shows "mset (map bi_packet (jb_buffer jb')) \<subseteq># add_mset p (mset (map bi_packet (jb_buffer jb)))"
    and "length (jb_buffer jb) < kMaxBufferSize \<Longrightarrow>
      mset (map bi_packet (jb_buffer jb')) = add_mset p (mset (map bi_packet (jb_buffer jb)))"
proof -
  let ?item = "\<lparr>bi_packet = p, bi_arrival_time = now, bi_ready = False\<rparr>"
  let ?ys = "srt (jb_buffer jb @ [?item])"
  have m: "mset (map bi_packet ?ys) = add_mset p (mset (map bi_packet (jb_buffer jb)))"
    by (simp add: srt_mset mset_map)
  have eq: "map bi_packet (jb_buffer jb') = drop (length ?ys - kMaxBufferSize) (map bi_packet ?ys)"
    using assms by (rule Insert_unfold) (simp add: Let_def drop_map)
  have "mset (drop n xs) \<subseteq># mset xs" for n and xs :: "rtp_packet list"
    by (metis append_take_drop_id mset_append mset_subset_eq_add_right)
  then show "mset (map bi_packet (jb_buffer jb')) \<subseteq># add_mset p (mset (map bi_packet (jb_buffer jb)))"
    using eq m by metis
  show "mset (map bi_packet (jb_buffer jb')) = add_mset p (mset (map bi_packet (jb_buffer jb)))"
    if "length (jb_buffer jb) < kMaxBufferSize"
    using eq m that by (simp add: srt_length)
qed

end

interpretation stable_sorter: seq_sorter "sort_key item_seq"
  by unfold_locales simp_all

section \<open>Extraction\<close>

lemma take_ready_None: "take_ready bs = None \<longleftrightarrow> (\<forall>b \<in> set bs. \<not> bi_ready b)"
  by (induction bs) (auto split: option.splits)

lemma take_ready_SomeD:
  "take_ready bs = Some (p, bs') \<Longrightarrow>
     \<exists>xs b ys. bs = xs @ b # ys \<and> bs' = xs @ ys \<and> bi_ready b \<and> p = bi_packet b \<and>
        (\<forall>x \<in> set xs. \<not> bi_ready x)"
proof (induction bs arbitrary: bs')
  case (Cons a bs)
  show ?case
  proof (cases "bi_ready a")
    case True
    then show ?thesis
      using Cons.prems by (intro exI[of _ "[]"]) auto
  next
    case False
    with Cons.prems obtain bs'' where r: "take_ready bs = Some (p, bs'')" "bs' = a # bs''"
      by (auto split: option.splits)
    from Cons.IH[OF r(1)] obtain xs b ys where "bs = xs @ b # ys" "bs'' = xs @ ys" "bi_ready b"
      "p = bi_packet b" "\<forall>x \<in> set xs. \<not> bi_ready x" by blast
    with False r(2) show ?thesis
      by (intro exI[of _ "a # xs"]) auto
  qed
qed simp

lemma Extract_cases:
  obtains (not_ready) "JitterBuffer_Extract jb = (None, jb)" "\<forall>b \<in> set (jb_buffer jb). \<not> bi_ready b"
  | (packet) xs b ys where "jb_buffer jb = xs @ b # ys" "bi_ready b" "\<forall>x \<in> set xs. \<not> bi_ready x"
      "JitterBuffer_Extract jb =
         (Some (bi_packet b), jb\<lparr>jb_buffer := xs @ ys, jb_packets_extracted := jb_packets_extracted jb + 1\<rparr>)"
proof (cases "take_ready (jb_buffer jb)")
  case None
  have "JitterBuffer_Extract jb = (None, jb)" using None by (simp add: JitterBuffer_Extract_def)
  moreover have "\<forall>b \<in> set (jb_buffer jb). \<not> bi_ready b" using None by (simp only: take_ready_None)
  ultimately show thesis using not_ready by blast
next
  case (Some r)
  obtain p bs' where r: "r = (p, bs')" by (cases r)
  from Some r take_ready_SomeD[of "jb_buffer jb" p bs'] show thesis
    using packet by (auto simp: JitterBuffer_Extract_def)
qed

lemma sorted_remove_middle: "sorted (map f (xs @ b # ys)) \<Longrightarrow> sorted (map f (xs @ ys))"
  by (simp add: sorted_append)

section \<open>The invariant of a run\<close>

definition jb_sorted_bounded :: "jitter_buffer \<Rightarrow> bool" where
  "jb_sorted_bounded jb \<longleftrightarrow>
     sorted (map item_seq (jb_buffer jb)) \<and> length (jb_buffer jb) \<le> kMaxBufferSize"

definition jb_delay_bounded :: "jitter_buffer \<Rightarrow> bool" where
  "jb_delay_bounded jb \<longleftrightarrow>
     (let c = jb_config jb
      in 5 \<le> jc_min_delay_ms c \<and> jc_min_delay_ms c \<le> jc_max_delay_ms c \<and>
         jc_initial_delay_ms c \<le> jc_max_delay_ms c \<and> jc_max_delay_ms c \<le> 0xFFFFFFF5 \<and>
         jb_current_delay_ms jb \<le> jc_max_delay_ms c)"

definition jb_wf :: "jitter_buffer \<Rightarrow> bool" where
  "jb_wf jb \<longleftrightarrow> jb_sorted_bounded jb \<and> jb_delay_bounded jb"

lemma adapt_delay_le_max:
  assumes "5 \<le> jc_min_delay_ms (jb_config jb)"
    "jc_min_delay_ms (jb_config jb) \<le> jc_max_delay_ms (jb_config jb)"
    "jb_current_delay_ms jb \<le> jc_max_delay_ms (jb_config jb)"
  shows "adapt_delay jb d \<le> jc_max_delay_ms (jb_config jb)"
proof -
  have "c - 5 \<le> m" if "5 \<le> lo" "lo < c" "c \<le> m" for c lo m :: u32
    using that by (meson order.strict_implies_order order_trans word_sub_le)
  with assms show ?thesis
    by (auto simp: adapt_delay_def Let_def)
qed

lemma adapt_delay_ge_min:
  assumes "5 \<le> jc_min_delay_ms (jb_config jb)"
    "jc_min_delay_ms (jb_config jb) \<le> jc_max_delay_ms (jb_config jb)"
    "jc_max_delay_ms (jb_config jb) \<le> 0xFFFFFFF5"
    "jb_current_delay_ms jb \<le> jc_max_delay_ms (jb_config jb)"
    "jc_min_delay_ms (jb_config jb) \<le> jb_current_delay_ms jb"
  shows "jc_min_delay_ms (jb_config jb) \<le> adapt_delay jb d"
proof -
  have "lo \<le> c + 10" if "lo \<le> c" "c \<le> m" "m \<le> 0xFFFFFFF5" for c lo m :: u32
    using that by (simp add: word_le_nat_alt unat_word_ariths)
  with assms show ?thesis
    by (auto simp: adapt_delay_def Let_def)
qed

text \<open>The estimator touches neither the buffer nor the delay, so \<open>Insert\<close>'s delay is \<open>adapt_delay\<close>'s.\<close>

lemma Insert_delay:
  assumes "JitterBuffer_Insert srt now p jb = Some (ok, jb')"
    and "length (srt (jb_buffer jb @ [\<lparr>bi_packet = p, bi_arrival_time = now, bi_ready = False\<rparr>])) > 0"
  obtains jb2 d where "jb_config jb2 = jb_config jb"
    "jb_current_delay_ms jb2 = jb_current_delay_ms jb"
    "jb_current_delay_ms jb' = adapt_delay jb2 d"
proof -
  obtain jb1 where c: "CalculateJitter p now jb = Some jb1"
    using assms(1) by (auto simp: JitterBuffer_Insert_def bind_eq_Some_conv)
  note f = CalculateJitter_frame[OF c]
  let ?jb2 = "SortBuffer srt ((track_seq (Sequence p) jb1)
    \<lparr>jb_buffer := jb_buffer (track_seq (Sequence p) jb1)
        @ [\<lparr>bi_packet = p, bi_arrival_time = now, bi_ready = False\<rparr>],
     jb_packets_inserted := jb_packets_inserted (track_seq (Sequence p) jb1) + 1\<rparr>)"
  have "jb_buffer ?jb2 \<noteq> []" using assms(2) f by simp
  from mark_ready_delay[OF this]
  have "jb_current_delay_ms jb' = adapt_delay ?jb2 (GetBufferDepthMs ?jb2)"
    using assms(1) by (auto simp: JitterBuffer_Insert_def c Let_def drop_excess_eq split: prod.splits)
  with f show thesis by (intro that[of ?jb2]) simp_all
qed

context seq_sorter
begin

lemma insert_wf:
  assumes "JitterBuffer_Insert srt now p jb = Some (ok, jb')" "jb_delay_bounded jb"
  shows "jb_wf jb'"
proof -
  have c: "jb_config jb' = jb_config jb" using assms(1) by (rule Insert_unfold)
  from assms(1) obtain jb2 d where "jb_config jb2 = jb_config jb"
    "jb_current_delay_ms jb2 = jb_current_delay_ms jb" "jb_current_delay_ms jb' = adapt_delay jb2 d"
    by (rule Insert_delay) (simp add: srt_length)
  with assms(2) have "jb_current_delay_ms jb' \<le> jc_max_delay_ms (jb_config jb')"
    using adapt_delay_le_max[of jb2 d] by (simp add: jb_delay_bounded_def Let_def c)
  with assms(2) insert_sorted_bounded[OF assms(1)] show ?thesis
    by (simp add: jb_wf_def jb_sorted_bounded_def jb_delay_bounded_def Let_def c)
qed

lemma insert_keeps_minimum:
  assumes "JitterBuffer_Insert srt now p jb = Some (ok, jb')" "jb_delay_bounded jb"
    "jc_min_delay_ms (jb_config jb) \<le> jb_current_delay_ms jb"
  shows "jc_min_delay_ms (jb_config jb') \<le> jb_current_delay_ms jb'"
proof -
  have c: "jb_config jb' = jb_config jb" using assms(1) by (rule Insert_unfold)
  from assms(1) obtain jb2 d where "jb_config jb2 = jb_config jb"
    "jb_current_delay_ms jb2 = jb_current_delay_ms jb" "jb_current_delay_ms jb' = adapt_delay jb2 d"
    by (rule Insert_delay) (simp add: srt_length)
  with assms(2,3) show ?thesis
    using adapt_delay_ge_min[of jb2 d] by (simp add: jb_delay_bounded_def Let_def c)
qed

lemma step_wf:
  assumes "jb_step srt op jb = Some (out, jb')" "jb_wf jb"
  shows "jb_wf jb'"
proof (cases op)
  case (InsertAt now p)
  with assms show ?thesis
    by (auto simp: bind_eq_Some_conv jb_wf_def[of jb] intro: insert_wf)
next
  case ExtractNext
  show ?thesis
    by (rule Extract_cases[of jb])
      (use assms ExtractNext in \<open>auto simp: jb_wf_def jb_sorted_bounded_def jb_delay_bounded_def
         Let_def sorted_append\<close>)
next
  case ResetBuffer
  with assms show ?thesis
    by (auto simp: jb_wf_def jb_sorted_bounded_def jb_delay_bounded_def JitterBuffer_Reset_def Let_def)
qed

lemma run_wf:
  "jb_run srt ops jb = Some (outs, jb') \<Longrightarrow> jb_wf jb \<Longrightarrow> jb_wf jb'"
proof (induction ops arbitrary: jb outs)
  case (Cons op ops)
  then show ?case by (auto simp: bind_eq_Some_conv dest: step_wf split: prod.splits)
qed simp

lemma step_conserves:
  assumes "jb_step srt op jb = Some (out, jb')"
  shows "mset out + mset (map bi_packet (jb_buffer jb'))
           \<subseteq># mset (inserted_packets [op]) + mset (map bi_packet (jb_buffer jb))"
proof (cases op)
  case (InsertAt now p)
  with assms show ?thesis by (auto simp: bind_eq_Some_conv dest: insert_mset(1))
next
  case ExtractNext
  show ?thesis
    by (rule Extract_cases[of jb]) (use assms ExtractNext in auto)
next
  case ResetBuffer
  with assms show ?thesis by (auto simp: JitterBuffer_Reset_def)
qed

lemma inserted_packets_Cons: "inserted_packets (op # ops) = inserted_packets [op] @ inserted_packets ops"
  by (cases op) simp_all

lemma run_conserves:
  "jb_run srt ops jb = Some (outs, jb') \<Longrightarrow>
   mset outs + mset (map bi_packet (jb_buffer jb'))
     \<subseteq># mset (inserted_packets ops) + mset (map bi_packet (jb_buffer jb))"
proof (induction ops arbitrary: jb outs)
  case (Cons op ops)
  from Cons.prems obtain o1 jb1 o2 where
    s: "jb_step srt op jb = Some (o1, jb1)" "jb_run srt ops jb1 = Some (o2, jb')" "outs = o1 @ o2"
    by (auto simp: bind_eq_Some_conv split: prod.splits)
  have a: "A + (B + C) \<subseteq># (D + E) + F" if "A + G \<subseteq># D + F" "B + C \<subseteq># E + G"
    for A B C D E F G :: "rtp_packet multiset"
  proof -
    from subset_mset.add_mono[OF that] have "(A + (B + C)) + G \<subseteq># ((D + E) + F) + G"
      by (simp add: ac_simps)
    then show ?thesis by (rule mset_subset_eq_mono_add_right_cancel[THEN iffD1])
  qed
  have "mset o1 + (mset o2 + mset (map bi_packet (jb_buffer jb')))
     \<subseteq># (mset (inserted_packets [op]) + mset (inserted_packets ops)) + mset (map bi_packet (jb_buffer jb))"
    by (rule a[OF step_conserves[OF s(1)] Cons.IH[OF s(2)]])
  then show ?case
    using s(3) by (subst inserted_packets_Cons) (simp add: add.assoc)
qed simp

end

section \<open>The jitter estimate\<close>

lemma sint_of_int_small: "- (2 ^ 31) \<le> k \<Longrightarrow> k < 2 ^ 31 \<Longrightarrow> sint (of_int k :: u32) = k"
  by (simp add: signed_take_bit_int_eq_self signed_of_int)

text \<open>
  A clock reading below \<open>2^30\<close> milliseconds (twelve days of uptime) and a sample rate of at least
  4000 keep every intermediate value of the estimate inside 32 bits.
\<close>

definition clock_ok :: "jitter_buffer_config \<Rightarrow> time_ns \<Rightarrow> bool" where
  "clock_ok c now \<longleftrightarrow> 4000 \<le> unat (jc_sample_rate c) \<and> 0 \<le> now \<and> now < 2 ^ 30 * 1000000"

definition transit_ok :: "jitter_buffer \<Rightarrow> bool" where
  "transit_ok jb \<longleftrightarrow> \<bar>sint (jb_last_transit jb)\<bar> < 2 ^ 30"

lemma to_ms_bounds:
  assumes "0 \<le> t" "t < 2 ^ 30 * 1000000"
  shows "0 \<le> to_ms t" "to_ms t < 2 ^ 30"
  using assms by (cases "t = 0"; simp add: to_ms_def signed_divide_int_def sgn_1_pos div_less_iff_less_mult)+

lemma rtp_ms_bounds:
  assumes "4000 \<le> unat rate"
  shows "rtp_ms rate ts = int (unat ts * 1000 div unat rate)" "rtp_ms rate ts < 2 ^ 30"
proof -
  have "unat ts < 2 ^ 32" using unsigned_less[of ts] by simp
  then have "unat ts * 1000 < 2 ^ 30 * 4000" by simp
  also have "(2 :: nat) ^ 30 * 4000 \<le> 2 ^ 30 * unat rate" using assms by simp
  finally have b: "unat ts * 1000 div unat rate < 2 ^ 30"
    using assms by (simp add: div_less_iff_less_mult)
  then show eq: "rtp_ms rate ts = int (unat ts * 1000 div unat rate)"
    using sint_of_int_small[of "int (unat ts * 1000 div unat rate)"] by (simp add: rtp_ms_def)
  from b have "int (unat ts * 1000 div unat rate) < int (2 ^ 30)" by (simp only: of_nat_less_iff)
  then show "rtp_ms rate ts < 2 ^ 30" using eq by simp
qed

text \<open>The transit time of RFC 3550, in milliseconds, and the difference of two of them.\<close>

definition transit_ms :: "jitter_buffer_config \<Rightarrow> time_ns \<Rightarrow> rtp_packet \<Rightarrow> int" where
  "transit_ms c now p = to_ms now - int (unat (Timestamp p) * 1000 div unat (jc_sample_rate c))"

lemma CalculateJitter_eq:
  fixes jb :: jitter_buffer and p :: rtp_packet
  assumes "clock_ok (jb_config jb) now" "transit_ok jb" "jb_jitter_initialized jb"
  defines "t \<equiv> transit_ms (jb_config jb) now p"
  defines "j \<equiv> jb_transit_jitter jb
     + (of_int \<bar>t - sint (jb_last_transit jb)\<bar> - jb_transit_jitter jb) div 16"
  shows "CalculateJitter p now jb =
      Some (jb\<lparr>jb_transit_jitter := j, jb_last_transit := of_int t, jb_current_jitter_ms := j\<rparr>)"
    and "\<bar>t\<bar> < 2 ^ 30"
proof -
  let ?rate = "jc_sample_rate (jb_config jb)"
  from assms(1) have r: "4000 \<le> unat ?rate" by (simp add: clock_ok_def)
  from assms(1) have m: "0 \<le> to_ms now" "to_ms now < 2 ^ 30"
    using to_ms_bounds by (simp_all add: clock_ok_def)
  note x = rtp_ms_bounds[OF r, of "Timestamp p"]
  have t: "t = to_ms now - rtp_ms ?rate (Timestamp p)" by (simp add: t_def transit_ms_def x(1))
  have x0: "0 \<le> rtp_ms ?rate (Timestamp p)" by (simp add: x(1))
  from t m x(2) x0 show tb: "\<bar>t\<bar> < 2 ^ 30" by linarith
  have a: "sint (of_int (to_ms now) :: u32) = to_ms now"
    using m by (intro sint_of_int_small) simp_all
  have s1: "int32_sub (to_ms now) (rtp_ms ?rate (Timestamp p)) = Some t"
    using tb by (simp add: int32_sub_def t abs_less_iff)
  have l: "\<bar>sint (jb_last_transit jb)\<bar> < 2 ^ 30" using assms(2) by (simp add: transit_ok_def)
  have s2: "int32_sub t (sint (jb_last_transit jb)) = Some (t - sint (jb_last_transit jb))"
    using tb l by (simp add: int32_sub_def abs_less_iff)
  have s3: "int32_abs (t - sint (jb_last_transit jb)) = Some \<bar>t - sint (jb_last_transit jb)\<bar>"
    using tb l by (simp add: int32_abs_def abs_less_iff)
  have "?rate \<noteq> 0" using r by auto
  then show "CalculateJitter p now jb =
      Some (jb\<lparr>jb_transit_jitter := j, jb_last_transit := of_int t, jb_current_jitter_ms := j\<rparr>)"
    by (simp add: CalculateJitter_def Let_def assms(3) a s1 s2 s3 j_def del: of_int_diff of_int_abs)
qed

lemma CalculateJitter_defined:
  assumes "clock_ok (jb_config jb) now" "transit_ok jb"
  obtains jb' where "CalculateJitter p now jb = Some jb'" "transit_ok jb'"
proof (cases "jb_jitter_initialized jb")
  case True
  note e = CalculateJitter_eq[OF assms True, of p]
  show thesis
    by (rule that[OF e(1)]) (use e(2) in \<open>simp add: transit_ok_def sint_of_int_small abs_less_iff\<close>)
next
  case False
  then show thesis by (intro that) (auto simp: CalculateJitter_def Let_def transit_ok_def)
qed

lemma Insert_defined:
  assumes "clock_ok (jb_config jb) now" "transit_ok jb"
  obtains jb' where "JitterBuffer_Insert srt now p jb = Some (True, jb')" "transit_ok jb'"
proof -
  obtain jb1 where c: "CalculateJitter p now jb = Some jb1" "transit_ok jb1"
    using CalculateJitter_defined[OF assms] .
  then obtain jb' where i: "JitterBuffer_Insert srt now p jb = Some (True, jb')"
    by (auto simp: JitterBuffer_Insert_def Let_def drop_excess_eq)
  from i c(1) have "jb_last_transit jb' = jb_last_transit jb1" by (auto elim!: Insert_unfold)
  with i c(2) that show thesis by (auto simp: transit_ok_def)
qed

text \<open>The word arithmetic of the update, over the naturals.\<close>

lemma jitter_update_nat:
  fixes j d :: u32
  shows "unat (j + (d - j) div 16) =
    (if unat j \<le> unat d then unat j + (unat d - unat j) div 16
     else (unat j + (2 ^ 32 - (unat j - unat d)) div 16) mod 2 ^ 32)"
proof (cases "j \<le> d")
  case True
  then have "unat ((d - j) div 16) = (unat d - unat j) div 16"
    by (simp add: unat_div unat_sub)
  moreover have "unat j + (unat d - unat j) div 16 < 2 ^ 32"
  proof -
    have "unat j + (unat d - unat j) div 16 \<le> unat d"
      using True by (simp add: word_le_nat_alt)
    also have "unat d < 2 ^ 32" using unsigned_less[of d] by simp
    finally show ?thesis .
  qed
  ultimately show ?thesis using True by (simp add: unat_word_ariths word_le_nat_alt)
next
  case False
  then have lt: "unat d < unat j" by (simp add: word_le_nat_alt not_le)
  have "unat (d - j) = 2 ^ 32 - (unat j - unat d)"
    using lt by (simp add: unat_sub_if_size word_le_nat_alt word_size)
  then have "unat ((d - j) div 16) = (2 ^ 32 - (unat j - unat d)) div 16"
    by (simp add: unat_div)
  with lt show ?thesis by (simp add: unat_word_ariths)
qed

section \<open>Counting losses\<close>

text \<open>
  A stream without reordering: packet \<open>i\<close> carries the sequence number \<open>base + k\<close>, the offsets \<open>k\<close>
  increase, and no hole is longer than 99 packets (the code ignores longer ones).
\<close>

fun in_order_from :: "nat \<Rightarrow> nat list \<Rightarrow> bool" where
  "in_order_from e [] = True"
| "in_order_from e (k # ks) = (e \<le> k \<and> k < e + 100 \<and> in_order_from (k + 1) ks)"

fun holes :: "nat \<Rightarrow> nat list \<Rightarrow> nat" where
  "holes e [] = 0"
| "holes e (k # ks) = (k - e) + holes (k + 1) ks"

lemma holes_eq: "in_order_from e ks \<Longrightarrow> holes e ks + e + length ks = (if ks = [] then e else last ks + 1)"
  by (induction e ks rule: in_order_from.induct) (auto split: if_splits)

lemma track_seq_in_order:
  assumes "jb_initialized jb" "jb_expected_seq jb = base + of_nat e" "e \<le> k" "k < e + 100"
  shows "jb_packets_lost (track_seq (base + of_nat k) jb) = jb_packets_lost jb + of_nat (k - e)"
    "jb_expected_seq (track_seq (base + of_nat k) jb) = base + of_nat (k + 1)"
    "jb_initialized (track_seq (base + of_nat k) jb)"
proof -
  define g where "g = k - e"
  have g: "k = e + g" "g < 100" using assms(3,4) by (simp_all add: g_def)
  have gap: "base + of_nat k - jb_expected_seq jb = (of_nat g :: u16)"
    by (simp add: assms(2) g(1))
  have u: "unat (of_nat g :: u16) = g" using g(2) by (simp add: unat_of_nat_small)
  have s: "0 \<le> sint (of_nat g :: u16)"
  proof -
    have "sint (of_nat g :: u16) = int g"
      using g(2) by (simp add: signed_of_nat signed_take_bit_int_eq_self)
    then show ?thesis by simp
  qed
  have "(0 :: u16) < of_nat g \<longleftrightarrow> 0 < g" "(of_nat g :: u16) < 100 \<longleftrightarrow> g < 100"
    by (simp_all add: word_less_nat_alt u)
  moreover have "ucast (of_nat g :: u16) = (of_nat g :: u32)"
    using u by (metis of_nat_unat)
  ultimately have "jb_packets_lost (track_seq (base + of_nat k) jb) = jb_packets_lost jb + of_nat g"
    using g(2) assms(1) s by (auto simp: track_seq_def Let_def gap)
  then show "jb_packets_lost (track_seq (base + of_nat k) jb) = jb_packets_lost jb + of_nat (k - e)"
    by (simp only: g_def)
  show "jb_expected_seq (track_seq (base + of_nat k) jb) = base + of_nat (k + 1)"
    "jb_initialized (track_seq (base + of_nat k) jb)"
    using assms(1) s by (simp_all add: track_seq_def Let_def gap)
qed

lemma track_seq_first:
  assumes "\<not> jb_initialized jb"
  shows "jb_packets_lost (track_seq s jb) = jb_packets_lost jb"
    "jb_expected_seq (track_seq s jb) = s + 1" "jb_initialized (track_seq s jb)"
  using assms by (simp_all add: track_seq_def Let_def)

definition insert_op :: "time_ns \<times> rtp_packet \<Rightarrow> jb_op" where
  "insert_op tp = InsertAt (fst tp) (snd tp)"

context seq_sorter
begin

lemma insert_effect:
  assumes "clock_ok (jb_config jb) now" "transit_ok jb" "length (jb_buffer jb) < kMaxBufferSize"
  obtains jb' jb1 where "JitterBuffer_Insert srt now p jb = Some (True, jb')" "transit_ok jb'"
    "jb_config jb' = jb_config jb" "length (jb_buffer jb') = Suc (length (jb_buffer jb))"
    "jb_packets_lost jb1 = jb_packets_lost jb" "jb_expected_seq jb1 = jb_expected_seq jb"
    "jb_initialized jb1 = jb_initialized jb"
    "jb_packets_lost jb' = jb_packets_lost (track_seq (Sequence p) jb1)"
    "jb_expected_seq jb' = jb_expected_seq (track_seq (Sequence p) jb1)"
    "jb_initialized jb' = jb_initialized (track_seq (Sequence p) jb1)"
proof -
  obtain jb' where i: "JitterBuffer_Insert srt now p jb = Some (True, jb')" "transit_ok jb'"
    using Insert_defined[OF assms(1,2)] .
  from i(1) obtain jb1 where c: "CalculateJitter p now jb = Some jb1"
    and u: "jb_config jb' = jb_config jb"
      "jb_packets_lost jb' = jb_packets_lost (track_seq (Sequence p) jb1)
       + of_nat (length (srt (jb_buffer jb @ [\<lparr>bi_packet = p, bi_arrival_time = now, bi_ready = False\<rparr>]))
                  - kMaxBufferSize)"
      "jb_expected_seq jb' = jb_expected_seq (track_seq (Sequence p) jb1)"
      "jb_initialized jb' = jb_initialized (track_seq (Sequence p) jb1)"
    by (rule Insert_unfold)
  have "length (jb_buffer jb') = Suc (length (jb_buffer jb))"
    using insert_mset(2)[OF i(1) assms(3)] by (metis length_map size_add_mset size_mset)
  with i u assms(3) CalculateJitter_frame[OF c] show thesis
    by (intro that[of jb' jb1]) (simp_all add: srt_length)
qed

lemma losses_loop:
  assumes "jb_initialized jb" "jb_expected_seq jb = base + of_nat e" "transit_ok jb"
    "\<forall>tp \<in> set ps. clock_ok (jb_config jb) (fst tp)"
    "length (jb_buffer jb) + length ps \<le> kMaxBufferSize"
    "map (\<lambda>tp. Sequence (snd tp)) ps = map (\<lambda>k. base + of_nat k) ks" "in_order_from e ks"
  shows "\<exists>jb'. jb_run srt (map insert_op ps) jb = Some ([], jb') \<and>
     jb_packets_lost jb' = jb_packets_lost jb + of_nat (holes e ks)"
  using assms
proof (induction ps arbitrary: jb e ks)
  case (Cons tp ps)
  obtain t p where tp: "tp = (t, p)" by (cases tp)
  from Cons.prems(6) tp obtain k ks' where ks: "ks = k # ks'" "Sequence p = base + of_nat k"
    "map (\<lambda>tp. Sequence (snd tp)) ps = map (\<lambda>k. base + of_nat k) ks'"
    by (cases ks) auto
  from Cons.prems tp have a: "clock_ok (jb_config jb) t" "length (jb_buffer jb) < kMaxBufferSize"
    by simp_all
  obtain jb' jb1 where i: "JitterBuffer_Insert srt t p jb = Some (True, jb')" "transit_ok jb'"
    "jb_config jb' = jb_config jb" "length (jb_buffer jb') = Suc (length (jb_buffer jb))"
    "jb_packets_lost jb1 = jb_packets_lost jb" "jb_expected_seq jb1 = jb_expected_seq jb"
    "jb_initialized jb1 = jb_initialized jb"
    "jb_packets_lost jb' = jb_packets_lost (track_seq (Sequence p) jb1)"
    "jb_expected_seq jb' = jb_expected_seq (track_seq (Sequence p) jb1)"
    "jb_initialized jb' = jb_initialized (track_seq (Sequence p) jb1)"
    using insert_effect[OF a(1) Cons.prems(3) a(2)] .
  from Cons.prems(1,2,7) ks i(6,7) have
    "jb_initialized jb1" "jb_expected_seq jb1 = base + of_nat e" "e \<le> k" "k < e + 100" "in_order_from (k + 1) ks'"
    by simp_all
  note s = track_seq_in_order[OF this(1-4)] and o = this(5)
  have "\<exists>jb''. jb_run srt (map insert_op ps) jb' = Some ([], jb'') \<and>
     jb_packets_lost jb'' = jb_packets_lost jb' + of_nat (holes (k + 1) ks')"
    by (rule Cons.IH) (use Cons.prems i s o ks in simp_all)
  then obtain jb'' where r: "jb_run srt (map insert_op ps) jb' = Some ([], jb'')"
    "jb_packets_lost jb'' = jb_packets_lost jb' + of_nat (holes (k + 1) ks')" by blast
  have op: "insert_op tp = InsertAt t p" by (simp add: tp insert_op_def)
  show ?case
    by (rule exI[of _ jb'']) (use i(1,5,8) s(1) r ks in \<open>simp add: op\<close>)
qed simp

lemma losses_from_new:
  assumes "\<forall>tp \<in> set ps. clock_ok c (fst tp)" "length ps \<le> kMaxBufferSize"
    "map (\<lambda>tp. Sequence (snd tp)) ps = map (\<lambda>k. base + of_nat k) (0 # ks)" "in_order_from 1 ks"
  shows "\<exists>jb. jb_run srt (map insert_op ps) (JitterBuffer_new c) = Some ([], jb) \<and>
     jb_packets_lost jb = of_nat (last (0 # ks) + 1 - length ps)"
proof -
  let ?jb = "JitterBuffer_new c"
  from assms(3) obtain t p ps' where ps: "ps = (t, p) # ps'" "Sequence p = base"
    "map (\<lambda>tp. Sequence (snd tp)) ps' = map (\<lambda>k. base + of_nat k) ks"
    by (cases ps) auto
  have n: "jb_config ?jb = c" "jb_buffer ?jb = []" "\<not> jb_initialized ?jb" "transit_ok ?jb"
    "jb_packets_lost ?jb = 0"
    by (simp_all add: JitterBuffer_new_def transit_ok_def)
  from assms(1) ps n have a: "clock_ok (jb_config ?jb) t" "length (jb_buffer ?jb) < kMaxBufferSize"
    by simp_all
  obtain jb' jb1 where i: "JitterBuffer_Insert srt t p ?jb = Some (True, jb')" "transit_ok jb'"
    "jb_config jb' = jb_config ?jb" "length (jb_buffer jb') = Suc (length (jb_buffer ?jb))"
    "jb_packets_lost jb1 = jb_packets_lost ?jb" "jb_expected_seq jb1 = jb_expected_seq ?jb"
    "jb_initialized jb1 = jb_initialized ?jb"
    "jb_packets_lost jb' = jb_packets_lost (track_seq (Sequence p) jb1)"
    "jb_expected_seq jb' = jb_expected_seq (track_seq (Sequence p) jb1)"
    "jb_initialized jb' = jb_initialized (track_seq (Sequence p) jb1)"
    using insert_effect[OF a(1) n(4) a(2)] .
  note s = track_seq_first[of jb1 base]
  have "\<exists>jb''. jb_run srt (map insert_op ps') jb' = Some ([], jb'') \<and>
     jb_packets_lost jb'' = jb_packets_lost jb' + of_nat (holes 1 ks)"
    by (rule losses_loop[where base = base and ks = ks and e = 1])
      (use assms ps n i s in \<open>simp_all\<close>)
  moreover have "length ps' = length ks" using ps(3) by (metis length_map)
  moreover have "holes 1 ks = last (0 # ks) - length ks"
    using holes_eq[OF assms(4)] by (cases ks) simp_all
  ultimately obtain jb'' where r: "jb_run srt (map insert_op ps') jb' = Some ([], jb'')"
    "jb_packets_lost jb'' = jb_packets_lost jb' + of_nat (last (0 # ks) - length ps')" by auto
  have op: "insert_op (t, p) = InsertAt t p" by (simp add: insert_op_def)
  show ?thesis
    by (rule exI[of _ jb'']) (use i(1,5,7,8) s(1) r ps n in \<open>simp add: op\<close>)
qed

end

section \<open>Properties\<close>

lemma step_config: "jb_step srt op jb = Some (out, jb') \<Longrightarrow> jb_config jb' = jb_config jb"
proof (cases op)
  case (InsertAt now p)
  moreover assume "jb_step srt op jb = Some (out, jb')"
  ultimately show ?thesis by (auto simp: bind_eq_Some_conv elim!: Insert_unfold)
next
  case ExtractNext
  moreover assume "jb_step srt op jb = Some (out, jb')"
  ultimately show ?thesis by (auto simp: JitterBuffer_Extract_def split: option.splits prod.splits)
next
  case ResetBuffer
  moreover assume "jb_step srt op jb = Some (out, jb')"
  ultimately show ?thesis by (auto simp: JitterBuffer_Reset_def)
qed

lemma run_config: "jb_run srt ops jb = Some (outs, jb') \<Longrightarrow> jb_config jb' = jb_config jb"
  by (induction ops arbitrary: jb outs)
    (auto simp: bind_eq_Some_conv dest: step_config split: prod.splits)

lemma JitterBuffer_new_frame [simp]:
  "jb_config (JitterBuffer_new c) = c" "jb_buffer (JitterBuffer_new c) = []"
  "jb_current_delay_ms (JitterBuffer_new c) = jc_initial_delay_ms c"
  by (simp_all add: JitterBuffer_new_def)

lemma new_wf:
  assumes "5 \<le> jc_min_delay_ms c" "jc_min_delay_ms c \<le> jc_max_delay_ms c"
    "jc_initial_delay_ms c \<le> jc_max_delay_ms c" "jc_max_delay_ms c \<le> 0xFFFFFFF5"
  shows "jb_wf (JitterBuffer_new c)"
  using assms by (simp add: jb_wf_def jb_sorted_bounded_def jb_delay_bounded_def Let_def)

text \<open>A concrete run for the witnesses: with no initial delay, the packets 7 and 5 and an extraction.\<close>

definition sample_packet :: "u16 \<Rightarrow> rtp_packet" where
  "sample_packet s = RtpPacket_Build 0 s 160 1 False [1, 2]"

definition sample_config :: jitter_buffer_config where
  "sample_config = default_jitter_config\<lparr>jc_initial_delay_ms := 0\<rparr>"

definition sample_ops :: "jb_op list" where
  "sample_ops = [InsertAt 0 (sample_packet 7), InsertAt 0 (sample_packet 5), ExtractNext]"

lemma sample_packet_fields [simp]:
  "Sequence (sample_packet s) = s" "Timestamp (sample_packet s) = 160"
  by (simp_all add: sample_packet_def)

lemma sample_config_fields [simp]:
  "jc_min_delay_ms sample_config = 20" "jc_max_delay_ms sample_config = 200"
  "jc_initial_delay_ms sample_config = 0" "jc_sample_rate sample_config = 8000"
  by (simp_all add: sample_config_def default_jitter_config_def kJitterBufferMaxMs_def
      kJitterBufferMinMs_def)

definition sample_jb :: jitter_buffer where
  "sample_jb = (JitterBuffer_new sample_config)\<lparr>jb_jitter_initialized := True,
     jb_initialized := True, jb_expected_seq := 8, jb_packets_inserted := 1,
     jb_buffer := [\<lparr>bi_packet = sample_packet 7, bi_arrival_time = 0, bi_ready = True\<rparr>]\<rparr>"

lemmas jb_stage_defs = SortBuffer_def mark_ready_def mark_item_def adapt_delay_def
  GetBufferDepthMs_def to_ms_def JitterBuffer_new_def drop_excess_eq item_seq_def

lemma sample_first:
  "JitterBuffer_Insert (sort_key item_seq) 0 (sample_packet 7) (JitterBuffer_new sample_config)
     = Some (True, sample_jb)"
proof -
  have "CalculateJitter (sample_packet 7) 0 (JitterBuffer_new sample_config) =
     Some ((JitterBuffer_new sample_config)\<lparr>jb_jitter_initialized := True\<rparr>)"
    by (simp add: CalculateJitter_def JitterBuffer_new_def)
  moreover have "track_seq 7 ((JitterBuffer_new sample_config)\<lparr>jb_jitter_initialized := True\<rparr>) =
     (JitterBuffer_new sample_config)\<lparr>jb_jitter_initialized := True, jb_initialized := True,
        jb_expected_seq := 8\<rparr>"
    by (simp add: track_seq_def JitterBuffer_new_def)
  ultimately show ?thesis
    by (simp add: JitterBuffer_Insert_def sample_jb_def jb_stage_defs)
qed

lemma sample_second:
  "\<exists>jb. JitterBuffer_Insert (sort_key item_seq) 0 (sample_packet 5) sample_jb = Some (True, jb) \<and>
     jb_buffer jb = [\<lparr>bi_packet = sample_packet 5, bi_arrival_time = 0, bi_ready = True\<rparr>,
                     \<lparr>bi_packet = sample_packet 7, bi_arrival_time = 0, bi_ready = True\<rparr>]"
proof -
  let ?jb = "sample_jb\<lparr>jb_transit_jitter := 1, jb_last_transit := - 20, jb_current_jitter_ms := 1\<rparr>"
  have "CalculateJitter (sample_packet 5) 0 sample_jb = Some ?jb"
    by (simp add: CalculateJitter_def sample_jb_def JitterBuffer_new_def to_ms_def rtp_ms_def
        int32_sub_def int32_abs_def)
  moreover have "track_seq 5 ?jb = ?jb"
    by (simp add: track_seq_def sample_jb_def JitterBuffer_new_def)
  ultimately show ?thesis
    by (simp add: JitterBuffer_Insert_def sample_jb_def jb_stage_defs)
qed

lemma sample_run:
  "\<exists>jb. jb_run (sort_key item_seq) sample_ops (JitterBuffer_new sample_config)
     = Some ([sample_packet 5], jb) \<and> map item_seq (jb_buffer jb) = [7]"
proof -
  obtain jb where "JitterBuffer_Insert (sort_key item_seq) 0 (sample_packet 5) sample_jb = Some (True, jb)"
    "jb_buffer jb = [\<lparr>bi_packet = sample_packet 5, bi_arrival_time = 0, bi_ready = True\<rparr>,
                     \<lparr>bi_packet = sample_packet 7, bi_arrival_time = 0, bi_ready = True\<rparr>]"
    using sample_second by blast
  then show ?thesis
    by (simp add: sample_ops_def sample_first JitterBuffer_Extract_def item_seq_def)
qed

text \<open>
  Property C15. The invariant of every run: whatever operations are performed on a new buffer whose
  configured delays are sensible (a minimum of at least 5 ms, a maximum that does not wrap), the
  buffer is sorted by sequence number, holds at most 500 packets, and its play-out delay never
  exceeds the configured maximum.
\<close>

theorem JitterBuffer_run_invariant:
  assumes "seq_sorter srt" "5 \<le> jc_min_delay_ms c" "jc_min_delay_ms c \<le> jc_max_delay_ms c"
    "jc_initial_delay_ms c \<le> jc_max_delay_ms c" "jc_max_delay_ms c \<le> 0xFFFFFFF5"
    "jb_run srt ops (JitterBuffer_new c) = Some (outs, jb)"
  shows "sorted (map item_seq (jb_buffer jb)) \<and> length (jb_buffer jb) \<le> 500 \<and>
    jb_current_delay_ms jb \<le> jc_max_delay_ms c"
proof -
  have "jb_wf jb" using seq_sorter.run_wf[OF assms(1,6)] new_wf[OF assms(2-5)] by blast
  then show ?thesis
    using run_config[OF assms(6)]
    by (simp add: jb_wf_def jb_sorted_bounded_def jb_delay_bounded_def Let_def)
qed

theorem JitterBuffer_run_invariant_witness:
  "\<exists>jb. jb_run (sort_key item_seq) sample_ops (JitterBuffer_new sample_config)
      = Some ([sample_packet 5], jb) \<and> sorted (map item_seq (jb_buffer jb)) \<and>
    length (jb_buffer jb) \<le> 500 \<and> jb_current_delay_ms jb \<le> 200"
proof -
  obtain jb where r: "jb_run (sort_key item_seq) sample_ops (JitterBuffer_new sample_config)
    = Some ([sample_packet 5], jb)" using sample_run by blast
  from JitterBuffer_run_invariant[OF stable_sorter.seq_sorter_axioms _ _ _ _ r] r show ?thesis
    by simp
qed

lemma unat_of_int_small: "0 \<le> k \<Longrightarrow> k < 2 ^ 32 \<Longrightarrow> unat (of_int k :: u32) = nat k"
  by (simp add: unat_eq_nat_uint uint_word_of_int)

text \<open>
  Nothing is delivered twice and nothing is made up: in every run, the packets extracted
  together with those still buffered are, counted with multiplicity, among the packets inserted.
\<close>

theorem JitterBuffer_delivers_inserted:
  assumes "seq_sorter srt" "jb_run srt ops (JitterBuffer_new c) = Some (outs, jb)"
  shows "mset outs + mset (map bi_packet (jb_buffer jb)) \<subseteq># mset (inserted_packets ops)"
  using seq_sorter.run_conserves[OF assms] by simp

theorem JitterBuffer_delivers_inserted_witness:
  "\<exists>jb :: jitter_buffer. mset [sample_packet 5] + mset (map bi_packet (jb_buffer jb))
      \<subseteq># {#sample_packet 7, sample_packet 5#} \<and> map item_seq (jb_buffer jb) = [7]"
proof -
  obtain jb where r: "jb_run (sort_key item_seq) sample_ops (JitterBuffer_new sample_config)
    = Some ([sample_packet 5], jb)" "map item_seq (jb_buffer jb) = [7]"
    using sample_run by (elim exE conjE) (rule that)
  have "inserted_packets sample_ops = [sample_packet 7, sample_packet 5]" by (simp add: sample_ops_def)
  with JitterBuffer_delivers_inserted[OF stable_sorter.seq_sorter_axioms r(1)]
  have "mset [sample_packet 5] + mset (map bi_packet (jb_buffer jb))
      \<subseteq># {#sample_packet 7, sample_packet 5#}" by (simp only: mset.simps add_mset_commute)
  with r(2) show ?thesis by (intro exI[of _ jb] conjI)
qed

text \<open>
  What \<open>Extract\<close> returns after any run of operations: nothing, and the buffer unchanged,
  when no packet is ready; otherwise a ready packet whose sequence number is the least of all ready
  ones, which is the only item removed.
\<close>

theorem JitterBuffer_Extract_least_ready:
  assumes "seq_sorter srt" "5 \<le> jc_min_delay_ms c" "jc_min_delay_ms c \<le> jc_max_delay_ms c"
    "jc_initial_delay_ms c \<le> jc_max_delay_ms c" "jc_max_delay_ms c \<le> 0xFFFFFFF5"
    "jb_run srt ops (JitterBuffer_new c) = Some (outs, jb)"
  shows "case JitterBuffer_Extract jb of
      (None, jb') \<Rightarrow> jb' = jb \<and> filter bi_ready (jb_buffer jb) = []
    | (Some p, jb') \<Rightarrow> \<exists>b. bi_ready b \<and> bi_packet b = p \<and>
        mset (jb_buffer jb) = add_mset b (mset (jb_buffer jb')) \<and>
        list_all (\<lambda>b'. Sequence p \<le> item_seq b') (filter bi_ready (jb_buffer jb')) \<and>
        jb_packets_extracted jb' = jb_packets_extracted jb + 1"
proof -
  have "jb_wf jb" using seq_sorter.run_wf[OF assms(1,6)] new_wf[OF assms(2-5)] by blast
  then have s: "sorted (map item_seq (jb_buffer jb))" by (simp add: jb_wf_def jb_sorted_bounded_def)
  show ?thesis
  proof (rule Extract_cases[of jb])
    fix xs b ys
    assume b: "jb_buffer jb = xs @ b # ys" "bi_ready b" "\<forall>x \<in> set xs. \<not> bi_ready x"
      and e: "JitterBuffer_Extract jb = (Some (bi_packet b),
         jb\<lparr>jb_buffer := xs @ ys, jb_packets_extracted := jb_packets_extracted jb + 1\<rparr>)"
    have "\<forall>y \<in> set ys. item_seq b \<le> item_seq y" using s b(1) by (simp add: sorted_append)
    moreover have "filter bi_ready (xs @ ys) = filter bi_ready ys" using b(3) by (simp add: filter_empty_conv)
    ultimately have "list_all (\<lambda>b'. item_seq b \<le> item_seq b') (filter bi_ready (xs @ ys))"
      by (simp only:) (simp add: list_all_iff)
    then show ?thesis
      unfolding e by (simp add: b(1)) (use b(2) in \<open>auto simp: item_seq_def\<close>)
  qed (simp add: filter_empty_conv)
qed

theorem JitterBuffer_Extract_least_ready_witness:
  "\<exists>jb jb' b. jb_run (sort_key item_seq) (butlast sample_ops) (JitterBuffer_new sample_config) = Some ([], jb) \<and>
    JitterBuffer_Extract jb = (Some (sample_packet 5), jb') \<and> bi_ready b \<and>
    mset (jb_buffer jb) = add_mset b (mset (jb_buffer jb')) \<and>
    list_all (\<lambda>b'. 5 \<le> item_seq b') (filter bi_ready (jb_buffer jb'))"
proof -
  obtain jb where i: "JitterBuffer_Insert (sort_key item_seq) 0 (sample_packet 5) sample_jb = Some (True, jb)"
    "jb_buffer jb = [\<lparr>bi_packet = sample_packet 5, bi_arrival_time = 0, bi_ready = True\<rparr>,
                     \<lparr>bi_packet = sample_packet 7, bi_arrival_time = 0, bi_ready = True\<rparr>]"
    using sample_second by blast
  then have r: "jb_run (sort_key item_seq) (butlast sample_ops) (JitterBuffer_new sample_config) = Some ([], jb)"
    by (simp add: sample_ops_def sample_first)
  obtain jb' where e: "JitterBuffer_Extract jb = (Some (sample_packet 5), jb')"
    by (simp add: JitterBuffer_Extract_def i(2))
  from JitterBuffer_Extract_least_ready[OF stable_sorter.seq_sorter_axioms _ _ _ _ r] e r show ?thesis
    by auto
qed

text \<open>
  Loss accounting: for a stream received in order, whose sequence numbers wrap at
  \<open>2^16\<close> and whose holes are shorter than 100 packets, on a clock below twelve days of uptime, every
  insertion succeeds without undefined arithmetic and the loss counter is the number of sequence
  numbers between the first and the last packet that did not arrive.
\<close>

theorem JitterBuffer_counts_losses:
  assumes "seq_sorter srt" "\<forall>tp \<in> set ps. clock_ok c (fst tp)" "length ps \<le> 500"
    "map (\<lambda>tp. Sequence (snd tp)) ps = map (\<lambda>k. base + of_nat k) (0 # ks)" "in_order_from 1 ks"
  shows "\<exists>jb. jb_run srt (map insert_op ps) (JitterBuffer_new c) = Some ([], jb) \<and>
     jb_packets_lost jb = of_nat (last (0 # ks) + 1 - length ps)"
  by (rule seq_sorter.losses_from_new[OF assms(1,2) _ assms(4,5)]) (simp add: assms(3))

theorem JitterBuffer_counts_losses_witness:
  "\<exists>jb. jb_run (sort_key item_seq)
      (map insert_op [(0, sample_packet 65535), (5, sample_packet 0), (9, sample_packet 4)])
      (JitterBuffer_new sample_config) = Some ([], jb) \<and> jb_packets_lost jb = 3"
  using JitterBuffer_counts_losses[OF stable_sorter.seq_sorter_axioms,
      of "[(0, sample_packet 65535), (5, sample_packet 0), (9, sample_packet 4)]" sample_config
        65535 "[1, 5]"]
  by (simp add: clock_ok_def)

text \<open>
  Property C37. The jitter estimate after one more packet, as a natural number: with \<open>D\<close> the absolute
  difference of the two transit times and \<open>J\<close> the old estimate it is \<open>J + (D - J) div 16\<close>, the filter
  of RFC 3550, as long as \<open>D\<close> has not fallen below \<open>J\<close>. When it has, the unsigned subtraction wraps
  and, for every estimate below \<open>2^31\<close>, the new estimate is at least \<open>2^27\<close> milliseconds.
\<close>

theorem CalculateJitter_estimate:
  assumes "clock_ok (jb_config jb) now" "transit_ok jb" "jb_jitter_initialized jb"
    "D = nat \<bar>transit_ms (jb_config jb) now p - sint (jb_last_transit jb)\<bar>"
    "J = unat (jb_transit_jitter jb)"
  shows "\<exists>jb'. CalculateJitter p now jb = Some jb' \<and>
    (J \<le> D \<longrightarrow> unat (jb_current_jitter_ms jb') = J + (D - J) div 16) \<and>
    (D < J \<and> J < 2 ^ 31 \<longrightarrow> 2 ^ 27 \<le> unat (jb_current_jitter_ms jb'))"
proof -
  note e = CalculateJitter_eq[OF assms(1-3), of p]
  let ?d = "\<bar>transit_ms (jb_config jb) now p - sint (jb_last_transit jb)\<bar>"
  have "?d < 2 ^ 31" using e(2) assms(2) by (simp add: transit_ok_def)
  then have u: "unat (of_int ?d :: u32) = D"
    by (simp add: assms(4) unat_of_int_small)
  have "unat (jb_transit_jitter jb + (of_int ?d - jb_transit_jitter jb) div 16) =
    (if J \<le> D then J + (D - J) div 16 else (J + (2 ^ 32 - (J - D)) div 16) mod 2 ^ 32)"
    by (simp only: jitter_update_nat u assms(5))
  moreover have "2 ^ 27 \<le> (J + (2 ^ 32 - (J - D)) div 16) mod 2 ^ 32" if "D < J" "J < 2 ^ 31"
  proof -
    have "2 ^ 31 \<le> 2 ^ 32 - (J - D)" using that by simp
    then have "2 ^ 31 div 16 \<le> (2 ^ 32 - (J - D)) div 16" by (rule div_le_mono)
    moreover have "(2 ^ 32 - (J - D)) div 16 \<le> 2 ^ 32 div 16" by (rule div_le_mono) simp
    ultimately show ?thesis using that(2) by simp
  qed
  ultimately show ?thesis by (auto simp: e(1))
qed

theorem CalculateJitter_estimate_witness:
  "\<exists>jb'. CalculateJitter (sample_packet 8) 0 sample_jb = Some jb' \<and>
     unat (jb_current_jitter_ms jb') = 1"
proof -
  have f: "jb_config sample_jb = sample_config" "jb_last_transit sample_jb = 0"
    "jb_transit_jitter sample_jb = 0" "jb_jitter_initialized sample_jb"
    by (simp_all add: sample_jb_def JitterBuffer_new_def)
  have t: "transit_ms sample_config 0 (sample_packet 8) = - 20"
    by (simp add: transit_ms_def to_ms_def)
  have "clock_ok (jb_config sample_jb) 0" "transit_ok sample_jb"
    "20 = nat \<bar>transit_ms (jb_config sample_jb) 0 (sample_packet 8) - sint (jb_last_transit sample_jb)\<bar>"
    "0 = unat (jb_transit_jitter sample_jb)"
    by (simp_all add: f t clock_ok_def transit_ok_def)
  from CalculateJitter_estimate[OF this(1,2) f(4) this(3,4)] show ?thesis by auto
qed

text \<open>
  Play-out timing: after an insertion a buffered packet is ready exactly when it has
  waited at least the play-out delay that was in force before it, so with a delay above zero the
  packet just inserted cannot be extracted before another one arrives.
\<close>

theorem JitterBuffer_Insert_readiness:
  assumes "seq_sorter srt" "JitterBuffer_Insert srt now p jb = Some (ok, jb')"
  shows "list_all (\<lambda>b. bi_ready b \<longleftrightarrow>
      jb_current_delay_ms jb \<le> of_int (to_ms (now - bi_arrival_time b))) (jb_buffer jb') \<and>
    (jb_current_delay_ms jb > 0 \<longrightarrow>
      list_all (\<lambda>b. bi_arrival_time b = now \<longrightarrow> \<not> bi_ready b) (jb_buffer jb'))"
proof -
  from assms(2) have "\<exists>n xs. jb_buffer jb' = drop n (map (mark_item now (jb_current_delay_ms jb)) xs)"
    by (rule Insert_unfold) (auto simp: Let_def)
  then obtain n xs where b: "jb_buffer jb' = map (mark_item now (jb_current_delay_ms jb)) (drop n xs)"
    by (auto simp: drop_map)
  show ?thesis
    by (auto simp: b list_all_iff mark_item_def to_ms_def)
qed

theorem JitterBuffer_Insert_readiness_witness:
  "\<exists>jb'. JitterBuffer_Insert (sort_key item_seq) 0 (sample_packet 5) sample_jb = Some (True, jb') \<and>
    list_all (\<lambda>b. bi_ready b \<longleftrightarrow> 0 \<le> (of_int (to_ms (0 - bi_arrival_time b)) :: u32)) (jb_buffer jb')"
proof -
  obtain jb' where i: "JitterBuffer_Insert (sort_key item_seq) 0 (sample_packet 5) sample_jb = Some (True, jb')"
    using sample_second by blast
  have "jb_current_delay_ms sample_jb = 0" by (simp add: sample_jb_def)
  with i JitterBuffer_Insert_readiness[OF stable_sorter.seq_sorter_axioms i] show ?thesis by simp
qed

text \<open>
  Sequence numbers are compared without their wrap-around: packet 0, sent after packet 65535, is
  sorted and extracted before it.
\<close>

lemma wrap_sorted_first:
  assumes "jb_buffer jb = [\<lparr>bi_packet = sample_packet 65535, bi_arrival_time = 0, bi_ready = True\<rparr>,
                   \<lparr>bi_packet = sample_packet 0, bi_arrival_time = 20, bi_ready = True\<rparr>]"
  shows "fst (JitterBuffer_Extract (SortBuffer (sort_key item_seq) jb)) = Some (sample_packet 0)"
  using assms by (simp add: item_seq_def JitterBuffer_Extract_def)

end
