(* ===== verification/Udp_Socket.thy ===== *)
theory Udp_Socket
  imports Prelude
begin

text \<open>
  UDP sockets (\<open>net/udp_socket.h\<close>, \<open>net/udp_socket.cpp\<close>). The object owns a file descriptor. The
  kernel is not modelled: the result of each system call is an argument of the operation that makes
  it, and the calls an operation makes are part of its result. The address conversions
  \<open>inet_addr\<close> and \<open>inet_ntop\<close> are arguments as well. The second half follows the descriptor through
  construction, moves and destruction of sockets as a transition system.
\<close>

section \<open>The socket object\<close>

record sockaddr_in =
  sin_family :: u16
  sin_port :: u16
  sin_addr :: u32

definition zero_sockaddr :: sockaddr_in where
  "zero_sockaddr = \<lparr>sin_family = 0, sin_port = 0, sin_addr = 0\<rparr>"

definition AF_INET :: u16 where "AF_INET = 2"

record udp_socket =
  us_fd :: int
  us_local_addr :: sockaddr_in

definition UdpSocket_new :: udp_socket where
  "UdpSocket_new = \<lparr>us_fd = -1, us_local_addr = zero_sockaddr\<rparr>"

definition IsValid :: "udp_socket \<Rightarrow> bool" where
  "IsValid s \<longleftrightarrow> 0 \<le> us_fd s"

text \<open>\<open>fd\<close> is what \<open>socket(AF_INET, SOCK_DGRAM, 0)\<close> returns.\<close>

definition UdpSocket_Create :: "int \<Rightarrow> udp_socket \<Rightarrow> bool \<times> udp_socket" where
  "UdpSocket_Create fd s = (\<not> fd < 0, s\<lparr>us_fd := fd\<rparr>)"

text \<open>\<open>ret\<close> is what \<open>bind\<close> returns.\<close>

definition UdpSocket_Bind ::
  "(string \<Rightarrow> u32) \<Rightarrow> int \<Rightarrow> u16 \<Rightarrow> string \<Rightarrow> udp_socket \<Rightarrow> bool \<times> udp_socket" where
  "UdpSocket_Bind inet_addr ret port addr s =
     (\<not> ret < 0,
      s\<lparr>us_local_addr := \<lparr>sin_family = AF_INET, sin_port = htons port,
          sin_addr = (if addr = ''0.0.0.0'' then 0 else inet_addr addr)\<rparr>\<rparr>)"

text \<open>\<open>Close\<close>: the descriptor passed to \<open>close\<close>, if any, and the object after it.\<close>

definition UdpSocket_Close :: "udp_socket \<Rightarrow> int option \<times> udp_socket" where
  "UdpSocket_Close s = (if 0 \<le> us_fd s then (Some (us_fd s), s\<lparr>us_fd := -1\<rparr>) else (None, s))"

text \<open>A call of \<open>sendto\<close>: descriptor, data and destination.\<close>

type_synonym datagram_out = "int \<times> bytes \<times> sockaddr_in"

definition UdpSocket_SendTo ::
  "(string \<Rightarrow> u32) \<Rightarrow> int \<Rightarrow> udp_socket \<Rightarrow> bytes \<Rightarrow> string \<Rightarrow> u16 \<Rightarrow> int \<times> datagram_out" where
  "UdpSocket_SendTo inet_addr ret s data dest_addr dest_port =
     (ret, (us_fd s, data, \<lparr>sin_family = AF_INET, sin_port = htons dest_port,
                             sin_addr = inet_addr dest_addr\<rparr>))"

text \<open>
  What \<open>recvfrom\<close> can answer: an error, with whether \<open>errno\<close> says would-block, or a datagram with its
  source, of which the kernel stores at most \<open>buf_len\<close> bytes.
\<close>

datatype recv_outcome = RecvError bool | RecvData bytes sockaddr_in

text \<open>
  \<open>RecvFrom\<close>: the returned count, the bytes in the buffer, and the two output arguments, which keep
  their values when nothing is received.
\<close>

definition UdpSocket_RecvFrom ::
  "(u32 \<Rightarrow> string) \<Rightarrow> recv_outcome \<Rightarrow> nat \<Rightarrow> string \<Rightarrow> u16 \<Rightarrow> int \<times> bytes \<times> string \<times> u16" where
  "UdpSocket_RecvFrom inet_ntop outcome buf_len src_addr src_port =
     (case outcome of
        RecvError again \<Rightarrow> (if again then 0 else -1, [], src_addr, src_port)
      | RecvData data src \<Rightarrow>
          (int (length (take buf_len data)), take buf_len data, inet_ntop (sin_addr src),
           ntohs (sin_port src)))"

text \<open>
  \<open>SetNonBlocking\<close>: \<open>getfl\<close> and \<open>setfl\<close> are the results of the two \<open>fcntl\<close> calls; the second is made
  with the flags given back as the second component.
\<close>

definition O_NONBLOCK :: u32 where "O_NONBLOCK = 0x800"

definition UdpSocket_SetNonBlocking :: "int \<Rightarrow> int \<Rightarrow> bool \<Rightarrow> bool \<times> u32 option" where
  "UdpSocket_SetNonBlocking getfl setfl nonblock =
     (if getfl < 0 then (False, None)
      else (setfl \<ge> 0,
            Some (if nonblock then of_int getfl OR O_NONBLOCK else of_int getfl AND NOT O_NONBLOCK)))"

text \<open>The three option setters all report whether \<open>setsockopt\<close> succeeded.\<close>

definition UdpSocket_SetOption :: "int \<Rightarrow> bool" where
  "UdpSocket_SetOption ret = (ret \<ge> 0)"

definition UdpSocket_GetLocalPort :: "(int \<times> sockaddr_in) \<Rightarrow> u16" where
  "UdpSocket_GetLocalPort r = (case r of (ret, addr) \<Rightarrow> if ret = 0 then ntohs (sin_port addr) else 0)"

text \<open>Moves: construction from another socket, and assignment, which closes the target first.\<close>

definition UdpSocket_move_new :: "udp_socket \<Rightarrow> udp_socket \<times> udp_socket" where
  "UdpSocket_move_new other =
     (\<lparr>us_fd = us_fd other, us_local_addr = us_local_addr other\<rparr>, other\<lparr>us_fd := -1\<rparr>)"

definition UdpSocket_move_assign ::
  "udp_socket \<Rightarrow> udp_socket \<Rightarrow> int option \<times> udp_socket \<times> udp_socket" where
  "UdpSocket_move_assign this other =
     (case UdpSocket_Close this of
        (closed, s) \<Rightarrow>
          (closed, s\<lparr>us_fd := us_fd other, us_local_addr := us_local_addr other\<rparr>, other\<lparr>us_fd := -1\<rparr>))"

lemma SendTo_datagram [simp]:
  "fst (UdpSocket_SendTo inet_addr ret s data a p) = ret"
  "fst (snd (UdpSocket_SendTo inet_addr ret s data a p)) = us_fd s"
  "fst (snd (snd (UdpSocket_SendTo inet_addr ret s data a p))) = data"
  by (simp_all add: UdpSocket_SendTo_def)

section \<open>Descriptor ownership\<close>

text \<open>
  A program's sockets, by address, and the descriptors the process has open. The constructor of the
  transition says which member function runs; the kernel never hands out a descriptor that is open.
\<close>

record socket_world =
  sw_sockets :: "nat \<Rightarrow> udp_socket option"
  sw_open :: "int set"

definition close_fd :: "int option \<Rightarrow> int set \<Rightarrow> int set" where
  "close_fd c fds = (case c of None \<Rightarrow> fds | Some fd \<Rightarrow> fds - {fd})"

inductive socket_step :: "socket_world \<Rightarrow> socket_world \<Rightarrow> bool" where
  construct: "sw_sockets w i = None \<Longrightarrow>
     socket_step w (w\<lparr>sw_sockets := (sw_sockets w)(i \<mapsto> UdpSocket_new)\<rparr>)"
| create: "sw_sockets w i = Some s \<Longrightarrow> us_fd s < 0 \<Longrightarrow> fd < 0 \<or> fd \<notin> sw_open w \<Longrightarrow>
     UdpSocket_Create fd s = (ok, s') \<Longrightarrow>
     socket_step w (w\<lparr>sw_sockets := (sw_sockets w)(i \<mapsto> s'),
                      sw_open := (if ok then insert fd (sw_open w) else sw_open w)\<rparr>)"
| bind: "sw_sockets w i = Some s \<Longrightarrow> UdpSocket_Bind ia ret port addr s = (ok, s') \<Longrightarrow>
     socket_step w (w\<lparr>sw_sockets := (sw_sockets w)(i \<mapsto> s')\<rparr>)"
| close: "sw_sockets w i = Some s \<Longrightarrow> UdpSocket_Close s = (c, s') \<Longrightarrow>
     socket_step w (w\<lparr>sw_sockets := (sw_sockets w)(i \<mapsto> s'), sw_open := close_fd c (sw_open w)\<rparr>)"
| destroy: "sw_sockets w i = Some s \<Longrightarrow> UdpSocket_Close s = (c, s') \<Longrightarrow>
     socket_step w (w\<lparr>sw_sockets := (sw_sockets w)(i := None), sw_open := close_fd c (sw_open w)\<rparr>)"
| move_new: "sw_sockets w i = Some s \<Longrightarrow> sw_sockets w j = None \<Longrightarrow>
     UdpSocket_move_new s = (t, s') \<Longrightarrow>
     socket_step w (w\<lparr>sw_sockets := (sw_sockets w)(i \<mapsto> s', j \<mapsto> t)\<rparr>)"
| move_assign: "sw_sockets w i = Some s \<Longrightarrow> sw_sockets w j = Some t \<Longrightarrow> i \<noteq> j \<Longrightarrow>
     UdpSocket_move_assign t s = (c, t', s') \<Longrightarrow>
     socket_step w (w\<lparr>sw_sockets := (sw_sockets w)(i \<mapsto> s', j \<mapsto> t'),
                      sw_open := close_fd c (sw_open w)\<rparr>)"

inductive socket_reachable :: "socket_world \<Rightarrow> bool" where
  start: "socket_reachable \<lparr>sw_sockets = (\<lambda>_. None), sw_open = {}\<rparr>"
| step: "socket_reachable w \<Longrightarrow> socket_step w w' \<Longrightarrow> socket_reachable w'"

text \<open>
  The descriptor at an address, \<open>-1\<close> where there is no object. Every open descriptor has exactly one
  owner: distinct objects hold distinct descriptors, and the descriptors held are the open ones.
\<close>

definition fd_at :: "socket_world \<Rightarrow> nat \<Rightarrow> int" where
  "fd_at w i = (case sw_sockets w i of None \<Rightarrow> -1 | Some s \<Rightarrow> us_fd s)"

definition holders :: "(nat \<Rightarrow> int) \<Rightarrow> nat set" where
  "holders f = {i. 0 \<le> f i}"

definition owns :: "(nat \<Rightarrow> int) \<Rightarrow> int set \<Rightarrow> bool" where
  "owns f fds \<longleftrightarrow> inj_on f (holders f) \<and> fds = f ` holders f"

definition one_owner :: "socket_world \<Rightarrow> bool" where
  "one_owner w \<longleftrightarrow> owns (fd_at w) (sw_open w)"

text \<open>The four ways a step changes who holds what.\<close>

lemma holders_upd:
  "holders (f(i := fd)) = (if 0 \<le> fd then insert i (holders f) else holders f - {i})"
  by (auto simp: holders_def)

lemma image_upd: "i \<notin> S \<Longrightarrow> f(i := fd) ` S = f ` S"
  by auto

lemma inj_on_upd: "i \<notin> S \<Longrightarrow> inj_on (f(i := fd)) S \<longleftrightarrow> inj_on f S"
  by (rule inj_on_cong) auto

lemma owns_open:
  assumes "owns f fds" "f i < 0" "0 \<le> fd" "fd \<notin> fds"
  shows "owns (f(i := fd)) (insert fd fds)"
proof -
  have i: "i \<notin> holders f" using assms(2) by (simp add: holders_def)
  moreover from i have "holders f \<inter> {x. x \<noteq> i} = holders f" by auto
  ultimately show ?thesis
    using assms(1,3,4) by (simp add: owns_def holders_upd image_upd inj_on_upd inj_on_insert del: fun_upd_image)
qed

lemma owns_fail:
  assumes "owns f fds" "f i < 0" "fd < 0"
  shows "owns (f(i := fd)) fds"
proof -
  have i: "i \<notin> holders f" using assms(2) by (simp add: holders_def)
  moreover from i have "holders f \<inter> {x. x \<noteq> i} = holders f" by auto
  ultimately show ?thesis
    using assms(1,3) by (simp add: owns_def holders_upd image_upd inj_on_upd del: fun_upd_image)
qed

lemma owns_closed: "owns f fds \<Longrightarrow> f i < 0 \<Longrightarrow> fds - {f i} = fds"
  by (auto simp: owns_def holders_def)

lemma owns_close:
  assumes "owns f fds"
  shows "owns (f(i := -1)) (fds - {f i})"
proof (cases "0 \<le> f i")
  case True
  then have "i \<in> holders f" by (simp add: holders_def)
  with assms have "f ` (holders f - {i}) = fds - {f i}"
    by (simp add: owns_def inj_on_image_set_diff[of f "holders f"])
  with assms show ?thesis
    by (simp add: owns_def holders_upd image_upd inj_on_upd inj_on_diff del: fun_upd_image)
qed (use assms owns_closed owns_fail in \<open>simp add: not_le\<close>)

lemma owns_move:
  assumes "owns f fds" "i \<noteq> j" "f j < 0"
  shows "owns (f(i := -1, j := f i)) fds"
proof (cases "0 \<le> f i")
  case True
  have "owns (f(i := -1, j := f i)) (insert (f i) (fds - {f i}))"
    by (rule owns_open[OF owns_close[OF assms(1)]]) (use assms True in simp_all)
  moreover have "f i \<in> fds" using assms(1) True by (simp add: owns_def holders_def)
  ultimately show ?thesis by (simp add: insert_absorb)
next
  case False
  then show ?thesis using owns_fail[OF owns_close[OF assms(1), of i], of j "f i"] owns_closed[of f fds i] assms
    by simp
qed

lemma fd_at_simps [simp]:
  "fd_at (w\<lparr>sw_open := A\<rparr>) = fd_at w"
  "fd_at (w\<lparr>sw_sockets := (sw_sockets w)(i \<mapsto> s)\<rparr>) = (fd_at w)(i := us_fd s)"
  "fd_at (w\<lparr>sw_sockets := (sw_sockets w)(i := None)\<rparr>) = (fd_at w)(i := -1)"
  "fd_at (w\<lparr>sw_sockets := (sw_sockets w)(i \<mapsto> s, j \<mapsto> t)\<rparr>) = (fd_at w)(i := us_fd s, j := us_fd t)"
  by (auto simp: fd_at_def)

lemma fd_at_Some: "sw_sockets w i = Some s \<Longrightarrow> fd_at w i = us_fd s"
  and fd_at_None: "sw_sockets w i = None \<Longrightarrow> fd_at w i = -1"
  by (simp_all add: fd_at_def)

lemma one_owner_step: "socket_step w w' \<Longrightarrow> one_owner w \<Longrightarrow> one_owner w'"
proof (induction rule: socket_step.induct)
  case (construct w i)
  then show ?case
    using owns_fail[of "fd_at w" "sw_open w" i "-1"]
    by (simp add: one_owner_def UdpSocket_new_def fd_at_None)
next
  case (create w i s fd ok s')
  then show ?case
    using owns_fail[of "fd_at w" "sw_open w" i fd] owns_open[of "fd_at w" "sw_open w" i fd]
    by (auto simp: one_owner_def UdpSocket_Create_def fd_at_Some)
next
  case (bind w i s ia ret port addr ok s')
  then have "(fd_at w)(i := us_fd s') = fd_at w"
    by (auto simp: UdpSocket_Bind_def fd_at_Some[symmetric])
  with bind show ?case by (simp add: one_owner_def)
next
  case (close w i s c s')
  then show ?case
    using owns_close[of "fd_at w" "sw_open w" i] owns_closed[of "fd_at w" "sw_open w" i]
    by (auto simp: one_owner_def UdpSocket_Close_def close_fd_def fd_at_Some fun_upd_idem split: if_splits)
next
  case (destroy w i s c s')
  then show ?case
    using owns_close[of "fd_at w" "sw_open w" i] owns_closed[of "fd_at w" "sw_open w" i]
    by (auto simp: one_owner_def UdpSocket_Close_def close_fd_def fd_at_Some split: if_splits)
next
  case (move_new w i s j t s')
  moreover from this have "i \<noteq> j" by auto
  ultimately show ?case
    using owns_move[of "fd_at w" "sw_open w" i j]
    by (auto simp: one_owner_def UdpSocket_move_new_def fd_at_Some fd_at_None)
next
  case (move_assign w i s j t c t' s')
  have o: "owns ((fd_at w)(j := -1)) (sw_open w - {fd_at w j})"
    using owns_close move_assign by (auto simp: one_owner_def)
  from owns_move[OF this, of i j] move_assign(3)
  have "owns ((fd_at w)(i := -1, j := fd_at w i)) (sw_open w - {fd_at w j})"
    by (simp add: fun_upd_twist)
  moreover have "sw_open w - {fd_at w j} = close_fd c (sw_open w)"
    using move_assign(2,4,5) owns_closed[of "fd_at w" "sw_open w" j]
    by (cases "0 \<le> us_fd t") (simp_all add: one_owner_def UdpSocket_move_assign_def
        UdpSocket_Close_def close_fd_def fd_at_Some, auto)
  moreover have "us_fd s' = -1" "us_fd t' = fd_at w i"
    using move_assign(1,4) by (auto simp: UdpSocket_move_assign_def fd_at_Some split: prod.splits)
  ultimately show ?case by (simp add: one_owner_def)
qed

lemma one_owner_reachable: "socket_reachable w \<Longrightarrow> one_owner w"
proof (induction rule: socket_reachable.induct)
  case start
  show ?case by (simp add: one_owner_def owns_def fd_at_def holders_def)
qed (rule one_owner_step)


text \<open>Two sockets opened on descriptors 5 and 6, the second then moved into the first.\<close>

definition sock :: "int \<Rightarrow> udp_socket" where
  "sock fd = \<lparr>us_fd = fd, us_local_addr = zero_sockaddr\<rparr>"

lemma reach_two:
  "socket_reachable \<lparr>sw_sockets = [0 \<mapsto> sock 5], sw_open = {5}\<rparr>"
proof -
  let ?w = "\<lparr>sw_sockets = (\<lambda>_. None), sw_open = {}\<rparr>"
  have "socket_reachable (?w\<lparr>sw_sockets := (sw_sockets ?w)(0 \<mapsto> UdpSocket_new)\<rparr>)"
    by (rule socket_reachable.step[OF socket_reachable.start socket_step.construct]) simp
  then have "socket_reachable \<lparr>sw_sockets = [0 \<mapsto> sock (-1)], sw_open = {}\<rparr>"
    by (simp add: UdpSocket_new_def sock_def)
  from socket_reachable.step[OF this socket_step.create[of _ 0 "sock (-1)" 5 True "sock 5"]]
  show ?thesis by (simp add: UdpSocket_Create_def sock_def)
qed


end
