(* ===== verification/Rtp_Session.thy ===== *)
theory Rtp_Session
  imports Rtp_Packet Udp_Socket
begin

text \<open>
  RTP sessions (\<open>rtp/rtp_session.h\<close>, \<open>rtp/rtp_session.cpp\<close>): one sender and one receiver socket, the
  sequence number and timestamp of the next packet, the remote address and the counters. Random
  numbers and the results of system calls are arguments of the operations that use them.
\<close>

section \<open>State\<close>

record rtp_session =
  rs_ssrc :: u32
  rs_payload_type :: rtp_payload_type
  rs_timestamp_base :: u32
  rs_timestamp_inc :: u32
  rs_current_seq :: u16
  rs_current_timestamp :: u32
  rs_send_socket :: "udp_socket option"
  rs_recv_socket :: "udp_socket option"
  rs_remote_addr :: string
  rs_remote_port :: u16
  rs_last_packet :: rtp_packet
  rs_packets_sent :: u32
  rs_packets_received :: u32
  rs_bytes_sent :: u64
  rs_bytes_received :: u64
  rs_last_received_seq :: u16
  rs_received_seq_set :: "u16 set"

text \<open>
  The constructor draws a random SSRC when it is given zero, and always a random first timestamp;
  \<open>rnd_ssrc\<close> and \<open>rnd_ts\<close> are the two draws.
\<close>

definition RtpSession_new :: "u32 \<Rightarrow> u32 \<Rightarrow> u32 \<Rightarrow> rtp_payload_type \<Rightarrow> rtp_session" where
  "RtpSession_new rnd_ssrc rnd_ts s pt =
     \<lparr>rs_ssrc = (if s \<noteq> 0 then s else rnd_ssrc), rs_payload_type = pt,
      rs_timestamp_base = 0, rs_timestamp_inc = 160, rs_current_seq = 0,
      rs_current_timestamp = rnd_ts, rs_send_socket = None, rs_recv_socket = None,
      rs_remote_addr = [], rs_remote_port = 0, rs_last_packet = RtpPacket_default,
      rs_packets_sent = 0, rs_packets_received = 0, rs_bytes_sent = 0, rs_bytes_received = 0,
      rs_last_received_seq = 0, rs_received_seq_set = {}\<rparr>"

section \<open>Opening the sockets\<close>

text \<open>
  The results of the system calls one opening makes. Those of \<open>SetNonBlocking\<close>, \<open>SetReuseAddr\<close> and
  the buffer size setters are ignored by the code.
\<close>

record open_results =
  or_socket :: int
  or_bind :: int

definition open_socket :: "(string \<Rightarrow> u32) \<Rightarrow> open_results \<Rightarrow> u16 \<Rightarrow> bool \<times> udp_socket" where
  "open_socket inet_addr r local_port =
     (case UdpSocket_Create (or_socket r) UdpSocket_new of
        (False, s) \<Rightarrow> (False, s)
      | (True, s) \<Rightarrow> UdpSocket_Bind inet_addr (or_bind r) local_port ''0.0.0.0'' s)"

definition OpenSendSocket ::
  "(string \<Rightarrow> u32) \<Rightarrow> open_results \<Rightarrow> u16 \<Rightarrow> rtp_session \<Rightarrow> bool \<times> rtp_session" where
  "OpenSendSocket inet_addr r local_port rs =
     (case open_socket inet_addr r local_port of (ok, s) \<Rightarrow> (ok, rs\<lparr>rs_send_socket := Some s\<rparr>))"

definition OpenRecvSocket ::
  "(string \<Rightarrow> u32) \<Rightarrow> open_results \<Rightarrow> u16 \<Rightarrow> rtp_session \<Rightarrow> bool \<times> rtp_session" where
  "OpenRecvSocket inet_addr r local_port rs =
     (case open_socket inet_addr r local_port of (ok, s) \<Rightarrow> (ok, rs\<lparr>rs_recv_socket := Some s\<rparr>))"

section \<open>Sending\<close>

text \<open>
  \<open>SendPacket\<close>: the result, the session after it, and the datagram handed to \<open>sendto\<close>, if the call is
  reached; \<open>ret\<close> is what \<open>sendto\<close> returns. The stack buffer is filled up to the packet's size before
  that many bytes of it are sent, so its initial contents do not matter.
\<close>

definition SendPacket ::
  "(string \<Rightarrow> u32) \<Rightarrow> int \<Rightarrow> bytes \<Rightarrow> string \<Rightarrow> u16 \<Rightarrow> bool \<Rightarrow> rtp_session \<Rightarrow>
     bool \<times> rtp_session \<times> datagram_out option" where
  "SendPacket inet_addr ret payload dest_addr dest_port m rs =
     (case rs_send_socket rs of
        None \<Rightarrow> (False, rs, None)
      | Some s \<Rightarrow>
          let dst = (if dest_addr = [] then rs_remote_addr rs else dest_addr);
              dport = (if dest_port \<noteq> 0 then dest_port else rs_remote_port rs)
          in if dst = [] \<or> dport = 0 then (False, rs, None)
             else
               let packet = RtpPacket_Build (rs_payload_type rs) (rs_current_seq rs)
                              (rs_current_timestamp rs) (rs_ssrc rs) m payload;
                   (total, buffer) = RtpPacket_Serialize packet
                              (replicate (kRtpMaxPayloadSize + kRtpHeaderSize) 0)
               in if total = 0 then (False, rs, None)
                  else
                    let (sent, dgram) = UdpSocket_SendTo inet_addr ret s (take total buffer) dst dport
                    in if sent < 0 then (False, rs, Some dgram)
                       else (True,
                             rs\<lparr>rs_current_seq := rs_current_seq rs + 1,
                                rs_packets_sent := rs_packets_sent rs + 1,
                                rs_bytes_sent := rs_bytes_sent rs + of_nat total\<rparr>,
                             Some dgram))"

section \<open>Receiving\<close>

text \<open>
  \<open>ReceivePacket\<close>: \<open>-1\<close> without a socket, 0 when nothing was received, 1 after a datagram. The local
  \<open>src_port\<close> starts uninitialised and is only read after \<open>recvfrom\<close> has set it.
\<close>

definition ReceivePacket ::
  "(u32 \<Rightarrow> string) \<Rightarrow> recv_outcome \<Rightarrow> rtp_session \<Rightarrow> (int \<times> rtp_session) option" where
  "ReceivePacket inet_ntop outcome rs =
     (if rs_recv_socket rs = None then Some (-1, rs)
      else
        let (received, buffer, src_addr, src_port) = UdpSocket_RecvFrom inet_ntop outcome 65536 [] 0
        in if received \<le> 0 then Some (0, rs)
           else do {
             let rs = (if rs_remote_addr rs = []
                       then rs\<lparr>rs_remote_addr := src_addr, rs_remote_port := src_port\<rparr> else rs);
             packet \<leftarrow> RtpPacket_Parse buffer;
             let seq = Sequence packet;
             Some (1, rs\<lparr>rs_last_packet := packet,
                         rs_packets_received := rs_packets_received rs + 1,
                         rs_bytes_received := rs_bytes_received rs + of_int received,
                         rs_received_seq_set := insert seq (rs_received_seq_set rs),
                         rs_last_received_seq := seq\<rparr>)
           })"

definition LocalSendPort :: "(int \<times> sockaddr_in) \<Rightarrow> rtp_session \<Rightarrow> u16" where
  "LocalSendPort r rs = (if rs_send_socket rs = None then 0 else UdpSocket_GetLocalPort r)"

definition LocalRecvPort :: "(int \<times> sockaddr_in) \<Rightarrow> rtp_session \<Rightarrow> u16" where
  "LocalRecvPort r rs = (if rs_recv_socket rs = None then 0 else UdpSocket_GetLocalPort r)"

definition AdvanceTimestamp :: "u32 \<Rightarrow> rtp_session \<Rightarrow> rtp_session" where
  "AdvanceTimestamp increment rs = rs\<lparr>rs_current_timestamp := rs_current_timestamp rs + increment\<rparr>"

definition SetRemoteAddr :: "string \<Rightarrow> rtp_session \<Rightarrow> rtp_session" where
  "SetRemoteAddr addr rs = rs\<lparr>rs_remote_addr := addr\<rparr>"

definition SetRemotePort :: "u16 \<Rightarrow> rtp_session \<Rightarrow> rtp_session" where
  "SetRemotePort port rs = rs\<lparr>rs_remote_port := port\<rparr>"

definition SendFd :: "rtp_session \<Rightarrow> int" where
  "SendFd rs = (case rs_send_socket rs of None \<Rightarrow> -1 | Some s \<Rightarrow> us_fd s)"

definition RecvFd :: "rtp_session \<Rightarrow> int" where
  "RecvFd rs = (case rs_recv_socket rs of None \<Rightarrow> -1 | Some s \<Rightarrow> us_fd s)"

section \<open>What a send does\<close>

definition send_destination :: "string \<Rightarrow> u16 \<Rightarrow> rtp_session \<Rightarrow> string \<times> u16" where
  "send_destination dest_addr dest_port rs =
     (if dest_addr = [] then rs_remote_addr rs else dest_addr,
      if dest_port \<noteq> 0 then dest_port else rs_remote_port rs)"

text \<open>The bytes of the packet a session sends next, as RFC 3550 lays them out.\<close>

definition next_packet_bytes :: "rtp_session \<Rightarrow> bool \<Rightarrow> bytes \<Rightarrow> bytes" where
  "next_packet_bytes rs m payload =
     [0x80, take_bit 7 (rs_payload_type rs) OR (if m then 0x80 else 0)]
     @ be_bytes 2 (rs_current_seq rs) @ be_bytes 4 (rs_current_timestamp rs) @ be_bytes 4 (rs_ssrc rs)
     @ payload"

definition can_send :: "string \<Rightarrow> u16 \<Rightarrow> bytes \<Rightarrow> rtp_session \<Rightarrow> bool" where
  "can_send dest_addr dest_port payload rs \<longleftrightarrow>
     rs_send_socket rs \<noteq> None \<and> fst (send_destination dest_addr dest_port rs) \<noteq> [] \<and>
     snd (send_destination dest_addr dest_port rs) \<noteq> 0 \<and> length payload \<le> kRtpMaxPayloadSize"

definition after_send :: "bytes \<Rightarrow> rtp_session \<Rightarrow> rtp_session" where
  "after_send payload rs =
     rs\<lparr>rs_current_seq := rs_current_seq rs + 1, rs_packets_sent := rs_packets_sent rs + 1,
        rs_bytes_sent := rs_bytes_sent rs + of_nat (kRtpHeaderSize + length payload)\<rparr>"

lemma Serialize_Build:
  assumes "length payload \<le> kRtpMaxPayloadSize"
  shows "\<exists>buffer. RtpPacket_Serialize (RtpPacket_Build pt seq ts s m payload)
      (replicate (kRtpMaxPayloadSize + kRtpHeaderSize) 0) = (kRtpHeaderSize + length payload, buffer) \<and>
    take (kRtpHeaderSize + length payload) buffer =
      [0x80, take_bit 7 pt OR (if m then 0x80 else 0)] @ be_bytes 2 seq @ be_bytes 4 ts @ be_bytes 4 s @ payload"
proof -
  let ?h = "header_bytes (pkt_header (RtpPacket_Build pt seq ts s m payload))"
  have l: "length ?h = kRtpHeaderSize" by simp
  have "TotalSize (RtpPacket_Build pt seq ts s m payload) = kRtpHeaderSize + length payload"
    by (simp add: TotalSize_def)
  then have "RtpPacket_Serialize (RtpPacket_Build pt seq ts s m payload)
      (replicate (kRtpMaxPayloadSize + kRtpHeaderSize) 0) = (kRtpHeaderSize + length payload,
      ?h @ payload @ drop (kRtpHeaderSize + length payload) (replicate (kRtpMaxPayloadSize + kRtpHeaderSize) 0))"
    using assms by (simp add: RtpPacket_Serialize_def)
  moreover have "take (kRtpHeaderSize + length payload) (?h @ payload @ xs) = ?h @ payload" for xs
    by (simp add: l)
  ultimately show ?thesis by (simp add: Build_header_bytes)
qed

lemma Serialize_Build_too_big:
  assumes "\<not> length payload \<le> kRtpMaxPayloadSize"
  shows "fst (RtpPacket_Serialize (RtpPacket_Build pt seq ts s m payload)
      (replicate (kRtpMaxPayloadSize + kRtpHeaderSize) 0)) = 0"
  using assms by (subst RtpPacket_Serialize_too_small) (simp_all add: TotalSize_def)

text \<open>The complete behaviour of a send, on every branch.\<close>

lemma SendPacket_cases:
  "SendPacket inet_addr ret payload dest_addr dest_port m rs =
    (if can_send dest_addr dest_port payload rs
     then (0 \<le> ret, if 0 \<le> ret then after_send payload rs else rs,
           Some (SendFd rs, next_packet_bytes rs m payload,
                 \<lparr>sin_family = AF_INET, sin_port = htons (snd (send_destination dest_addr dest_port rs)),
                  sin_addr = inet_addr (fst (send_destination dest_addr dest_port rs))\<rparr>))
     else (False, rs, None))"
proof (cases "rs_send_socket rs")
  case (Some sck)
  show ?thesis
  proof (cases "fst (send_destination dest_addr dest_port rs) = [] \<or> snd (send_destination dest_addr dest_port rs) = 0")
    case True
    then show ?thesis by (auto simp: SendPacket_def Some can_send_def send_destination_def Let_def)
  next
    case dst: False
    show ?thesis
    proof (cases "length payload \<le> kRtpMaxPayloadSize")
      case True
      obtain buffer where b: "RtpPacket_Serialize (RtpPacket_Build (rs_payload_type rs) (rs_current_seq rs)
            (rs_current_timestamp rs) (rs_ssrc rs) m payload)
          (replicate (kRtpMaxPayloadSize + kRtpHeaderSize) 0) = (kRtpHeaderSize + length payload, buffer)"
        "take (kRtpHeaderSize + length payload) buffer = next_packet_bytes rs m payload"
        using Serialize_Build[OF True] unfolding next_packet_bytes_def by metis
      have k: "kRtpHeaderSize \<noteq> 0" by (simp add: kRtpHeaderSize_def)
      from dst True k show ?thesis
        by (simp add: SendPacket_def Some can_send_def send_destination_def[of dest_addr dest_port rs]
            Let_def b UdpSocket_SendTo_def SendFd_def after_send_def)
    next
      case False
      obtain buffer where "RtpPacket_Serialize (RtpPacket_Build (rs_payload_type rs) (rs_current_seq rs)
            (rs_current_timestamp rs) (rs_ssrc rs) m payload)
          (replicate (kRtpMaxPayloadSize + kRtpHeaderSize) 0) = (0, buffer)"
        using Serialize_Build_too_big[OF False] by (metis fst_conv surj_pair)
      with dst False show ?thesis
        by (simp add: SendPacket_def Some can_send_def send_destination_def[of dest_addr dest_port rs] Let_def)
    qed
  qed
qed (simp add: SendPacket_def can_send_def)

section \<open>What the receiver sees\<close>

definition next_packet :: "rtp_session \<Rightarrow> bool \<Rightarrow> bytes \<Rightarrow> rtp_packet" where
  "next_packet rs m payload =
     RtpPacket_Build (rs_payload_type rs) (rs_current_seq rs) (rs_current_timestamp rs) (rs_ssrc rs) m payload"

lemma next_packet_bytes_parse:
  "RtpPacket_Parse (next_packet_bytes rs m payload) = Some (next_packet rs m payload)"
proof -
  let ?p = "RtpPacket_Build (rs_payload_type rs) (rs_current_seq rs) (rs_current_timestamp rs) (rs_ssrc rs) m payload"
  have "next_packet_bytes rs m payload = header_bytes (pkt_header ?p) @ payload"
    by (simp add: next_packet_bytes_def Build_header_bytes)
  moreover have "\<lparr>pkt_header = pkt_header ?p, pkt_payload = payload\<rparr> = ?p"
    by (simp add: RtpPacket_Build_def)
  ultimately show ?thesis
    using RtpPacket_Parse_plain[OF plain_header_Build, of _ _ _ _ _ payload payload]
    by (simp add: next_packet_def)
qed

lemma next_packet_bytes_length: "length (next_packet_bytes rs m payload) = kRtpHeaderSize + length payload"
  by (simp add: next_packet_bytes_def kRtpHeaderSize_def be_bytes_def)

lemma next_packet_fields [simp]:
  "Sequence (next_packet rs m payload) = rs_current_seq rs"
  "Timestamp (next_packet rs m payload) = rs_current_timestamp rs"
  "Ssrc (next_packet rs m payload) = rs_ssrc rs"
  "Marker (next_packet rs m payload) = m"
  "PayloadType (next_packet rs m payload) = take_bit 7 (rs_payload_type rs)"
  "pkt_payload (next_packet rs m payload) = payload"
  by (simp_all add: next_packet_def)

lemma ReceivePacket_data:
  assumes "rs_recv_socket rs \<noteq> None" "data \<noteq> []" "length data \<le> 65536" "RtpPacket_Parse data = Some p"
  shows "ReceivePacket inet_ntop (RecvData data src) rs = Some (1,
    (if rs_remote_addr rs = []
     then rs\<lparr>rs_remote_addr := inet_ntop (sin_addr src), rs_remote_port := ntohs (sin_port src)\<rparr> else rs)
    \<lparr>rs_last_packet := p, rs_packets_received := rs_packets_received rs + 1,
     rs_bytes_received := rs_bytes_received rs + of_nat (length data),
     rs_received_seq_set := insert (Sequence p) (rs_received_seq_set rs),
     rs_last_received_seq := Sequence p\<rparr>)"
  using assms by (auto simp: ReceivePacket_def UdpSocket_RecvFrom_def Let_def)

section \<open>Streams\<close>

text \<open>A sender handing over payloads one after the other, each with its marker; every \<open>sendto\<close> succeeds.\<close>

fun send_stream ::
  "(string \<Rightarrow> u32) \<Rightarrow> (bytes \<times> bool) list \<Rightarrow> rtp_session \<Rightarrow> bytes list \<times> rtp_session" where
  "send_stream inet_addr [] rs = ([], rs)"
| "send_stream inet_addr ((payload, m) # xs) rs =
     (case SendPacket inet_addr 0 payload [] 0 m rs of
        (ok, rs', out) \<Rightarrow>
          (case send_stream inet_addr xs rs' of
             (ds, rs'') \<Rightarrow> ((case out of None \<Rightarrow> [] | Some (fd, d, a) \<Rightarrow> [d]) @ ds, rs'')))"

definition ready_to_send :: "rtp_session \<Rightarrow> bool" where
  "ready_to_send rs \<longleftrightarrow> rs_send_socket rs \<noteq> None \<and> rs_remote_addr rs \<noteq> [] \<and> rs_remote_port rs \<noteq> 0"

lemma can_send_remote:
  "can_send [] 0 payload rs \<longleftrightarrow> ready_to_send rs \<and> length payload \<le> kRtpMaxPayloadSize"
  by (auto simp: can_send_def send_destination_def ready_to_send_def)

lemma after_send_fields [simp]:
  "rs_current_seq (after_send payload rs) = rs_current_seq rs + 1"
  "rs_current_timestamp (after_send payload rs) = rs_current_timestamp rs"
  "rs_ssrc (after_send payload rs) = rs_ssrc rs"
  "rs_payload_type (after_send payload rs) = rs_payload_type rs"
  "rs_packets_sent (after_send payload rs) = rs_packets_sent rs + 1"
  "rs_bytes_sent (after_send payload rs) = rs_bytes_sent rs + of_nat (kRtpHeaderSize + length payload)"
  "ready_to_send (after_send payload rs) = ready_to_send rs"
  by (simp_all add: after_send_def ready_to_send_def)

text \<open>The packets of a stream, numbered from the session's next sequence number.\<close>

definition stream_packet :: "rtp_session \<Rightarrow> nat \<Rightarrow> bytes \<times> bool \<Rightarrow> rtp_packet" where
  "stream_packet rs i x =
     RtpPacket_Build (rs_payload_type rs) (rs_current_seq rs + of_nat i) (rs_current_timestamp rs)
       (rs_ssrc rs) (snd x) (fst x)"

lemma send_stream_datagrams:
  assumes "ready_to_send rs" "list_all (\<lambda>x. length (fst x) \<le> kRtpMaxPayloadSize) xs"
    "send_stream inet_addr xs rs = (ds, rs')"
  shows "map RtpPacket_Parse ds = map (\<lambda>(i, x). Some (stream_packet rs i x)) (enumerate 0 xs) \<and>
    rs_current_seq rs' = rs_current_seq rs + of_nat (length xs) \<and>
    rs_packets_sent rs' = rs_packets_sent rs + of_nat (length xs) \<and>
    rs_bytes_sent rs' = rs_bytes_sent rs + of_nat (sum_list (map length ds))"
  using assms
proof (induction xs arbitrary: rs ds)
  case (Cons x xs)
  obtain payload m where x: "x = (payload, m)" by (cases x)
  have c: "can_send [] 0 payload rs" using Cons.prems(1,2) x by (simp add: can_send_remote)
  obtain ds' where r: "send_stream inet_addr xs (after_send payload rs) = (ds', rs')"
    "ds = next_packet_bytes rs m payload # ds'"
    using Cons.prems(3) by (auto simp: x SendPacket_cases c split: prod.splits)
  have sp: "stream_packet (after_send payload rs) i y = stream_packet rs (Suc i) y" for i y
    by (simp add: stream_packet_def algebra_simps)
  have h: "RtpPacket_Parse (next_packet_bytes rs m payload) = Some (stream_packet rs 0 x)"
    by (simp add: next_packet_bytes_parse next_packet_def stream_packet_def x)
  have en: "enumerate (Suc 0) xs = map (\<lambda>(i, y). (Suc i, y)) (enumerate 0 xs)"
    by (rule nth_equalityI) (simp_all add: nth_enumerate_eq)
  have "map RtpPacket_Parse ds' = map (\<lambda>(i, x). Some (stream_packet (after_send payload rs) i x)) (enumerate 0 xs) \<and>
    rs_current_seq rs' = rs_current_seq (after_send payload rs) + of_nat (length xs) \<and>
    rs_packets_sent rs' = rs_packets_sent (after_send payload rs) + of_nat (length xs) \<and>
    rs_bytes_sent rs' = rs_bytes_sent (after_send payload rs) + of_nat (sum_list (map length ds'))"
    by (rule Cons.IH[OF _ _ r(1)]) (use Cons.prems in simp_all)
  then show ?case
    by (simp add: r(2) h en sp next_packet_bytes_length algebra_simps case_prod_unfold)
qed simp

section \<open>Properties\<close>

text \<open>
  Property C36. The complete contract of \<open>SendPacket\<close>, on every branch. It reaches \<open>sendto\<close> exactly when
  there is a socket, a destination address and port (the arguments, or the session's remote end) and a
  payload of at most 1460 bytes; the datagram is then the RFC 3550 packet with the session's payload
  type, sequence number, timestamp and SSRC, sent to that destination. A refused or failed send leaves
  the session unchanged, and a successful one advances the sequence number, modulo \<open>2^16\<close>, and the
  counters.
\<close>

theorem SendPacket_contract:
  "SendPacket inet_addr ret payload dest_addr dest_port m rs =
    (if rs_send_socket rs \<noteq> None \<and> fst (send_destination dest_addr dest_port rs) \<noteq> [] \<and>
        snd (send_destination dest_addr dest_port rs) \<noteq> 0 \<and> length payload \<le> 1460
     then (0 \<le> ret,
           if 0 \<le> ret then rs\<lparr>rs_current_seq := rs_current_seq rs + 1, rs_packets_sent := rs_packets_sent rs + 1,
               rs_bytes_sent := rs_bytes_sent rs + of_nat (12 + length payload)\<rparr> else rs,
           Some (SendFd rs,
             [0x80, take_bit 7 (rs_payload_type rs) OR (if m then 0x80 else 0)]
               @ be_bytes 2 (rs_current_seq rs) @ be_bytes 4 (rs_current_timestamp rs)
               @ be_bytes 4 (rs_ssrc rs) @ payload,
             \<lparr>sin_family = AF_INET, sin_port = htons (snd (send_destination dest_addr dest_port rs)),
              sin_addr = inet_addr (fst (send_destination dest_addr dest_port rs))\<rparr>))
     else (False, rs, None))"
  using SendPacket_cases[of inet_addr ret payload dest_addr dest_port m rs]
  unfolding can_send_def after_send_def next_packet_bytes_def kRtpMaxPayloadSize_def kRtpHeaderSize_def
  by (simp only: append_assoc)

text \<open>
  End to end: the datagram of a successful send, received by another session, is taken for
  the packet the sender meant. The receiver's last packet has the sender's sequence number, timestamp,
  SSRC, marker and payload, its counters advance, and its remote end is the datagram's source if it had
  none and otherwise stays what it was.
\<close>

theorem SendPacket_ReceivePacket:
  assumes "SendPacket inet_addr ret payload dest_addr dest_port m a = (True, a', Some (fd, data, dst))"
    and "rs_recv_socket b \<noteq> None"
  shows "\<exists>b'. ReceivePacket inet_ntop (RecvData data src) b = Some (1, b') \<and>
    Sequence (rs_last_packet b') = rs_current_seq a \<and>
    Timestamp (rs_last_packet b') = rs_current_timestamp a \<and>
    Ssrc (rs_last_packet b') = rs_ssrc a \<and> Marker (rs_last_packet b') = m \<and>
    pkt_payload (rs_last_packet b') = payload \<and>
    rs_packets_received b' = rs_packets_received b + 1 \<and>
    rs_bytes_received b' = rs_bytes_received b + of_nat (12 + length payload) \<and>
    rs_received_seq_set b' = insert (rs_current_seq a) (rs_received_seq_set b) \<and>
    (rs_remote_addr b', rs_remote_port b') =
      (if rs_remote_addr b = [] then (inet_ntop (sin_addr src), ntohs (sin_port src))
       else (rs_remote_addr b, rs_remote_port b))"
proof -
  from assms(1) have d: "data = next_packet_bytes a m payload" and c: "can_send dest_addr dest_port payload a"
    by (simp_all add: SendPacket_cases split: if_splits)
  have "length data = 12 + length payload" by (simp add: d next_packet_bytes_length kRtpHeaderSize_def)
  moreover from c have "length payload \<le> 1460" by (simp add: can_send_def kRtpMaxPayloadSize_def)
  ultimately have l: "data \<noteq> []" "length data \<le> 65536" "length data = 12 + length payload" by auto
  have p: "RtpPacket_Parse data = Some (next_packet a m payload)"
    by (simp add: d next_packet_bytes_parse)
  show ?thesis
    by (simp add: ReceivePacket_data[OF assms(2) l(1,2) p] l(3))
qed

definition sample_sender :: rtp_session where
  "sample_sender = (RtpSession_new 0 90000 7 kAAC)
     \<lparr>rs_send_socket := Some \<lparr>us_fd = 3, us_local_addr = zero_sockaddr\<rparr>,
      rs_recv_socket := Some \<lparr>us_fd = 4, us_local_addr = zero_sockaddr\<rparr>,
      rs_remote_addr := ''10.0.0.2'', rs_remote_port := 5004, rs_current_seq := 65535\<rparr>"

lemma sample_sender_sends:
  "can_send [] 0 payload sample_sender \<longleftrightarrow> length payload \<le> 1460"
  by (simp add: can_send_remote ready_to_send_def sample_sender_def kRtpMaxPayloadSize_def)

theorem SendPacket_ReceivePacket_witness:
  "\<exists>a' d b'. SendPacket (\<lambda>_. 0) 14 [1, 2] [] 0 True sample_sender = (True, a', Some (3, d)) \<and>
    ReceivePacket (\<lambda>_. ''10.0.0.1'') (RecvData (fst d) zero_sockaddr) sample_sender = Some (1, b') \<and>
    Sequence (rs_last_packet b') = 65535 \<and> pkt_payload (rs_last_packet b') = [1, 2] \<and>
    rs_current_seq a' = 0"
proof -
  have f: "SendFd sample_sender = 3" "rs_current_seq sample_sender = 65535"
    "rs_recv_socket sample_sender \<noteq> None"
    by (simp_all add: SendFd_def sample_sender_def)
  obtain a' d where s: "SendPacket (\<lambda>_. 0) 14 [1, 2] [] 0 True sample_sender = (True, a', Some (3, d))"
    "rs_current_seq a' = 0"
    by (simp add: SendPacket_cases sample_sender_sends f)
  obtain data dst where d: "d = (data, dst)" by (cases d)
  from SendPacket_ReceivePacket[OF s(1)[unfolded d] f(3), of "\<lambda>_. ''10.0.0.1''" zero_sockaddr] s show ?thesis
    by (auto simp: d f)
qed

text \<open>
  A stream of packets: every datagram of a stream parses to the packet with its payload and
  marker, the session's SSRC, and a sequence number that counts up by one from packet to packet, through
  the 16-bit wrap; the session's counters advance by the packets and bytes sent.
\<close>

theorem send_stream_sequence:
  assumes "rs_send_socket rs \<noteq> None" "rs_remote_addr rs \<noteq> []" "rs_remote_port rs \<noteq> 0"
    "list_all (\<lambda>x. length (fst x) \<le> 1460) xs" "send_stream inet_addr xs rs = (ds, rs')"
  shows "map RtpPacket_Parse ds = map (\<lambda>(i, x). Some (stream_packet rs i x)) (enumerate 0 xs) \<and>
    rs_current_seq rs' = rs_current_seq rs + of_nat (length xs) \<and>
    rs_packets_sent rs' = rs_packets_sent rs + of_nat (length xs) \<and>
    rs_bytes_sent rs' = rs_bytes_sent rs + of_nat (sum_list (map length ds))"
  using send_stream_datagrams[of rs xs inet_addr ds rs'] assms
  by (simp add: ready_to_send_def kRtpMaxPayloadSize_def)

theorem send_stream_sequence_witness:
  "map RtpPacket_Parse (fst (send_stream (\<lambda>_. 0) [([1], False), ([2, 3], True)] sample_sender)) =
     [Some (stream_packet sample_sender 0 ([1], False)), Some (stream_packet sample_sender 1 ([2, 3], True))]"
proof -
  obtain ds rs' where s: "send_stream (\<lambda>_. 0) [([1], False), ([2, 3], True)] sample_sender = (ds, rs')"
    by (rule prod.exhaust)
  have f: "rs_send_socket sample_sender \<noteq> None" "rs_remote_addr sample_sender \<noteq> []"
    "rs_remote_port sample_sender \<noteq> 0" by (simp_all add: sample_sender_def)
  from send_stream_sequence[OF f _ s] s show ?thesis
    by (simp del: send_stream.simps)
qed

text \<open>The sockets a session opens; a failed \<open>socket\<close> or \<open>bind\<close> is reported, and the object kept.\<close>

lemma OpenSendSocket_result:
  "OpenSendSocket inet_addr r port rs = (ok, rs') \<Longrightarrow>
     ok = (0 \<le> or_socket r \<and> 0 \<le> or_bind r) \<and> SendFd rs' = or_socket r"
  by (auto simp: OpenSendSocket_def open_socket_def UdpSocket_Create_def UdpSocket_Bind_def SendFd_def
      split: if_splits prod.splits bool.splits)

lemma OpenRecvSocket_result:
  "OpenRecvSocket inet_addr r port rs = (ok, rs') \<Longrightarrow>
     ok = (0 \<le> or_socket r \<and> 0 \<le> or_bind r) \<and> RecvFd rs' = or_socket r"
  by (auto simp: OpenRecvSocket_def open_socket_def UdpSocket_Create_def UdpSocket_Bind_def RecvFd_def
      split: if_splits prod.splits bool.splits)

lemma ReceivePacket_total: "\<exists>n rs'. ReceivePacket inet_ntop outcome rs = Some (n, rs')"
proof (cases outcome)
  case (RecvData data src)
  obtain p where "RtpPacket_Parse (take 65536 data) = Some p" using RtpPacket_Parse_total by blast
  then show ?thesis by (simp add: ReceivePacket_def UdpSocket_RecvFrom_def Let_def RecvData)
qed (simp add: ReceivePacket_def UdpSocket_RecvFrom_def)

end
