(* ===== verification/Text_Io.thy ===== *)
theory Text_Io
  imports Prelude
begin

text \<open>
  The parts of the C++ standard library's text handling that the parsers and printers of the program
  use: \<open>std::getline\<close>, extraction of strings and integers from a stream in the C locale,
  \<open>std::stoi\<close>, decimal output and trimming. Strings are character lists; a stream is the text that is
  left and the fail bit.
\<close>

section \<open>Characters and lines\<close>

definition LF :: char where "LF = CHR 0x0A"
definition CR :: char where "CR = CHR 0x0D"
definition crlf :: string where "crlf = [CR, LF]"

definition isspace :: "char \<Rightarrow> bool" where
  "isspace c \<longleftrightarrow> c \<in> {CHR '' '', CHR 0x09, CHR 0x0A, CHR 0x0B, CHR 0x0C, CHR 0x0D}"

definition isdigit :: "char \<Rightarrow> bool" where
  "isdigit c \<longleftrightarrow> 48 \<le> (of_char c :: nat) \<and> (of_char c :: nat) \<le> 57"

text \<open>The lines \<open>while (std::getline(stream, line))\<close> goes through; a final line need not be terminated.\<close>

function get_lines :: "string \<Rightarrow> string list" where
  "get_lines s =
     (if s = [] then []
      else takeWhile (\<lambda>c. c \<noteq> LF) s # get_lines (drop 1 (dropWhile (\<lambda>c. c \<noteq> LF) s)))"
  by pat_completeness auto
termination
proof (relation "measure length")
  fix s :: string
  assume "s \<noteq> []"
  then have "length (dropWhile (\<lambda>c. c \<noteq> LF) s) \<le> length s" "0 < length s"
    by (simp_all add: length_dropWhile_le)
  then have "length (dropWhile (\<lambda>c. c \<noteq> LF) s) - 1 < length s" by linarith
  then show "(drop 1 (dropWhile (\<lambda>c. c \<noteq> LF) s), s) \<in> measure length" by simp
qed simp

declare get_lines.simps [simp del]

lemma get_lines_Nil [simp]: "get_lines [] = []"
  by (simp add: get_lines.simps)

lemma get_lines_line:
  assumes "LF \<notin> set l"
  shows "get_lines (l @ LF # rest) = l # get_lines rest"
proof -
  have "takeWhile (\<lambda>c. c \<noteq> LF) (l @ LF # rest) = l" "dropWhile (\<lambda>c. c \<noteq> LF) (l @ LF # rest) = LF # rest"
    using assms by (auto simp: takeWhile_append dropWhile_append)
  then show ?thesis by (subst get_lines.simps) simp
qed

section \<open>Numbers\<close>

definition digit_char :: "nat \<Rightarrow> char" where
  "digit_char d = char_of (48 + d)"

definition digit_val :: "char \<Rightarrow> nat" where
  "digit_val c = of_char c - 48"

text \<open>Decimal output of \<open>operator<<\<close> for unsigned and signed integers.\<close>

fun show_nat :: "nat \<Rightarrow> string" where
  "show_nat n = (if n < 10 then [digit_char n] else show_nat (n div 10) @ [digit_char (n mod 10)])"

declare show_nat.simps [simp del]

definition show_int :: "int \<Rightarrow> string" where
  "show_int i = (if i < 0 then ''-'' @ show_nat (nat (- i)) else show_nat (nat i))"

definition digits_value :: "string \<Rightarrow> nat" where
  "digits_value ds = foldl (\<lambda>n c. 10 * n + digit_val c) 0 ds"

text \<open>An optional sign and the digits at the head of a text: whether it is negative, digits, rest.\<close>

definition scan_number :: "string \<Rightarrow> bool \<times> string \<times> string" where
  "scan_number s =
     (let neg = (s \<noteq> [] \<and> hd s = CHR ''-'');
          s' = (if s \<noteq> [] \<and> (hd s = CHR ''-'' \<or> hd s = CHR ''+'') then tl s else s)
      in (neg, takeWhile isdigit s', dropWhile isdigit s'))"

subsection \<open>Streams\<close>

record istream =
  is_rest :: string
  is_fail :: bool

definition istringstream :: "string \<Rightarrow> istream" where
  "istringstream s = \<lparr>is_rest = s, is_fail = False\<rparr>"

text \<open>\<open>stream >> string\<close>: the variable keeps its value when nothing can be extracted.\<close>

definition read_string :: "istream \<Rightarrow> string \<Rightarrow> string \<times> istream" where
  "read_string st v =
     (let s = dropWhile isspace (is_rest st)
      in if is_fail st then (v, st)
         else if s = [] then (v, \<lparr>is_rest = [], is_fail = True\<rparr>)
         else (takeWhile (\<lambda>c. \<not> isspace c) s,
               \<lparr>is_rest = dropWhile (\<lambda>c. \<not> isspace c) s, is_fail = False\<rparr>))"

text \<open>
  \<open>stream >> uint16_t\<close> and \<open>stream >> int\<close>: a field without digits stores 0, one out of range the
  nearest limit, both with the fail bit; on a failed or exhausted stream the variable keeps its value.
  A negative field for an unsigned type is negated modulo \<open>2^16\<close>.
\<close>

definition read_u16 :: "istream \<Rightarrow> u16 \<Rightarrow> u16 \<times> istream" where
  "read_u16 st v =
     (let s = dropWhile isspace (is_rest st)
      in if is_fail st then (v, st)
         else if s = [] then (v, \<lparr>is_rest = [], is_fail = True\<rparr>)
         else case scan_number s of (neg, ds, rest) \<Rightarrow>
           if ds = [] then (0, \<lparr>is_rest = rest, is_fail = True\<rparr>)
           else if digits_value ds > 65535 then (65535, \<lparr>is_rest = rest, is_fail = True\<rparr>)
           else (if neg then - of_nat (digits_value ds) else of_nat (digits_value ds),
                 \<lparr>is_rest = rest, is_fail = False\<rparr>))"

definition read_int :: "istream \<Rightarrow> int \<Rightarrow> int \<times> istream" where
  "read_int st v =
     (let s = dropWhile isspace (is_rest st)
      in if is_fail st then (v, st)
         else if s = [] then (v, \<lparr>is_rest = [], is_fail = True\<rparr>)
         else case scan_number s of (neg, ds, rest) \<Rightarrow>
           let n = (if neg then - int (digits_value ds) else int (digits_value ds))
           in if ds = [] then (0, \<lparr>is_rest = rest, is_fail = True\<rparr>)
              else if n < - (2 ^ 31) then (- (2 ^ 31), \<lparr>is_rest = rest, is_fail = True\<rparr>)
              else if n \<ge> 2 ^ 31 then (2 ^ 31 - 1, \<lparr>is_rest = rest, is_fail = True\<rparr>)
              else (n, \<lparr>is_rest = rest, is_fail = False\<rparr>))"

text \<open>The exceptions of \<open>std::stoi\<close>.\<close>

datatype stoi_error = InvalidArgument | OutOfRange

definition stoi :: "string \<Rightarrow> stoi_error + int" where
  "stoi s =
     (case scan_number (dropWhile isspace s) of (neg, ds, rest) \<Rightarrow>
        let n = (if neg then - int (digits_value ds) else int (digits_value ds))
        in if ds = [] then Inl InvalidArgument
           else if n < - (2 ^ 31) \<or> n \<ge> 2 ^ 31 then Inl OutOfRange
           else Inr n)"

text \<open>
  The four \<open>erase\<close> calls around a key or value: blanks and tabs go at both ends.
\<close>

definition isblank :: "char \<Rightarrow> bool" where
  "isblank c \<longleftrightarrow> c = CHR '' '' \<or> c = CHR 0x09"

definition trim :: "string \<Rightarrow> string" where
  "trim s = rev (dropWhile isblank (rev (dropWhile isblank s)))"

section \<open>Printing and reading back\<close>

lemma digit_char_numerals [simp]:
  "digit_char 0 = CHR ''0''"
  "digit_char (Suc 0) = CHR ''1''"
  "digit_char 2 = CHR ''2''"
  "digit_char 3 = CHR ''3''"
  "digit_char 4 = CHR ''4''"
  "digit_char 5 = CHR ''5''"
  "digit_char 6 = CHR ''6''"
  "digit_char 7 = CHR ''7''"
  "digit_char 8 = CHR ''8''"
  "digit_char 9 = CHR ''9''"
  by (simp_all add: digit_char_def char_of_def bit_Suc_0_iff)

lemma of_char_digit [simp]: "d < 10 \<Longrightarrow> (of_char (digit_char d) :: nat) = 48 + d"
  by (simp add: digit_char_def of_char_of)

lemma digit_val_char [simp]: "d < 10 \<Longrightarrow> digit_val (digit_char d) = d"
  by (simp add: digit_val_def)

lemma isdigit_char [simp]: "d < 10 \<Longrightarrow> isdigit (digit_char d)"
  by (simp add: isdigit_def)

lemma show_nat_digits: "c \<in> set (show_nat n) \<Longrightarrow> isdigit c"
proof (induction n rule: show_nat.induct)
  case (1 n)
  then show ?case by (subst (asm) show_nat.simps) (auto split: if_splits)
qed

lemma show_nat_nonempty [simp]: "show_nat n \<noteq> []"
  by (simp add: show_nat.simps)

lemma digits_value_snoc: "digits_value (ds @ [c]) = 10 * digits_value ds + digit_val c"
  by (simp add: digits_value_def)

lemma digits_value_show_nat [simp]: "digits_value (show_nat n) = n"
proof (induction n rule: show_nat.induct)
  case (1 n)
  show ?case
  proof (cases "n < 10")
    case True
    then show ?thesis by (simp add: show_nat.simps digits_value_def)
  next
    case False
    with 1 show ?thesis by (subst show_nat.simps) (simp add: digits_value_snoc)
  qed
qed

lemma isdigit_not_sign: "isdigit c \<Longrightarrow> c \<noteq> CHR ''-'' \<and> c \<noteq> CHR ''+''"
  by (auto simp: isdigit_def)

lemma isdigit_not_space: "isdigit c \<Longrightarrow> \<not> isspace c \<and> \<not> isblank c \<and> c \<noteq> LF \<and> c \<noteq> CR"
  by (auto simp: isdigit_def isspace_def isblank_def LF_def CR_def)

lemma takeWhile_digits:
  assumes "\<And>c. c \<in> set ds \<Longrightarrow> P c" "rest = [] \<or> \<not> P (hd rest)"
  shows "takeWhile P (ds @ rest) = ds" "dropWhile P (ds @ rest) = rest"
  using assms by (cases rest; auto simp: takeWhile_append dropWhile_append)+

lemma scan_number_show_nat:
  assumes "rest = [] \<or> \<not> isdigit (hd rest)"
  shows "scan_number (show_nat n @ rest) = (False, show_nat n, rest)"
proof -
  obtain c cs where c: "show_nat n = c # cs" by (cases "show_nat n") auto
  then have "isdigit c" using show_nat_digits[of c n] by simp
  then have "c \<noteq> CHR ''-''" "c \<noteq> CHR ''+''" using isdigit_not_sign by auto
  then have "scan_number (show_nat n @ rest) =
      (False, takeWhile isdigit (show_nat n @ rest), dropWhile isdigit (show_nat n @ rest))"
    by (simp add: scan_number_def c)
  also have "takeWhile isdigit (show_nat n @ rest) = show_nat n"
    using takeWhile_digits(1)[of "show_nat n" isdigit rest] show_nat_digits assms by blast
  also have "dropWhile isdigit (show_nat n @ rest) = rest"
    using takeWhile_digits(2)[of "show_nat n" isdigit rest] show_nat_digits assms by blast
  finally show ?thesis .
qed

lemma scan_number_show_int:
  assumes "rest = [] \<or> \<not> isdigit (hd rest)"
  shows "scan_number (show_int i @ rest) = (i < 0, show_nat (nat \<bar>i\<bar>), rest)"
proof (cases "i < 0")
  case True
  then show ?thesis
    using takeWhile_digits[of "show_nat (nat (- i))" isdigit rest] show_nat_digits assms
    by (simp add: show_int_def scan_number_def)
next
  case False
  then show ?thesis using scan_number_show_nat[OF assms] by (simp add: show_int_def)
qed

lemma show_nat_no_space: "c \<in> set (show_nat n) \<Longrightarrow> \<not> isspace c \<and> c \<noteq> LF \<and> c \<noteq> CR"
  using show_nat_digits isdigit_not_space by blast

lemma show_int_no_space: "c \<in> set (show_int i) \<Longrightarrow> \<not> isspace c \<and> c \<noteq> LF \<and> c \<noteq> CR"
  using show_nat_no_space by (auto simp: show_int_def isspace_def LF_def CR_def split: if_splits)

end
