(* ===== verification/Sdp.thy ===== *)
theory Sdp
  imports Text_Io
begin

text \<open>
  Session descriptions (\<open>common/sdp.h\<close>, \<open>common/sdp.cpp\<close>): the parser of RFC 4566 texts, the lookup of
  the audio and video lines, and the builders of offer and answer.
\<close>

section \<open>Data\<close>

record sdp_media =
  sm_type :: string
  sm_port :: u16
  sm_protocol :: string
  sm_formats :: "int list"
  sm_rtpmap :: string

definition SdpMedia_new :: sdp_media where
  "SdpMedia_new = \<lparr>sm_type = [], sm_port = 0, sm_protocol = [], sm_formats = [], sm_rtpmap = []\<rparr>"

record sdp_session =
  ss_conn_addr :: string
  ss_media :: "sdp_media list"

definition SdpSession_new :: sdp_session where
  "SdpSession_new = \<lparr>ss_conn_addr = [], ss_media = []\<rparr>"

definition FindAudio :: "sdp_session \<Rightarrow> sdp_media option" where
  "FindAudio s = List.find (\<lambda>m. sm_type m = ''audio'') (ss_media s)"

definition FindVideo :: "sdp_session \<Rightarrow> sdp_media option" where
  "FindVideo s = List.find (\<lambda>m. sm_type m = ''video'') (ss_media s)"

section \<open>The parser\<close>

definition strip_cr :: "string \<Rightarrow> string" where
  "strip_cr line = (if line \<noteq> [] \<and> last line = CR then butlast line else line)"

definition starts_with :: "string \<Rightarrow> string \<Rightarrow> bool" where
  "starts_with p line \<longleftrightarrow> take (length p) line = p"

text \<open>\<open>while (ls >> fmt) formats.push_back(fmt)\<close>; every extraction that succeeds consumes a digit.\<close>

lemma read_int_shrinks:
  "read_int st v = (n, st') \<Longrightarrow> \<not> is_fail st' \<Longrightarrow> length (is_rest st') < length (is_rest st)"
proof -
  assume r: "read_int st v = (n, st')" "\<not> is_fail st'"
  let ?s = "dropWhile isspace (is_rest st)"
  let ?t = "if ?s \<noteq> [] \<and> (hd ?s = CHR ''-'' \<or> hd ?s = CHR ''+'') then tl ?s else ?s"
  have t: "is_rest st' = dropWhile isdigit ?t" "takeWhile isdigit ?t \<noteq> []"
    using r by (auto simp: read_int_def Let_def scan_number_def split: if_splits prod.splits)
  then have "length (dropWhile isdigit ?t) < length ?t"
    by (metis length_append length_greater_0_conv less_add_same_cancel2 takeWhile_dropWhile_id)
  also have "length ?t \<le> length ?s" by simp
  also have "length ?s \<le> length (is_rest st)" by (rule length_dropWhile_le)
  finally show ?thesis using t(1) by simp
qed

function read_formats :: "istream \<Rightarrow> int \<Rightarrow> int list" where
  "read_formats st fmt =
     (case read_int st fmt of (n, st') \<Rightarrow> if is_fail st' then [] else n # read_formats st' n)"
  by pat_completeness auto
termination
  by (relation "measure (\<lambda>(st, fmt). length (is_rest st))") (auto dest: read_int_shrinks[OF sym])

declare read_formats.simps [simp del]

text \<open>The \<open>c=\<close> line: the third field becomes the connection address.\<close>

definition parse_connection :: "string \<Rightarrow> sdp_session \<Rightarrow> sdp_session" where
  "parse_connection body s =
     (let (nettype, ls) = read_string (istringstream body) [];
          (addrtype, ls) = read_string ls [];
          (addr, ls) = read_string ls []
      in if addr \<noteq> [] then s\<lparr>ss_conn_addr := addr\<rparr> else s)"

definition parse_media :: "string \<Rightarrow> sdp_media" where
  "parse_media body =
     (let (ty, ls) = read_string (istringstream body) [];
          (port, ls) = read_u16 ls 0;
          (protocol, ls) = read_string ls []
      in SdpMedia_new\<lparr>sm_type := ty, sm_port := port, sm_protocol := protocol,
                      sm_formats := read_formats ls 0\<rparr>)"

text \<open>
  One iteration of the loop over the lines. The second component is whether \<open>cur_media\<close> is set; it then
  points to the last element of \<open>out.media\<close>.
\<close>

definition parse_line :: "sdp_session \<times> bool \<Rightarrow> string \<Rightarrow> sdp_session \<times> bool" where
  "parse_line acc raw =
     (case acc of (out, cur_media) \<Rightarrow>
        let line = strip_cr raw
        in if line = [] then (out, cur_media)
           else if starts_with ''c='' line then (parse_connection (drop 2 line) out, cur_media)
           else if starts_with ''m='' line
           then (out\<lparr>ss_media := ss_media out @ [parse_media (drop 2 line)]\<rparr>, True)
           else if starts_with ''a=rtpmap:'' line \<and> cur_media
           then (out\<lparr>ss_media := butlast (ss_media out)
                      @ [(last (ss_media out))\<lparr>sm_rtpmap := drop 2 line\<rparr>]\<rparr>, cur_media)
           else (out, cur_media))"

definition SdpBuilder_Parse :: "string \<Rightarrow> sdp_session \<Rightarrow> bool \<times> sdp_session" where
  "SdpBuilder_Parse sdp_text out =
     (let (out', cur_media) = foldl parse_line (out, False) (get_lines sdp_text)
      in (ss_media out' \<noteq> [], out'))"

section \<open>The builders\<close>

definition BuildOffer :: "string \<Rightarrow> u16 \<Rightarrow> u16 \<Rightarrow> int \<Rightarrow> int \<Rightarrow> string" where
  "BuildOffer local_ip audio_port video_port audio_pt video_pt =
     ''v=0'' @ crlf
     @ ''o=rtcom 1 1 IN IP4 '' @ local_ip @ crlf
     @ ''s=rtcom'' @ crlf
     @ ''c=IN IP4 '' @ local_ip @ crlf
     @ ''t=0 0'' @ crlf
     @ ''m=audio '' @ show_nat (unat audio_port) @ '' RTP/AVP '' @ show_int audio_pt @ crlf
     @ ''a=rtpmap:'' @ show_int audio_pt @ '' AAC/44100/1'' @ crlf
     @ ''m=video '' @ show_nat (unat video_port) @ '' RTP/AVP '' @ show_int video_pt @ crlf
     @ ''a=rtpmap:'' @ show_int video_pt @ '' H264/90000'' @ crlf"

definition BuildAnswer :: "string \<Rightarrow> u16 \<Rightarrow> u16 \<Rightarrow> int \<Rightarrow> int \<Rightarrow> string" where
  "BuildAnswer local_ip audio_port video_port audio_pt video_pt =
     ''v=0'' @ crlf
     @ ''o=rtcom 1 1 IN IP4 '' @ local_ip @ crlf
     @ ''s=rtcom'' @ crlf
     @ ''c=IN IP4 '' @ local_ip @ crlf
     @ ''t=0 0'' @ crlf
     @ ''m=audio '' @ show_nat (unat audio_port) @ '' RTP/AVP '' @ show_int audio_pt @ crlf
     @ ''a=rtpmap:'' @ show_int audio_pt @ '' AAC/44100/1'' @ crlf
     @ ''m=video '' @ show_nat (unat video_port) @ '' RTP/AVP '' @ show_int video_pt @ crlf
     @ ''a=rtpmap:'' @ show_int video_pt @ '' H264/90000'' @ crlf"

section \<open>Reading fields back\<close>

lemma istringstream_simps [simp]: "is_rest (istringstream s) = s" "is_fail (istringstream s) = False"
  by (simp_all add: istringstream_def)

definition word_text :: "string \<Rightarrow> bool" where
  "word_text w \<longleftrightarrow> w \<noteq> [] \<and> list_all (\<lambda>c. \<not> isspace c) w"

lemma word_text_hd: "word_text w \<Longrightarrow> \<exists>c cs. w = c # cs \<and> \<not> isspace c"
  by (cases w) (auto simp: word_text_def)

text \<open>Extraction of a word that is followed by a space or ends the stream.\<close>

definition field_end :: "string \<Rightarrow> bool" where
  "field_end rest \<longleftrightarrow> rest = [] \<or> isspace (hd rest)"

lemma read_string_word:
  assumes "word_text w" "field_end rest" "list_all isspace sp"
  shows "read_string \<lparr>is_rest = sp @ w @ rest, is_fail = False\<rparr> v = (w, \<lparr>is_rest = rest, is_fail = False\<rparr>)"
proof -
  obtain c cs where w: "w = c # cs" "\<not> isspace c" using word_text_hd[OF assms(1)] by blast
  have d: "dropWhile isspace (sp @ w @ rest) = w @ rest"
    using assms(3) w by (subst dropWhile_append2) (auto simp: list_all_iff)
  have "takeWhile (\<lambda>c. \<not> isspace c) (w @ rest) = w" "dropWhile (\<lambda>c. \<not> isspace c) (w @ rest) = rest"
    using takeWhile_digits[of w "\<lambda>c. \<not> isspace c" rest] assms(1,2)
    by (auto simp: word_text_def list_all_iff field_end_def)
  then show ?thesis using d w(1) by (simp add: read_string_def)
qed

lemma show_nat_word: "word_text (show_nat n)"
  by (auto simp: word_text_def list_all_iff dest: show_nat_no_space)

lemma show_int_word: "word_text (show_int i)"
  using show_int_no_space by (auto simp: word_text_def list_all_iff show_int_def)

lemma field_end_not_digit: "field_end rest \<Longrightarrow> rest = [] \<or> \<not> isdigit (hd rest)"
  using isdigit_not_space by (auto simp: field_end_def)

lemma read_u16_show:
  assumes "field_end rest" "list_all isspace sp"
  shows "read_u16 \<lparr>is_rest = sp @ show_nat (unat p) @ rest, is_fail = False\<rparr> v =
     (p, \<lparr>is_rest = rest, is_fail = False\<rparr>)"
proof -
  obtain c cs where w: "show_nat (unat p) = c # cs" "\<not> isspace c"
    using word_text_hd[OF show_nat_word] by blast
  have d: "dropWhile isspace (sp @ show_nat (unat p) @ rest) = show_nat (unat p) @ rest"
    using assms(2) w by (subst dropWhile_append2) (auto simp: list_all_iff)
  have "unat p < 2 ^ 16" using unsigned_less[of p] by simp
  then have "unat p \<le> 65535" by simp
  then show ?thesis
    using scan_number_show_nat[OF field_end_not_digit[OF assms(1)], of "unat p"] d
    by (simp add: read_u16_def)
qed

lemma read_int_show:
  assumes "field_end rest" "list_all isspace sp" "- (2 ^ 31) \<le> i" "i < 2 ^ 31"
  shows "read_int \<lparr>is_rest = sp @ show_int i @ rest, is_fail = False\<rparr> v =
     (i, \<lparr>is_rest = rest, is_fail = False\<rparr>)"
proof -
  obtain c cs where w: "show_int i = c # cs" "\<not> isspace c"
    using word_text_hd[OF show_int_word] by blast
  have d: "dropWhile isspace (sp @ show_int i @ rest) = show_int i @ rest"
    using assms(2) w by (subst dropWhile_append2) (auto simp: list_all_iff)
  have "(if i < 0 then - int (nat \<bar>i\<bar>) else int (nat \<bar>i\<bar>)) = i" by simp
  then show ?thesis
    using scan_number_show_int[OF field_end_not_digit[OF assms(1)], of i] d w(1) assms(3,4)
    by (simp add: read_int_def)
qed

lemma read_formats_one:
  assumes "- (2 ^ 31) \<le> i" "i < 2 ^ 31" "list_all isspace sp"
  shows "read_formats \<lparr>is_rest = sp @ show_int i, is_fail = False\<rparr> v = [i]"
proof -
  have "read_int \<lparr>is_rest = sp @ show_int i, is_fail = False\<rparr> v = (i, \<lparr>is_rest = [], is_fail = False\<rparr>)"
    using read_int_show[of "[]" sp i v] assms by (simp add: field_end_def)
  moreover have "read_int \<lparr>is_rest = [], is_fail = False\<rparr> i = (i, \<lparr>is_rest = [], is_fail = True\<rparr>)"
    by (simp add: read_int_def)
  ultimately show ?thesis
    by (simp add: read_formats.simps[of "\<lparr>is_rest = sp @ show_int i, is_fail = False\<rparr>"]
        read_formats.simps[of "\<lparr>is_rest = [], is_fail = False\<rparr>"])
qed

lemma parse_media_line:
  assumes "word_text ty" "- (2 ^ 31) \<le> pt" "pt < 2 ^ 31"
  shows "parse_media (ty @ '' '' @ show_nat (unat p) @ '' RTP/AVP '' @ show_int pt) =
     \<lparr>sm_type = ty, sm_port = p, sm_protocol = ''RTP/AVP'', sm_formats = [pt], sm_rtpmap = []\<rparr>"
proof -
  let ?r3 = "'' '' @ show_int pt"
  let ?r2 = "'' '' @ ''RTP/AVP'' @ ?r3"
  let ?r1 = "'' '' @ show_nat (unat p) @ ?r2"
  have sp: "list_all isspace '' ''" "field_end ?r1" "field_end ?r2" "field_end ?r3"
    by (simp_all add: isspace_def field_end_def)
  have "read_string (istringstream (ty @ ?r1)) [] = (ty, \<lparr>is_rest = ?r1, is_fail = False\<rparr>)"
    using read_string_word[OF assms(1) sp(2), of "[]" "[]"] by (simp add: istringstream_def)
  moreover have "read_u16 \<lparr>is_rest = ?r1, is_fail = False\<rparr> 0 = (p, \<lparr>is_rest = ?r2, is_fail = False\<rparr>)"
    by (rule read_u16_show[OF sp(3) sp(1)])
  moreover have "read_string \<lparr>is_rest = ?r2, is_fail = False\<rparr> [] = (''RTP/AVP'', \<lparr>is_rest = ?r3, is_fail = False\<rparr>)"
    by (rule read_string_word[OF _ sp(4) sp(1)]) (simp add: word_text_def isspace_def)
  moreover have "read_formats \<lparr>is_rest = ?r3, is_fail = False\<rparr> 0 = [pt]"
    by (rule read_formats_one[OF assms(2,3) sp(1)])
  ultimately show ?thesis
    by (simp add: parse_media_def SdpMedia_new_def del: append_Cons append_Nil) simp
qed

lemma parse_connection_line:
  assumes "word_text ip"
  shows "parse_connection (''IN IP4 '' @ ip) s = s\<lparr>ss_conn_addr := ip\<rparr>"
proof -
  have sp: "list_all isspace '' ''" "field_end ('' IP4 '' @ ip)" "field_end ('' '' @ ip)" "field_end []"
    by (simp_all add: isspace_def field_end_def)
  have w: "word_text ''IN''" "word_text ''IP4''" by (simp_all add: word_text_def isspace_def)
  have "read_string (istringstream (''IN'' @ '' IP4 '' @ ip)) [] = (''IN'', \<lparr>is_rest = '' IP4 '' @ ip, is_fail = False\<rparr>)"
    using read_string_word[OF w(1) sp(2), of "[]" "[]"] by (simp add: istringstream_def)
  moreover have "read_string \<lparr>is_rest = '' IP4 '' @ ip, is_fail = False\<rparr> [] = (''IP4'', \<lparr>is_rest = '' '' @ ip, is_fail = False\<rparr>)"
    using read_string_word[OF w(2) sp(3,1), of "[]"] by simp
  moreover have "read_string \<lparr>is_rest = '' '' @ ip, is_fail = False\<rparr> [] = (ip, \<lparr>is_rest = [], is_fail = False\<rparr>)"
    using read_string_word[OF assms sp(4,1), of "[]"] by simp
  moreover have "ip \<noteq> []" using assms by (simp add: word_text_def)
  ultimately show ?thesis by (simp add: parse_connection_def)
qed

section \<open>The text of an answer\<close>

definition sdp_lines :: "string \<Rightarrow> u16 \<Rightarrow> u16 \<Rightarrow> int \<Rightarrow> int \<Rightarrow> string list" where
  "sdp_lines ip ap vp apt vpt =
     [''v=0'', ''o=rtcom 1 1 IN IP4 '' @ ip, ''s=rtcom'', ''c='' @ ''IN IP4 '' @ ip, ''t=0 0'',
      ''m='' @ ''audio'' @ '' '' @ show_nat (unat ap) @ '' RTP/AVP '' @ show_int apt,
      ''a=rtpmap:'' @ show_int apt @ '' AAC/44100/1'',
      ''m='' @ ''video'' @ '' '' @ show_nat (unat vp) @ '' RTP/AVP '' @ show_int vpt,
      ''a=rtpmap:'' @ show_int vpt @ '' H264/90000'']"

definition crlf_lines :: "string list \<Rightarrow> string" where
  "crlf_lines ls = concat (map (\<lambda>l. l @ crlf) ls)"

lemma BuildAnswer_lines: "BuildAnswer ip ap vp apt vpt = crlf_lines (sdp_lines ip ap vp apt vpt)"
  by (simp add: BuildAnswer_def crlf_lines_def sdp_lines_def)

lemma BuildOffer_lines: "BuildOffer ip ap vp apt vpt = crlf_lines (sdp_lines ip ap vp apt vpt)"
  by (simp add: BuildOffer_def crlf_lines_def sdp_lines_def)

lemma get_lines_crlf:
  "list_all (\<lambda>l. LF \<notin> set l) ls \<Longrightarrow> get_lines (crlf_lines ls) = map (\<lambda>l. l @ [CR]) ls"
proof (induction ls)
  case (Cons l ls)
  have "get_lines ((l @ [CR]) @ LF # crlf_lines ls) = (l @ [CR]) # get_lines (crlf_lines ls)"
    by (rule get_lines_line) (use Cons.prems in \<open>simp add: CR_def LF_def\<close>)
  with Cons show ?case by (simp add: crlf_lines_def crlf_def)
qed (simp add: crlf_lines_def)

lemma strip_cr_line [simp]: "strip_cr (l @ [CR]) = l"
  by (simp add: strip_cr_def)

lemma sdp_lines_no_LF: "word_text ip \<Longrightarrow> list_all (\<lambda>l. LF \<notin> set l) (sdp_lines ip ap vp apt vpt)"
proof -
  assume "word_text ip"
  then have "LF \<notin> set ip" by (auto simp: word_text_def list_all_iff isspace_def LF_def)
  moreover have "LF \<notin> set (show_nat n)" "LF \<notin> set (show_int i)" for n i
    using show_nat_no_space show_int_no_space by blast+
  ultimately show ?thesis by (simp add: sdp_lines_def LF_def)
qed

lemma starts_with_simps:
  "starts_with ''c='' (a # b # s) \<longleftrightarrow> a = CHR ''c'' \<and> b = CHR ''=''"
  "starts_with ''m='' (a # b # s) \<longleftrightarrow> a = CHR ''m'' \<and> b = CHR ''=''"
  by (simp_all add: starts_with_def)

lemma parse_line_c: "parse_line (s, cur) ((''c='' @ l) @ [CR]) = (parse_connection l s, cur)"
  by (simp only: parse_line_def strip_cr_line prod.case Let_def) (simp add: starts_with_simps)

lemma parse_line_m:
  "parse_line (s, cur) ((''m='' @ l) @ [CR]) = (s\<lparr>ss_media := ss_media s @ [parse_media l]\<rparr>, True)"
  by (simp only: parse_line_def strip_cr_line prod.case Let_def) (simp add: starts_with_simps)

lemma parse_line_rtpmap:
  "parse_line (s, True) ((''a=rtpmap:'' @ l) @ [CR]) =
     (s\<lparr>ss_media := butlast (ss_media s) @ [(last (ss_media s))\<lparr>sm_rtpmap := ''rtpmap:'' @ l\<rparr>]\<rparr>, True)"
  by (simp only: parse_line_def strip_cr_line prod.case Let_def) (simp add: starts_with_def)

lemma parse_line_other:
  assumes "l \<noteq> []" "\<not> starts_with ''c='' l" "\<not> starts_with ''m='' l" "\<not> starts_with ''a=rtpmap:'' l"
  shows "parse_line (s, cur) (l @ [CR]) = (s, cur)"
  using assms by (simp add: parse_line_def)

definition answer_media :: "string \<Rightarrow> u16 \<Rightarrow> int \<Rightarrow> string \<Rightarrow> sdp_media" where
  "answer_media ty p pt codec =
     \<lparr>sm_type = ty, sm_port = p, sm_protocol = ''RTP/AVP'', sm_formats = [pt],
      sm_rtpmap = ''rtpmap:'' @ show_int pt @ codec\<rparr>"

lemma parse_sdp_lines:
  assumes "word_text ip" "- (2 ^ 31) \<le> apt" "apt < 2 ^ 31" "- (2 ^ 31) \<le> vpt" "vpt < 2 ^ 31"
  shows "foldl parse_line (SdpSession_new, False) (map (\<lambda>l. l @ [CR]) (sdp_lines ip ap vp apt vpt)) =
    (\<lparr>ss_conn_addr = ip, ss_media = [answer_media ''audio'' ap apt '' AAC/44100/1'',
        answer_media ''video'' vp vpt '' H264/90000'']\<rparr>, True)"
proof -
  have o: "parse_line (s, cur) (l @ [CR]) = (s, cur)"
    if "l \<in> {''v=0'', ''o=rtcom 1 1 IN IP4 '' @ ip, ''s=rtcom'', ''t=0 0''}" for s cur l
    by (rule parse_line_other) (use that in \<open>auto simp: starts_with_def\<close>)
  have w: "word_text ''audio''" "word_text ''video''" by (simp_all add: word_text_def isspace_def)
  note m = parse_media_line[OF w(1) assms(2,3), of ap] parse_media_line[OF w(2) assms(4,5), of vp]
  show ?thesis
    unfolding sdp_lines_def list.map foldl_Cons foldl_Nil
    by (simp only: o parse_line_c parse_line_m parse_line_rtpmap parse_connection_line[OF assms(1)] m
        insert_iff simp_thms) (simp add: SdpSession_new_def answer_media_def)
qed

section \<open>Properties\<close>

lemma build_parse_core:
  assumes "word_text ip" "- (2 ^ 31) \<le> apt" "apt < 2 ^ 31" "- (2 ^ 31) \<le> vpt" "vpt < 2 ^ 31"
    "text = BuildOffer ip ap vp apt vpt \<or> text = BuildAnswer ip ap vp apt vpt"
  shows "\<exists>s. SdpBuilder_Parse text SdpSession_new = (True, s) \<and> ss_conn_addr s = ip \<and>
    FindAudio s = Some (answer_media ''audio'' ap apt '' AAC/44100/1'') \<and>
    FindVideo s = Some (answer_media ''video'' vp vpt '' H264/90000'')"
proof -
  have "text = crlf_lines (sdp_lines ip ap vp apt vpt)"
    using assms(6) by (auto simp: BuildAnswer_lines BuildOffer_lines)
  then have "SdpBuilder_Parse text SdpSession_new = (True, \<lparr>ss_conn_addr = ip,
      ss_media = [answer_media ''audio'' ap apt '' AAC/44100/1'',
        answer_media ''video'' vp vpt '' H264/90000'']\<rparr>)"
    by (simp add: SdpBuilder_Parse_def get_lines_crlf[OF sdp_lines_no_LF[OF assms(1)]]
        parse_sdp_lines[OF assms(1-5)])
  then show ?thesis by (simp add: FindAudio_def FindVideo_def answer_media_def)
qed

text \<open>
  Property C28. Offer, answer and parser agree: the parser reads back the offer, and the answer, that the
  builders write for any address without blanks, any two ports and any two payload types, and finds the
  audio and the video line with the port, the payload type and the codec that went in.
\<close>

theorem Sdp_build_parse:
  assumes "word_text ip" "- (2 ^ 31) \<le> apt" "apt < 2 ^ 31" "- (2 ^ 31) \<le> vpt" "vpt < 2 ^ 31"
    "text = BuildOffer ip ap vp apt vpt \<or> text = BuildAnswer ip ap vp apt vpt"
  shows "\<exists>s. SdpBuilder_Parse text SdpSession_new = (True, s) \<and> ss_conn_addr s = ip \<and>
    FindAudio s = Some (answer_media ''audio'' ap apt '' AAC/44100/1'') \<and>
    FindVideo s = Some (answer_media ''video'' vp vpt '' H264/90000'')"
  by (rule build_parse_core[OF assms])

theorem Sdp_build_parse_witness:
  "\<exists>s. SdpBuilder_Parse (BuildAnswer ''10.0.0.1'' 5004 5010 96 97) SdpSession_new = (True, s) \<and>
    ss_conn_addr s = ''10.0.0.1'' \<and> map_option sm_port (FindAudio s) = Some 5004 \<and>
    map_option sm_formats (FindVideo s) = Some [97]"
  using Sdp_build_parse[of "''10.0.0.1''" 96 97 "BuildAnswer ''10.0.0.1'' 5004 5010 96 97" 5004 5010]
  by (auto simp: word_text_def isspace_def answer_media_def)

lemma parse_line_media_count:
  "length (ss_media (fst (parse_line (s, cur) l))) =
     length (ss_media s) + (if starts_with ''m='' (strip_cr l) then 1 else 0)"
  if "cur \<longrightarrow> ss_media s \<noteq> []"
  using that
  by (auto simp: parse_line_def Let_def parse_connection_def starts_with_def split: prod.splits)

lemma parse_line_cur: "cur \<longrightarrow> ss_media s \<noteq> [] \<Longrightarrow> parse_line (s, cur) l = (s', cur') \<Longrightarrow> cur' \<longrightarrow> ss_media s' \<noteq> []"
  by (auto simp: parse_line_def Let_def parse_connection_def split: prod.splits if_splits)

lemma foldl_media_count:
  "cur \<longrightarrow> ss_media s \<noteq> [] \<Longrightarrow>
   length (ss_media (fst (foldl parse_line (s, cur) ls))) =
     length (ss_media s) + length (filter (\<lambda>l. starts_with ''m='' (strip_cr l)) ls)"
proof (induction ls arbitrary: s cur)
  case (Cons l ls)
  obtain s' cur' where r: "parse_line (s, cur) l = (s', cur')" by fastforce
  from Cons.IH[OF parse_line_cur[OF Cons.prems r]] parse_line_media_count[OF Cons.prems, of l]
  show ?case by (simp add: r)
qed simp

text \<open>
  The parser on any text: it adds one media description for each line that starts with
  \<open>m=\<close>, however malformed the rest of the line is, and nothing else; it succeeds exactly when the session
  has a media description at the end.
\<close>

theorem SdpBuilder_Parse_media_lines:
  "length (ss_media (snd (SdpBuilder_Parse text s))) =
     length (ss_media s) + length (filter (\<lambda>l. starts_with ''m='' (strip_cr l)) (get_lines text)) \<and>
   fst (SdpBuilder_Parse text s) = (ss_media (snd (SdpBuilder_Parse text s)) \<noteq> [])"
  using foldl_media_count[of False s "get_lines text"]
  by (simp add: SdpBuilder_Parse_def case_prod_unfold Let_def)

end
