(* ===== verification/Config.thy ===== *)
theory Config
  imports Text_Io Rtcom_Types
begin

text \<open>
  The configuration file (\<open>common/config.h\<close>, \<open>common/config.cpp\<close>): a \<open>key=value\<close> text. Loading starts
  from the defaults and lets each line set a member; \<open>std::stoi\<close> throws on a value that is no number or
  does not fit an \<open>int\<close>, and the exception leaves \<open>LoadFromFile\<close>. A file is its text, or \<open>None\<close> when it
  cannot be opened.
\<close>

section \<open>Loading\<close>

definition LoadDefault :: server_config where
  "LoadDefault = default_server_config"

text \<open>An integer member: the assignment converts the \<open>int\<close> to the member's unsigned type.\<close>

definition set_number :: "string \<Rightarrow> (int \<Rightarrow> server_config) \<Rightarrow> stoi_error + server_config" where
  "set_number v upd = (case stoi v of Inl e \<Rightarrow> Inl e | Inr n \<Rightarrow> Inr (upd n))"

definition apply_setting :: "string \<Rightarrow> string \<Rightarrow> server_config \<Rightarrow> stoi_error + server_config" where
  "apply_setting key v c =
     (let s = cfg_sip c; m = cfg_media c
      in if key = ''sip_server_addr'' then Inr (c\<lparr>cfg_sip := s\<lparr>sc_server_addr := v\<rparr>\<rparr>)
         else if key = ''sip_server_port''
         then set_number v (\<lambda>n. c\<lparr>cfg_sip := s\<lparr>sc_server_port := of_int n\<rparr>\<rparr>)
         else if key = ''sip_local_port''
         then set_number v (\<lambda>n. c\<lparr>cfg_sip := s\<lparr>sc_local_port := of_int n\<rparr>\<rparr>)
         else if key = ''sip_username'' then Inr (c\<lparr>cfg_sip := s\<lparr>sc_username := v\<rparr>\<rparr>)
         else if key = ''sip_domain'' then Inr (c\<lparr>cfg_sip := s\<lparr>sc_domain := v\<rparr>\<rparr>)
         else if key = ''sip_password'' then Inr (c\<lparr>cfg_sip := s\<lparr>sc_password := v\<rparr>\<rparr>)
         else if key = ''audio_port''
         then set_number v (\<lambda>n. c\<lparr>cfg_media := m\<lparr>mc_audio_port := of_int n\<rparr>\<rparr>)
         else if key = ''video_port''
         then set_number v (\<lambda>n. c\<lparr>cfg_media := m\<lparr>mc_video_port := of_int n\<rparr>\<rparr>)
         else if key = ''max_sessions'' then set_number v (\<lambda>n. c\<lparr>cfg_max_sessions := of_int n\<rparr>)
         else if key = ''worker_threads'' then set_number v (\<lambda>n. c\<lparr>cfg_worker_threads := of_int n\<rparr>)
         else Inr c)"

definition config_line :: "string \<Rightarrow> server_config \<Rightarrow> stoi_error + server_config" where
  "config_line line c =
     (if line = [] \<or> hd line = CHR ''#'' then Inr c
      else let before = takeWhile (\<lambda>x. x \<noteq> CHR ''='') line
           in if before = line then Inr c
              else apply_setting (trim before) (trim (drop (length before + 1) line)) c)"

fun config_lines :: "string list \<Rightarrow> server_config \<Rightarrow> stoi_error + server_config" where
  "config_lines [] c = Inr c"
| "config_lines (l # ls) c = (case config_line l c of Inl e \<Rightarrow> Inl e | Inr c' \<Rightarrow> config_lines ls c')"

definition LoadFromFile :: "string option \<Rightarrow> stoi_error + server_config" where
  "LoadFromFile file =
     (case file of None \<Rightarrow> Inr default_server_config
      | Some text \<Rightarrow> config_lines (get_lines text) default_server_config)"

section \<open>Saving\<close>

definition SaveToFile :: "server_config \<Rightarrow> string" where
  "SaveToFile c =
     ''# RTCom Server Configuration'' @ [LF]
     @ ''sip_server_addr='' @ sc_server_addr (cfg_sip c) @ [LF]
     @ ''sip_server_port='' @ show_nat (unat (sc_server_port (cfg_sip c))) @ [LF]
     @ ''sip_username='' @ sc_username (cfg_sip c) @ [LF]
     @ ''sip_domain='' @ sc_domain (cfg_sip c) @ [LF]
     @ ''sip_password='' @ sc_password (cfg_sip c) @ [LF]
     @ ''audio_port='' @ show_nat (unat (mc_audio_port (cfg_media c))) @ [LF]
     @ ''video_port='' @ show_nat (unat (mc_video_port (cfg_media c))) @ [LF]
     @ ''max_sessions='' @ show_nat (unat (cfg_max_sessions c)) @ [LF]
     @ ''worker_threads='' @ show_nat (unat (cfg_worker_threads c)) @ [LF]"

text \<open>The lines \<open>PrintConfig\<close> writes to the log.\<close>

definition PrintConfig :: "server_config \<Rightarrow> string list" where
  "PrintConfig c =
     [''=== Server Configuration ==='',
      ''SIP Server: '' @ sc_server_addr (cfg_sip c) @ '':'' @ show_nat (unat (sc_server_port (cfg_sip c))),
      ''SIP User: '' @ sc_username (cfg_sip c) @ ''@'' @ sc_domain (cfg_sip c),
      ''Audio Port: '' @ show_nat (unat (mc_audio_port (cfg_media c))),
      ''Video Port: '' @ show_nat (unat (mc_video_port (cfg_media c))),
      ''Audio Codec: '' @ CodecTypeToString (mc_audio_codec (cfg_media c)),
      ''Video Codec: '' @ CodecTypeToString (mc_video_codec (cfg_media c)),
      ''Max Sessions: '' @ show_nat (unat (cfg_max_sessions c)),
      ''Worker Threads: '' @ show_nat (unat (cfg_worker_threads c))]"

section \<open>Reading a saved setting\<close>

lemma config_line_setting:
  assumes "CHR ''='' \<notin> set key" "key \<noteq> []" "hd key \<noteq> CHR ''#''"
  shows "config_line (key @ CHR ''='' # v) c = apply_setting (trim key) (trim v) c"
proof -
  have "takeWhile (\<lambda>x. x \<noteq> CHR ''='') (key @ CHR ''='' # v) = key"
    using assms(1) by (auto simp: takeWhile_append)
  then show ?thesis using assms(2,3) by (simp add: config_line_def Let_def)
qed

text \<open>A value a setting can keep: no line feed inside, no blank at either end.\<close>

definition plain_value :: "string \<Rightarrow> bool" where
  "plain_value v \<longleftrightarrow> LF \<notin> set v \<and> (v = [] \<or> \<not> isblank (hd v) \<and> \<not> isblank (last v))"

lemma dropWhile_hd: "\<not> P (hd xs) \<Longrightarrow> dropWhile P xs = xs"
  by (cases xs) auto

lemma trim_plain: "plain_value v \<Longrightarrow> trim v = v"
  unfolding plain_value_def trim_def by (elim conjE disjE) (simp_all add: dropWhile_hd hd_rev)

lemma show_nat_plain: "plain_value (show_nat n)"
proof -
  have "isdigit (hd (show_nat n))" "isdigit (last (show_nat n))"
    using show_nat_digits[of "hd (show_nat n)" n] show_nat_digits[of "last (show_nat n)" n] by simp_all
  moreover have "LF \<notin> set (show_nat n)" using show_nat_no_space by blast
  ultimately show ?thesis using isdigit_not_space by (simp add: plain_value_def)
qed

lemma stoi_show_nat: "stoi (show_nat n) = (if n < 2 ^ 31 then Inr (int n) else Inl OutOfRange)"
proof -
  obtain c cs where c: "show_nat n = c # cs" by (cases "show_nat n") auto
  then have "\<not> isspace c" using show_nat_no_space[of c n] by simp
  then have "dropWhile isspace (show_nat n) = show_nat n" using c by simp
  then show ?thesis
    using scan_number_show_nat[of "[]" n] by (auto simp: stoi_def)
qed


section \<open>Properties\<close>

text \<open>The lines of a saved file, after its comment.\<close>

definition saved_settings :: "server_config \<Rightarrow> (string \<times> string) list" where
  "saved_settings c =
     [(''sip_server_addr'', sc_server_addr (cfg_sip c)),
      (''sip_server_port'', show_nat (unat (sc_server_port (cfg_sip c)))),
      (''sip_username'', sc_username (cfg_sip c)), (''sip_domain'', sc_domain (cfg_sip c)),
      (''sip_password'', sc_password (cfg_sip c)),
      (''audio_port'', show_nat (unat (mc_audio_port (cfg_media c)))),
      (''video_port'', show_nat (unat (mc_video_port (cfg_media c)))),
      (''max_sessions'', show_nat (unat (cfg_max_sessions c))),
      (''worker_threads'', show_nat (unat (cfg_worker_threads c)))]"

definition lf_lines :: "string list \<Rightarrow> string" where
  "lf_lines ls = concat (map (\<lambda>l. l @ [LF]) ls)"

lemma get_lines_lf: "list_all (\<lambda>l. LF \<notin> set l) ls \<Longrightarrow> get_lines (lf_lines ls) = ls"
  by (induction ls) (simp_all add: lf_lines_def get_lines_line)

lemma SaveToFile_lines:
  "SaveToFile c = lf_lines (''# RTCom Server Configuration''
     # map (\<lambda>(k, v). k @ CHR ''='' # v) (saved_settings c))"
  by (simp add: SaveToFile_def lf_lines_def saved_settings_def)

definition plain_config :: "server_config \<Rightarrow> bool" where
  "plain_config c \<longleftrightarrow>
     list_all plain_value [sc_server_addr (cfg_sip c), sc_username (cfg_sip c), sc_domain (cfg_sip c),
       sc_password (cfg_sip c)]"

lemma saved_lines_no_LF:
  assumes "plain_config c"
  shows "list_all (\<lambda>l. LF \<notin> set l) (''# RTCom Server Configuration''
     # map (\<lambda>(k, v). k @ CHR ''='' # v) (saved_settings c))"
proof -
  have "LF \<notin> set (show_nat n)" for n using show_nat_no_space by blast
  with assms show ?thesis by (simp add: saved_settings_def plain_config_def plain_value_def LF_def)
qed

lemma setting_line:
  assumes "key \<in> fst ` set (saved_settings c)" "plain_value v"
  shows "config_line (key @ CHR ''='' # v) c' = apply_setting key v c'"
proof -
  have k: "CHR ''='' \<notin> set key \<and> key \<noteq> [] \<and> hd key \<noteq> CHR ''#'' \<and> trim key = key"
    using assms(1) by (auto simp: saved_settings_def trim_def isblank_def)
  then show ?thesis using config_line_setting[of key v c'] trim_plain[OF assms(2)] by simp
qed

fun apply_settings :: "(string \<times> string) list \<Rightarrow> server_config \<Rightarrow> stoi_error + server_config" where
  "apply_settings [] c = Inr c"
| "apply_settings ((k, v) # kvs) c =
     (case apply_setting k v c of Inl e \<Rightarrow> Inl e | Inr c' \<Rightarrow> apply_settings kvs c')"

lemma config_lines_settings:
  "list_all (\<lambda>(k, v). k \<in> fst ` set (saved_settings c) \<and> plain_value v) kvs \<Longrightarrow>
   config_lines (map (\<lambda>(k, v). k @ CHR ''='' # v) kvs) c' = apply_settings kvs c'"
proof (induction kvs arbitrary: c')
  case (Cons kv kvs)
  obtain k v where kv: "kv = (k, v)" by (cases kv)
  with Cons.prems have "config_line (k @ CHR ''='' # v) c' = apply_setting k v c'"
    using setting_line[of k c v c'] by simp
  with Cons show ?case by (simp add: kv split: sum.splits)
qed simp

definition reloaded :: "server_config \<Rightarrow> server_config" where
  "reloaded c =
     default_server_config\<lparr>
       cfg_sip := default_sip_config\<lparr>sc_server_addr := sc_server_addr (cfg_sip c),
         sc_server_port := sc_server_port (cfg_sip c), sc_username := sc_username (cfg_sip c),
         sc_domain := sc_domain (cfg_sip c), sc_password := sc_password (cfg_sip c)\<rparr>,
       cfg_media := default_media_config\<lparr>mc_audio_port := mc_audio_port (cfg_media c),
         mc_video_port := mc_video_port (cfg_media c)\<rparr>,
       cfg_max_sessions := cfg_max_sessions c, cfg_worker_threads := cfg_worker_threads c\<rparr>"

lemma unat_u16_31: "unat (w :: u16) < 2147483648"
proof -
  have "unat w < 2 ^ 16" using unsigned_less[of w] by simp
  then show ?thesis by simp
qed

lemma apply_saved:
  assumes "unat (cfg_max_sessions c) < 2 ^ 31" "unat (cfg_worker_threads c) < 2 ^ 31"
  shows "apply_settings (saved_settings c) default_server_config = Inr (reloaded c)"
  using assms unat_u16_31
  by (simp add: saved_settings_def apply_setting_def set_number_def stoi_show_nat Let_def reloaded_def
      default_server_config_def)

text \<open>
  Property C40. A saved configuration loads: when the text members have no line feed and no outer
  blanks, loading what \<open>SaveToFile\<close> wrote gives every saved member back, and the defaults for the
  members that are not saved (the local SIP port among them), provided the two 32-bit counts fit an
  \<open>int\<close>; with a larger maximum of sessions the file that was just saved makes \<open>LoadFromFile\<close> throw
  \<open>std::out_of_range\<close>.
\<close>

theorem Config_save_load:
  assumes "plain_config c" "unat (cfg_worker_threads c) < 2 ^ 31"
  shows "LoadFromFile (Some (SaveToFile c)) =
    (if unat (cfg_max_sessions c) < 2 ^ 31 then Inr (reloaded c) else Inl OutOfRange)"
proof -
  have k: "list_all (\<lambda>(k, v). k \<in> fst ` set (saved_settings c) \<and> plain_value v) (saved_settings c)"
    using assms(1) by (simp add: saved_settings_def plain_config_def show_nat_plain)
  have "LoadFromFile (Some (SaveToFile c)) = apply_settings (saved_settings c) default_server_config"
    by (simp add: LoadFromFile_def SaveToFile_lines get_lines_lf[OF saved_lines_no_LF[OF assms(1)]]
        config_lines_settings[OF k] config_line_def)
  moreover have "apply_settings (saved_settings c) default_server_config = Inl OutOfRange"
    if "\<not> unat (cfg_max_sessions c) < 2 ^ 31"
    using that unat_u16_31
    by (simp add: saved_settings_def apply_setting_def set_number_def stoi_show_nat Let_def)
  ultimately show ?thesis using apply_saved[OF _ assms(2)] by simp
qed

theorem Config_save_load_witness:
  "LoadFromFile (Some (SaveToFile default_server_config)) = Inr default_server_config"
  using Config_save_load[of default_server_config]
  by (simp add: plain_config_def plain_value_def isblank_def LF_def reloaded_def
      default_server_config_def default_sip_config_def default_media_config_def)

end
