(* ===== verification/Sip_Call.thy ===== *)
theory Sip_Call
  imports Rtcom_Types "HOL-Library.Signed_Division"
begin

text \<open>
  A call (\<open>sip/sip_call.h\<close>, \<open>sip/sip_call.cpp\<close>): its identity, its state, the retransmission timer and
  the session information. The osip transaction and dialog pointers are opaque numbers; nothing in
  the program sets them. Clock readings are arguments, in nanoseconds.
\<close>

record sip_call =
  call_id :: string
  call_local_uri :: string
  call_remote_uri :: string
  call_state :: sip_call_state
  call_invite_tr :: "nat option"
  call_bye_tr :: "nat option"
  call_dialog :: "nat option"
  call_timer_start :: time_ns
  call_timer_duration_ms :: u32
  call_retransmit_count :: u32
  call_session_info :: call_session_info
  call_last_error :: string

definition SipCall_new :: "string \<Rightarrow> string \<Rightarrow> string \<Rightarrow> sip_call" where
  "SipCall_new cid local_uri remote_uri =
     \<lparr>call_id = cid, call_local_uri = local_uri, call_remote_uri = remote_uri, call_state = kIdle,
      call_invite_tr = None, call_bye_tr = None, call_dialog = None, call_timer_start = 0,
      call_timer_duration_ms = 0, call_retransmit_count = 0,
      call_session_info = init_call_session_info, call_last_error = []\<rparr>"

definition SetState :: "sip_call_state \<Rightarrow> sip_call \<Rightarrow> sip_call" where
  "SetState st c =
     (if call_state c \<noteq> st
      then c\<lparr>call_state := st, call_session_info := (call_session_info c)\<lparr>ci_state := st\<rparr>\<rparr> else c)"

definition StartTimer :: "time_ns \<Rightarrow> u32 \<Rightarrow> sip_call \<Rightarrow> sip_call" where
  "StartTimer now timeout_ms c =
     c\<lparr>call_timer_start := now, call_timer_duration_ms := timeout_ms, call_retransmit_count := 0\<rparr>"

definition IsTimerExpired :: "time_ns \<Rightarrow> sip_call \<Rightarrow> bool" where
  "IsTimerExpired now c =
     (if call_timer_duration_ms c = 0 then False
      else call_timer_duration_ms c \<le> of_int ((now - call_timer_start c) sdiv 1000000))"

definition IncrementRetransmit :: "sip_call \<Rightarrow> sip_call" where
  "IncrementRetransmit c = c\<lparr>call_retransmit_count := call_retransmit_count c + 1\<rparr>"

definition ResetRetransmit :: "sip_call \<Rightarrow> sip_call" where
  "ResetRetransmit c = c\<lparr>call_retransmit_count := 0\<rparr>"

definition SetError :: "string \<Rightarrow> sip_call \<Rightarrow> sip_call" where
  "SetError e c = c\<lparr>call_last_error := e\<rparr>"

text \<open>The state is kept twice, in the call and in its session information, and both agree.\<close>

definition state_synced :: "sip_call \<Rightarrow> bool" where
  "state_synced c \<longleftrightarrow> ci_state (call_session_info c) = call_state c"

named_theorems call_simps

lemma SipCall_new_simps [simp]:
  "call_id (SipCall_new i l r) = i" "call_state (SipCall_new i l r) = kIdle"
  "call_remote_uri (SipCall_new i l r) = r" "call_local_uri (SipCall_new i l r) = l"
  "call_retransmit_count (SipCall_new i l r) = 0" "state_synced (SipCall_new i l r)"
  "call_session_info (SipCall_new i l r) = init_call_session_info"
  by (simp_all add: SipCall_new_def state_synced_def init_call_session_info_def)

lemma SetState_simps [simp]:
  "call_state (SetState st c) = st" "call_id (SetState st c) = call_id c"
  "call_local_uri (SetState st c) = call_local_uri c" "call_remote_uri (SetState st c) = call_remote_uri c"
  "call_retransmit_count (SetState st c) = call_retransmit_count c"
  "call_timer_start (SetState st c) = call_timer_start c"
  "call_timer_duration_ms (SetState st c) = call_timer_duration_ms c"
  by (simp_all add: SetState_def)

lemma SetState_synced [simp]: "state_synced c \<Longrightarrow> state_synced (SetState st c)"
  by (simp add: state_synced_def SetState_def)

lemma StartTimer_simps [simp]:
  "call_state (StartTimer now t c) = call_state c" "call_id (StartTimer now t c) = call_id c"
  "call_retransmit_count (StartTimer now t c) = 0" "state_synced (StartTimer now t c) = state_synced c"
  "call_session_info (StartTimer now t c) = call_session_info c"
  "call_timer_duration_ms (StartTimer now t c) = t" "call_timer_start (StartTimer now t c) = now"
  by (simp_all add: StartTimer_def state_synced_def)

lemma other_call_simps [simp]:
  "call_state (IncrementRetransmit c) = call_state c" "call_id (IncrementRetransmit c) = call_id c"
  "call_retransmit_count (IncrementRetransmit c) = call_retransmit_count c + 1"
  "state_synced (IncrementRetransmit c) = state_synced c"
  "call_state (SetError e c) = call_state c" "call_id (SetError e c) = call_id c"
  "call_retransmit_count (SetError e c) = call_retransmit_count c"
  "state_synced (SetError e c) = state_synced c"
  by (simp_all add: IncrementRetransmit_def SetError_def state_synced_def)

text \<open>A timer that was started with a positive duration expires exactly from its duration on.\<close>

lemma IsTimerExpired_StartTimer:
  assumes "t \<noteq> 0" "0 \<le> d" "d < 2 ^ 32 * 1000000"
  shows "IsTimerExpired (now + d) (StartTimer now t c) \<longleftrightarrow> int (unat t) \<le> d div 1000000"
proof -
  have s: "d sdiv 1000000 = d div 1000000"
    using assms(2) by (cases "d = 0") (simp_all add: signed_divide_int_def sgn_1_pos)
  have "0 \<le> d div 1000000" "d div 1000000 < 2 ^ 32" using assms(2,3) by simp_all
  then have "unat (of_int (d div 1000000) :: u32) = nat (d div 1000000)"
    by (simp add: unat_eq_nat_uint uint_word_of_int)
  then show ?thesis
    using assms(1,2) by (simp add: IsTimerExpired_def s word_le_nat_alt nat_le_iff le_nat_iff)
qed

end
