(* ===== verification/Sip_Messages.thy ===== *)
theory Sip_Messages
  imports Sip_Call Sdp
begin

text \<open>
  The SIP signalling state and its message builders (\<open>sip/sip_manager.h\<close>, the builders of
  \<open>sip/sip_manager.cpp\<close>). The random generator is the sequence of numbers it will deliver; a draw takes
  the first. The osip object is only created and released: its presence is a flag. The event callback
  is not part of the state but an argument of the operations that invoke it.
\<close>

section \<open>State\<close>

record sip_manager =
  sm_config :: sip_config
  sm_osip :: bool
  sm_initialized :: bool
  sm_registered :: bool
  sm_calls :: "string \<Rightarrow> sip_call option"
  sm_local_cseq :: u32
  sm_branch_id :: string
  sm_call_id_prefix :: string
  sm_last_via_branch :: string
  sm_last_from_tag :: string
  sm_last_to_tag :: string
  sm_last_call_id :: string
  sm_last_cseq :: string
  sm_rng :: "nat \<Rightarrow> nat"

definition SipManager_new :: "(nat \<Rightarrow> nat) \<Rightarrow> sip_manager" where
  "SipManager_new rng =
     \<lparr>sm_config = default_sip_config, sm_osip = False, sm_initialized = False,
      sm_registered = False, sm_calls = (\<lambda>_. None), sm_local_cseq = 1, sm_branch_id = [],
      sm_call_id_prefix = [], sm_last_via_branch = [], sm_last_from_tag = [], sm_last_to_tag = [],
      sm_last_call_id = [], sm_last_cseq = [], sm_rng = rng\<rparr>"

section \<open>Random identifiers\<close>

definition hex_chars :: string where "hex_chars = ''0123456789abcdef''"

text \<open>A draw of the generator for a range of the given size.\<close>

definition draw :: "nat \<Rightarrow> sip_manager \<Rightarrow> nat \<times> sip_manager" where
  "draw bound m = (sm_rng m 0 mod bound, m\<lparr>sm_rng := (\<lambda>n. sm_rng m (Suc n))\<rparr>)"

fun RandomHex :: "nat \<Rightarrow> sip_manager \<Rightarrow> string \<times> sip_manager" where
  "RandomHex 0 m = ([], m)"
| "RandomHex (Suc n) m =
     (case draw 16 m of (d, m) \<Rightarrow>
        (case RandomHex n m of (r, m) \<Rightarrow> (hex_chars ! d # r, m)))"

definition GenerateBranchId :: "sip_manager \<Rightarrow> string \<times> sip_manager" where
  "GenerateBranchId m = (case RandomHex 32 m of (r, m) \<Rightarrow> (''z9hG4bK'' @ r, m))"

definition GenerateCallId :: "sip_manager \<Rightarrow> string \<times> sip_manager" where
  "GenerateCallId m = (case RandomHex 16 m of (r, m) \<Rightarrow> (sm_call_id_prefix m @ ''-'' @ r, m))"

definition GenerateTag :: "sip_manager \<Rightarrow> string \<times> sip_manager" where
  "GenerateTag m = RandomHex 16 m"

definition GenerateCSeq :: "sip_manager \<Rightarrow> u32 \<times> sip_manager" where
  "GenerateCSeq m = (sm_local_cseq m + 1, m\<lparr>sm_local_cseq := sm_local_cseq m + 1\<rparr>)"

section \<open>Message builders\<close>

abbreviation show_u16 :: "u16 \<Rightarrow> string" where "show_u16 w \<equiv> show_nat (unat w)"
abbreviation show_u32 :: "u32 \<Rightarrow> string" where "show_u32 w \<equiv> show_nat (unat w)"

definition via_line :: "sip_manager \<Rightarrow> string" where
  "via_line m = ''Via: SIP/2.0/UDP '' @ sc_local_addr (sm_config m) @ '':'' @ show_u16 (sc_local_port (sm_config m))"

definition own_uri :: "sip_manager \<Rightarrow> string" where
  "own_uri m = ''sip:'' @ sc_username (sm_config m) @ ''@'' @ sc_domain (sm_config m)"

definition BuildRegisterRequest :: "sip_manager \<Rightarrow> string \<times> sip_manager" where
  "BuildRegisterRequest m =
     (let lu = own_uri m;
          (tag, m) = RandomHex 16 m;
          (cid, m) = RandomHex 16 m
      in (''REGISTER sip:'' @ sc_domain (sm_config m) @ '' SIP/2.0'' @ crlf
          @ via_line m @ '';branch='' @ sm_branch_id m @ crlf
          @ ''Max-Forwards: 70'' @ crlf
          @ ''From: <'' @ lu @ ''>;tag='' @ tag @ crlf
          @ ''To: <'' @ lu @ ''>'' @ crlf
          @ ''Call-ID: '' @ cid @ crlf
          @ ''CSeq: '' @ show_u32 (sm_local_cseq m + 1) @ '' REGISTER'' @ crlf
          @ ''Contact: <'' @ lu @ ''>'' @ crlf
          @ ''Expires: '' @ show_u32 (sc_register_expires (sm_config m)) @ crlf
          @ ''Content-Length: 0'' @ crlf @ crlf, m))"

definition BuildInviteRequest :: "string \<Rightarrow> string \<Rightarrow> sip_manager \<Rightarrow> string \<times> sip_manager" where
  "BuildInviteRequest cid callee_uri m =
     (let lu = own_uri m;
          (branch, m) = GenerateBranchId m;
          (tag, m) = GenerateTag m;
          (cseq, m) = GenerateCSeq m;
          port = sc_local_port (sm_config m);
          sdp = BuildOffer (sc_local_addr (sm_config m)) (port + 1000) (port + 1002) 96 97
      in (''INVITE '' @ callee_uri @ '' SIP/2.0'' @ crlf
          @ via_line m @ '';branch='' @ branch @ crlf
          @ ''Max-Forwards: 70'' @ crlf
          @ ''From: <'' @ lu @ ''>;tag='' @ tag @ crlf
          @ ''To: <'' @ callee_uri @ ''>'' @ crlf
          @ ''Call-ID: '' @ cid @ crlf
          @ ''CSeq: '' @ show_u32 cseq @ '' INVITE'' @ crlf
          @ ''Contact: <'' @ lu @ ''>'' @ crlf
          @ ''Content-Type: application/sdp'' @ crlf
          @ ''Content-Length: '' @ show_nat (length sdp) @ crlf @ crlf
          @ sdp, m))"

text \<open>The ACK and BYE requests of a call in the table; both draw fresh tags and a fresh CSeq.\<close>

definition in_dialog_request :: "string \<Rightarrow> string \<Rightarrow> sip_manager \<Rightarrow> string \<times> sip_manager" where
  "in_dialog_request meth cid m =
     (case sm_calls m cid of
        None \<Rightarrow> ([], m)
      | Some c \<Rightarrow>
          let (branch, m) = GenerateBranchId m;
              (from_tag, m) = GenerateTag m;
              (to_tag, m) = GenerateTag m;
              (cseq, m) = GenerateCSeq m
          in (meth @ '' '' @ call_remote_uri c @ '' SIP/2.0'' @ crlf
              @ via_line m @ '';branch='' @ branch @ crlf
              @ ''From: <'' @ call_local_uri c @ ''>;tag='' @ from_tag @ crlf
              @ ''To: <'' @ call_remote_uri c @ ''>;tag='' @ to_tag @ crlf
              @ ''Call-ID: '' @ cid @ crlf
              @ ''CSeq: '' @ show_u32 cseq @ '' '' @ meth @ crlf
              @ ''Content-Length: 0'' @ crlf @ crlf, m))"

definition BuildAckRequest :: "string \<Rightarrow> sip_manager \<Rightarrow> string \<times> sip_manager" where
  "BuildAckRequest = in_dialog_request ''ACK''"

definition BuildByeRequest :: "string \<Rightarrow> sip_manager \<Rightarrow> string \<times> sip_manager" where
  "BuildByeRequest = in_dialog_request ''BYE''"

definition response_head ::
  "int \<Rightarrow> string \<Rightarrow> string \<Rightarrow> sip_manager \<Rightarrow> string \<times> sip_manager" where
  "response_head status_code reason to_tag m =
     (let lu = own_uri m;
          (branch, m) = GenerateBranchId m;
          (from_tag, m) = GenerateTag m;
          (tag, m) = (if to_tag = [] then GenerateTag m else (to_tag, m));
          (cid, m) = RandomHex 16 m;
          (cseq, m) = GenerateCSeq m
      in (''SIP/2.0 '' @ show_int status_code @ '' '' @ reason @ crlf
          @ via_line m @ '';branch='' @ branch @ crlf
          @ ''From: <sip:remote@'' @ sc_domain (sm_config m) @ ''>;tag='' @ from_tag @ crlf
          @ ''To: <'' @ lu @ ''>;tag='' @ tag @ crlf
          @ ''Call-ID: '' @ cid @ crlf
          @ ''CSeq: '' @ show_u32 cseq @ '' INVITE'' @ crlf
          @ ''Contact: <'' @ lu @ ''>'' @ crlf, m))"

definition BuildResponse :: "int \<Rightarrow> string \<Rightarrow> string \<Rightarrow> sip_manager \<Rightarrow> string \<times> sip_manager" where
  "BuildResponse status_code reason to_tag m =
     (case response_head status_code reason to_tag m of
        (h, m) \<Rightarrow> (h @ ''Content-Length: 0'' @ crlf @ crlf, m))"

definition BuildResponseWithSdp ::
  "int \<Rightarrow> string \<Rightarrow> string \<Rightarrow> string \<Rightarrow> sip_manager \<Rightarrow> string \<times> sip_manager" where
  "BuildResponseWithSdp status_code reason sdp to_tag m =
     (case response_head status_code reason to_tag m of
        (h, m) \<Rightarrow>
          (h @ ''Content-Type: application/sdp'' @ crlf
             @ ''Content-Length: '' @ show_nat (length sdp) @ crlf @ crlf @ sdp, m))"

text \<open>The response that echoes the headers cached from the last INVITE.\<close>

definition BuildInviteResponse ::
  "int \<Rightarrow> string \<Rightarrow> string \<Rightarrow> sip_manager \<Rightarrow> string \<times> sip_manager" where
  "BuildInviteResponse status_code reason sdp m =
     (let lu = own_uri m;
          (to_tag, m) = (if sm_last_to_tag m \<noteq> [] then ('';tag='' @ sm_last_to_tag m, m)
                         else if status_code = 200
                         then (case GenerateTag m of (t, m) \<Rightarrow> ('';tag='' @ t, m)) else ([], m));
          (cid, m) = (if sm_last_call_id m = [] then GenerateCallId m else (sm_last_call_id m, m));
          (cseq, m) = (if sm_last_cseq m = []
                       then (case GenerateCSeq m of (n, m) \<Rightarrow> (show_u32 n @ '' INVITE'', m))
                       else (sm_last_cseq m, m))
      in (''SIP/2.0 '' @ show_int status_code @ '' '' @ reason @ crlf
          @ via_line m @ (if sm_last_via_branch m \<noteq> [] then '';branch='' @ sm_last_via_branch m else []) @ crlf
          @ ''From: <sip:remote@'' @ sc_domain (sm_config m) @ ''>''
          @ (if sm_last_from_tag m \<noteq> [] then '';tag='' @ sm_last_from_tag m else []) @ crlf
          @ ''To: <'' @ lu @ ''>'' @ to_tag @ crlf
          @ ''Call-ID: '' @ cid @ crlf
          @ ''CSeq: '' @ cseq @ crlf
          @ ''Contact: <'' @ lu @ ''>'' @ crlf
          @ (if sdp \<noteq> []
             then ''Content-Type: application/sdp'' @ crlf
                  @ ''Content-Length: '' @ show_nat (length sdp) @ crlf @ crlf @ sdp
             else ''Content-Length: 0'' @ crlf @ crlf), m))"

section \<open>What the builders leave alone\<close>

text \<open>
  Two manager states that differ at most in the CSeq counter and the generator: all a message builder
  may change.
\<close>

definition same_but_counters :: "sip_manager \<Rightarrow> sip_manager \<Rightarrow> bool" where
  "same_but_counters m m' \<longleftrightarrow>
     m' = m\<lparr>sm_local_cseq := sm_local_cseq m', sm_rng := sm_rng m'\<rparr>"

lemma same_but_counters_refl [simp]: "same_but_counters m m"
  by (simp add: same_but_counters_def)

lemma same_but_counters_trans:
  "same_but_counters m m' \<Longrightarrow> same_but_counters m' m'' \<Longrightarrow> same_but_counters m m''"
  unfolding same_but_counters_def by (cases m; cases m'; cases m'') simp

lemma same_but_counters_fields:
  assumes "same_but_counters m m'"
  shows "sm_config m' = sm_config m" "sm_calls m' = sm_calls m" "sm_initialized m' = sm_initialized m"
    "sm_registered m' = sm_registered m" "sm_last_call_id m' = sm_last_call_id m"
    "sm_last_cseq m' = sm_last_cseq m" "sm_last_via_branch m' = sm_last_via_branch m"
    "sm_last_from_tag m' = sm_last_from_tag m" "sm_last_to_tag m' = sm_last_to_tag m"
    "sm_call_id_prefix m' = sm_call_id_prefix m" "sm_branch_id m' = sm_branch_id m" "sm_osip m' = sm_osip m"
  using assms unfolding same_but_counters_def by (cases m; cases m'; simp)+

lemma RandomHex_same: "RandomHex n m = (r, m') \<Longrightarrow> same_but_counters m m' \<and> sm_local_cseq m' = sm_local_cseq m"
proof (induction n arbitrary: m r)
  case (Suc n)
  then obtain r' where "RandomHex n (m\<lparr>sm_rng := (\<lambda>k. sm_rng m (Suc k))\<rparr>) = (r', m')"
    by (auto simp: draw_def split: prod.splits)
  moreover have "same_but_counters m (m\<lparr>sm_rng := (\<lambda>k. sm_rng m (Suc k))\<rparr>)"
    by (simp add: same_but_counters_def)
  ultimately show ?case
    using Suc.IH same_but_counters_trans by fastforce
qed simp

lemma RandomHex_length: "RandomHex n m = (r, m') \<Longrightarrow> length r = n"
  by (induction n arbitrary: m r) (auto simp: draw_def split: prod.splits)

lemma hex_char_word: "d < 16 \<Longrightarrow> hex_chars ! d \<in> set hex_chars"
  by (rule nth_mem) (simp add: hex_chars_def)

lemma RandomHex_hex: "RandomHex n m = (r, m') \<Longrightarrow> set r \<subseteq> set hex_chars"
proof (induction n arbitrary: m r)
  case (Suc n)
  from Suc.prems obtain r' where r: "RandomHex n (m\<lparr>sm_rng := (\<lambda>k. sm_rng m (Suc k))\<rparr>) = (r', m')"
    "r = hex_chars ! (sm_rng m 0 mod 16) # r'"
    by (auto simp: draw_def split: prod.splits)
  have "hex_chars ! (sm_rng m 0 mod 16) \<in> set hex_chars" by (rule hex_char_word) simp
  with Suc.IH[OF r(1)] show ?case by (simp add: r(2))
qed simp

lemma GenerateTag_same:
  "GenerateTag m = (r, m') \<Longrightarrow> same_but_counters m m' \<and> sm_local_cseq m' = sm_local_cseq m"
  by (auto simp: GenerateTag_def dest: RandomHex_same)

lemma GenerateBranchId_same:
  "GenerateBranchId m = (r, m') \<Longrightarrow> same_but_counters m m' \<and> sm_local_cseq m' = sm_local_cseq m"
  by (auto simp: GenerateBranchId_def split: prod.splits dest: RandomHex_same)

lemma GenerateCallId_same:
  "GenerateCallId m = (r, m') \<Longrightarrow> same_but_counters m m' \<and> sm_local_cseq m' = sm_local_cseq m"
  by (auto simp: GenerateCallId_def split: prod.splits dest: RandomHex_same)

lemma GenerateCSeq_same:
  "GenerateCSeq m = (n, m') \<Longrightarrow> same_but_counters m m' \<and> sm_local_cseq m' = sm_local_cseq m + 1 \<and> n = sm_local_cseq m + 1"
  by (auto simp: GenerateCSeq_def same_but_counters_def)

section \<open>Reading a message back\<close>

text \<open>
  How a receiver takes a message apart (RFC 3261, section 7): lines up to the first empty one, and the
  body after it.
\<close>

function split_message :: "string \<Rightarrow> string list \<times> string" where
  "split_message s =
     (if s = [] then ([], [])
      else let l = strip_cr (takeWhile (\<lambda>c. c \<noteq> LF) s);
               rest = drop 1 (dropWhile (\<lambda>c. c \<noteq> LF) s)
           in if l = [] then ([], rest)
              else case split_message rest of (ls, body) \<Rightarrow> (l # ls, body))"
  by pat_completeness auto
termination
proof (relation "measure length")
  fix s :: string and x y
  assume s: "s \<noteq> []" and y: "y = drop 1 (dropWhile (\<lambda>c. c \<noteq> LF) s)"
  have "length (dropWhile (\<lambda>c. c \<noteq> LF) s) \<le> length s" "0 < length s"
    using s by (simp_all add: length_dropWhile_le)
  then have "length (dropWhile (\<lambda>c. c \<noteq> LF) s) - 1 < length s" by linarith
  then show "(y, s) \<in> measure length" by (simp add: y)
qed simp

declare split_message.simps [simp del]

definition text_line :: "string \<Rightarrow> bool" where
  "text_line l \<longleftrightarrow> l \<noteq> [] \<and> LF \<notin> set l"

lemma takeWhile_LF:
  assumes "LF \<notin> set l"
  shows "takeWhile (\<lambda>c. c \<noteq> LF) (l @ LF # rest) = l" "dropWhile (\<lambda>c. c \<noteq> LF) (l @ LF # rest) = LF # rest"
  using assms by (auto simp: takeWhile_append dropWhile_append)

lemma split_message_line:
  assumes "LF \<notin> set l"
  shows "split_message ((l @ crlf) @ rest) =
    (if l = [] then ([], rest) else case split_message rest of (ls, body) \<Rightarrow> (l # ls, body))"
proof -
  have "LF \<notin> set (l @ [CR])" using assms by (simp add: CR_def LF_def)
  from takeWhile_LF[OF this, of rest] show ?thesis
    by (subst split_message.simps) (simp add: crlf_def)
qed

lemma split_message_build:
  "list_all text_line ls \<Longrightarrow> split_message (crlf_lines ls @ crlf @ body) = (ls, body)"
proof (induction ls)
  case Nil
  show ?case using split_message_line[of "[]" body] by (simp add: crlf_lines_def)
next
  case (Cons l ls)
  then show ?case
    using split_message_line[of l "crlf_lines ls @ crlf @ body"]
    by (simp add: crlf_lines_def text_line_def)
qed

text \<open>Texts that can stand inside a header line.\<close>

definition no_LF :: "string \<Rightarrow> bool" where
  "no_LF s \<longleftrightarrow> LF \<notin> set s"

definition config_no_LF :: "sip_manager \<Rightarrow> bool" where
  "config_no_LF m \<longleftrightarrow> no_LF (sc_local_addr (sm_config m)) \<and> no_LF (sc_username (sm_config m)) \<and>
     no_LF (sc_domain (sm_config m))"

lemma no_LF_append [simp]: "no_LF (a @ b) \<longleftrightarrow> no_LF a \<and> no_LF b"
  by (auto simp: no_LF_def)

lemma no_LF_Cons [simp]: "no_LF (c # s) \<longleftrightarrow> c \<noteq> LF \<and> no_LF s"
  by (auto simp: no_LF_def)

lemma no_LF_Nil [simp]: "no_LF []"
  by (simp add: no_LF_def)

lemma no_LF_numbers [simp]: "no_LF (show_nat n)" "no_LF (show_int i)"
  using show_nat_no_space show_int_no_space by (auto simp: no_LF_def)

lemma LF_literals: "LF = CHR 0x0A"
  by (simp add: LF_def)

lemma no_LF_hex: "RandomHex n m = (r, m') \<Longrightarrow> no_LF r"
  using RandomHex_hex[of n m r m'] by (auto simp: no_LF_def hex_chars_def LF_def)

lemma no_LF_generated:
  "GenerateTag m = (t, m') \<Longrightarrow> no_LF t"
  "GenerateBranchId m = (b, m') \<Longrightarrow> no_LF b"
  by (auto simp: GenerateTag_def GenerateBranchId_def LF_literals dest: no_LF_hex split: prod.splits)

lemma no_LF_own [simp]:
  "config_no_LF m \<Longrightarrow> no_LF (via_line m)" "config_no_LF m \<Longrightarrow> no_LF (own_uri m)"
  by (simp_all add: via_line_def own_uri_def config_no_LF_def LF_literals)

lemma text_line_alt: "text_line l \<longleftrightarrow> l \<noteq> [] \<and> no_LF l"
  by (simp add: text_line_def no_LF_def)

lemma same_counters_own:
  assumes "same_but_counters m m'"
  shows "via_line m' = via_line m" "own_uri m' = own_uri m" "config_no_LF m' = config_no_LF m"
  using same_but_counters_fields[OF assms] by (simp_all add: via_line_def own_uri_def config_no_LF_def)

section \<open>Properties\<close>

text \<open>
  A well-formed INVITE: for a callee and a configuration without line feeds and a local
  address without blanks, a receiver splits the request into a start line for the callee, headers with
  the call's identifier, the next CSeq number and the exact length of the body, and a body that the SDP
  parser accepts with this host's address and ports. Nothing but the CSeq counter and the generator has
  changed.
\<close>

theorem BuildInviteRequest_well_formed:
  assumes "config_no_LF m" "word_text (sc_local_addr (sm_config m))" "no_LF callee" "no_LF cid"
    "BuildInviteRequest cid callee m = (msg, m')"
  shows "\<exists>lines body s. split_message msg = (lines, body) \<and>
    hd lines = ''INVITE '' @ callee @ '' SIP/2.0'' \<and> ''Call-ID: '' @ cid \<in> set lines \<and>
    ''CSeq: '' @ show_u32 (sm_local_cseq m + 1) @ '' INVITE'' \<in> set lines \<and>
    ''Content-Length: '' @ show_nat (length body) \<in> set lines \<and>
    SdpBuilder_Parse body SdpSession_new = (True, s) \<and> ss_conn_addr s = sc_local_addr (sm_config m) \<and>
    map_option sm_port (FindAudio s) = Some (sc_local_port (sm_config m) + 1000) \<and>
    map_option sm_port (FindVideo s) = Some (sc_local_port (sm_config m) + 1002) \<and>
    same_but_counters m m' \<and> sm_local_cseq m' = sm_local_cseq m + 1"
proof -
  obtain branch m1 where g1: "GenerateBranchId m = (branch, m1)" by fastforce
  obtain tag m2 where g2: "GenerateTag m1 = (tag, m2)" by fastforce
  obtain cseq m3 where g3: "GenerateCSeq m2 = (cseq, m3)" by fastforce
  note s = GenerateBranchId_same[OF g1] GenerateTag_same[OF g2] GenerateCSeq_same[OF g3]
  then have same: "same_but_counters m m3" and c: "sm_local_cseq m3 = sm_local_cseq m + 1" "cseq = sm_local_cseq m + 1"
    using same_but_counters_trans by metis+
  note own = same_counters_own[OF same] same_but_counters_fields(1)[OF same]
  let ?p = "sc_local_port (sm_config m)"
  let ?sdp = "BuildOffer (sc_local_addr (sm_config m)) (?p + 1000) (?p + 1002) 96 97"
  let ?lines = "[''INVITE '' @ callee @ '' SIP/2.0'', via_line m @ '';branch='' @ branch,
     ''Max-Forwards: 70'', ''From: <'' @ own_uri m @ ''>;tag='' @ tag, ''To: <'' @ callee @ ''>'',
     ''Call-ID: '' @ cid, ''CSeq: '' @ show_u32 (sm_local_cseq m + 1) @ '' INVITE'',
     ''Contact: <'' @ own_uri m @ ''>'', ''Content-Type: application/sdp'',
     ''Content-Length: '' @ show_nat (length ?sdp)]"
  have msg: "msg = crlf_lines ?lines @ crlf @ ?sdp" "m' = m3"
    using assms(5) own c by (simp_all add: BuildInviteRequest_def g1 g2 g3 crlf_lines_def Let_def)
  have "list_all text_line ?lines"
    using assms(1,3,4) no_LF_generated(1)[OF g2] no_LF_generated(2)[OF g1]
    by (simp add: text_line_alt LF_literals)
  then have "split_message msg = (?lines, ?sdp)" by (simp only: msg split_message_build)
  moreover obtain s where "SdpBuilder_Parse ?sdp SdpSession_new = (True, s)"
    "ss_conn_addr s = sc_local_addr (sm_config m)"
    "FindAudio s = Some (answer_media ''audio'' (?p + 1000) 96 '' AAC/44100/1'')"
    "FindVideo s = Some (answer_media ''video'' (?p + 1002) 97 '' H264/90000'')"
    using build_parse_core[OF assms(2), of 96 97 ?sdp "?p + 1000" "?p + 1002"] by auto
  ultimately show ?thesis
    using same c msg(2) by (intro exI[of _ ?lines] exI[of _ ?sdp] exI[of _ s]) (simp add: answer_media_def)
qed

definition sample_manager :: sip_manager where
  "sample_manager = (SipManager_new (\<lambda>_. 0))\<lparr>sm_initialized := True, sm_call_id_prefix := ''p''\<rparr>"

lemma sample_manager_texts [simp]:
  "config_no_LF sample_manager" "sc_local_addr (sm_config sample_manager) = ''127.0.0.1''"
  "sc_local_port (sm_config sample_manager) = 5060" "sm_local_cseq sample_manager = 1"
  by (simp_all add: sample_manager_def SipManager_new_def default_sip_config_def config_no_LF_def
      LF_literals)

theorem BuildInviteRequest_well_formed_witness:
  "\<exists>lines body s. split_message (fst (BuildInviteRequest ''c1'' ''sip:bob@b'' sample_manager)) = (lines, body) \<and>
    hd lines = ''INVITE sip:bob@b SIP/2.0'' \<and> SdpBuilder_Parse body SdpSession_new = (True, s) \<and>
    map_option sm_port (FindAudio s) = Some 6060"
proof -
  obtain msg m' where b: "BuildInviteRequest ''c1'' ''sip:bob@b'' sample_manager = (msg, m')" by fastforce
  from BuildInviteRequest_well_formed[OF _ _ _ _ b] show ?thesis
    by (auto simp: b word_text_def isspace_def LF_literals)
qed

text \<open>
  The response to an INVITE echoes what was cached from it: after an INVITE with a
  branch, a From tag and a CSeq, the message has the status line, exactly that branch, tag, Call-ID and
  CSeq, the length of its body, and the body; nothing but the generator has changed.
\<close>

theorem BuildInviteResponse_echoes:
  assumes "config_no_LF m" "no_LF reason"
    "list_all text_line [sm_last_via_branch m, sm_last_from_tag m, sm_last_call_id m, sm_last_cseq m]"
    "no_LF (sm_last_to_tag m)" "BuildInviteResponse status reason sdp m = (msg, m')"
  shows "\<exists>lines. split_message msg = (lines, sdp) \<and>
    hd lines = ''SIP/2.0 '' @ show_int status @ '' '' @ reason \<and>
    via_line m @ '';branch='' @ sm_last_via_branch m \<in> set lines \<and>
    ''From: <sip:remote@'' @ sc_domain (sm_config m) @ ''>;tag='' @ sm_last_from_tag m \<in> set lines \<and>
    ''Call-ID: '' @ sm_last_call_id m \<in> set lines \<and> ''CSeq: '' @ sm_last_cseq m \<in> set lines \<and>
    ''Content-Length: '' @ show_nat (length sdp) \<in> set lines \<and>
    same_but_counters m m' \<and> sm_local_cseq m' = sm_local_cseq m"
proof -
  define tt where "tt = (if sm_last_to_tag m \<noteq> [] then ('';tag='' @ sm_last_to_tag m, m)
      else if status = 200 then (case GenerateTag m of (t, m) \<Rightarrow> ('';tag='' @ t, m)) else ([], m))"
  obtain to_tag m1 where tt': "tt = (to_tag, m1)" by fastforce
  have t: "no_LF to_tag \<and> same_but_counters m m1 \<and> sm_local_cseq m1 = sm_local_cseq m"
    using tt' assms(4) no_LF_generated(1)[of m] GenerateTag_same[of m]
    by (auto simp: tt_def LF_literals split: if_splits prod.splits)
  note own = same_counters_own[OF conjunct1[OF conjunct2[OF t]]]
    same_but_counters_fields[OF conjunct1[OF conjunct2[OF t]]]
  have ne: "sm_last_via_branch m \<noteq> []" "sm_last_from_tag m \<noteq> []" "sm_last_call_id m \<noteq> []" "sm_last_cseq m \<noteq> []"
    using assms(3) by (simp_all add: text_line_def)
  let ?lines = "[''SIP/2.0 '' @ show_int status @ '' '' @ reason,
     via_line m @ '';branch='' @ sm_last_via_branch m,
     ''From: <sip:remote@'' @ sc_domain (sm_config m) @ ''>;tag='' @ sm_last_from_tag m,
     ''To: <'' @ own_uri m @ ''>'' @ to_tag, ''Call-ID: '' @ sm_last_call_id m,
     ''CSeq: '' @ sm_last_cseq m, ''Contact: <'' @ own_uri m @ ''>''] @
     (if sdp \<noteq> [] then [''Content-Type: application/sdp''] else []) @
     [''Content-Length: '' @ show_nat (length sdp)]"
  have msg: "msg = crlf_lines ?lines @ crlf @ sdp" "m' = m1"
  proof -
    have z: "show_nat 0 = ''0''" by (simp add: show_nat.simps)
    show "msg = crlf_lines ?lines @ crlf @ sdp" "m' = m1"
      using assms(5) own ne tt' z
      by (auto simp: BuildInviteResponse_def tt_def[symmetric] crlf_lines_def Let_def)
  qed
  have "list_all text_line ?lines"
    using assms(1,2,3) t by (auto simp: text_line_alt LF_literals config_no_LF_def)
  then have "split_message msg = (?lines, sdp)" by (simp only: msg split_message_build)
  then show ?thesis using t msg(2) by (intro exI[of _ ?lines]) simp
qed

definition sample_invited :: sip_manager where
  "sample_invited = sample_manager\<lparr>sm_last_via_branch := ''z9hG4bKx'', sm_last_from_tag := ''t'',
     sm_last_call_id := ''c2'', sm_last_cseq := ''1 INVITE''\<rparr>"

theorem BuildInviteResponse_echoes_witness:
  "\<exists>lines. split_message (fst (BuildInviteResponse 486 ''Busy Here'' [] sample_invited)) = (lines, []) \<and>
    hd lines = ''SIP/2.0 486 Busy Here'' \<and> ''Call-ID: c2'' \<in> set lines \<and> ''CSeq: 1 INVITE'' \<in> set lines"
proof -
  obtain msg m' where b: "BuildInviteResponse 486 ''Busy Here'' [] sample_invited = (msg, m')" by fastforce
  have f: "sm_last_via_branch sample_invited = ''z9hG4bKx''" "sm_last_from_tag sample_invited = ''t''"
    "sm_last_call_id sample_invited = ''c2''" "sm_last_cseq sample_invited = ''1 INVITE''"
    "sm_last_to_tag sample_invited = []"
    by (simp_all add: sample_invited_def sample_manager_def SipManager_new_def)
  have n: "show_int 486 = ''486''" by (simp add: show_int_def show_nat.simps)
  have "config_no_LF sample_invited"
    using sample_manager_texts(1) by (simp add: sample_invited_def config_no_LF_def)
  from BuildInviteResponse_echoes[OF this _ _ _ b] show ?thesis
    by (auto simp: b f n LF_literals text_line_alt)
qed

text \<open>Every in-dialog request takes the next CSeq number, an ACK too.\<close>

lemma in_dialog_request_cseq:
  assumes "in_dialog_request meth cid m = (msg, m')" "sm_calls m cid = Some c"
  shows "same_but_counters m m'" "sm_local_cseq m' = sm_local_cseq m + 1"
proof -
  obtain b m1 where g1: "GenerateBranchId m = (b, m1)" by fastforce
  obtain t m2 where g2: "GenerateTag m1 = (t, m2)" by fastforce
  obtain u m3 where g3: "GenerateTag m2 = (u, m3)" by fastforce
  obtain n m4 where g4: "GenerateCSeq m3 = (n, m4)" by fastforce
  have "m' = m4" using assms by (simp add: in_dialog_request_def g1 g2 g3 g4 Let_def)
  with GenerateBranchId_same[OF g1] GenerateTag_same[OF g2] GenerateTag_same[OF g3] GenerateCSeq_same[OF g4]
  show "same_but_counters m m'" "sm_local_cseq m' = sm_local_cseq m + 1"
    using same_but_counters_trans by metis+
qed

lemma in_dialog_request_same: "in_dialog_request meth cid m = (msg, m') \<Longrightarrow> same_but_counters m m'"
  using in_dialog_request_cseq(1) by (cases "sm_calls m cid") (auto simp: in_dialog_request_def)

lemma response_head_same:
  assumes "response_head status reason to_tag m = (h, m')"
  shows "same_but_counters m m'"
proof -
  obtain b m1 where g1: "GenerateBranchId m = (b, m1)" by fastforce
  obtain t m2 where g2: "GenerateTag m1 = (t, m2)" by fastforce
  obtain u m3 where g3: "(if to_tag = [] then GenerateTag m2 else (to_tag, m2)) = (u, m3)" by fastforce
  obtain cid m4 where g4: "RandomHex 16 m3 = (cid, m4)" by fastforce
  obtain n m5 where g5: "GenerateCSeq m4 = (n, m5)" by fastforce
  have "same_but_counters m2 m3" using g3 GenerateTag_same by (auto split: if_splits)
  moreover have "m' = m5" using assms by (simp add: response_head_def g1 g2 g3 g4 g5 Let_def)
  ultimately show ?thesis
    using GenerateBranchId_same[OF g1] GenerateTag_same[OF g2] RandomHex_same[OF g4] GenerateCSeq_same[OF g5]
      same_but_counters_trans by metis
qed

lemma BuildResponse_same: "BuildResponse status reason to_tag m = (msg, m') \<Longrightarrow> same_but_counters m m'"
  by (auto simp: BuildResponse_def split: prod.splits dest: response_head_same)

lemma BuildInviteRequest_same: "BuildInviteRequest cid uri m = (msg, m') \<Longrightarrow> same_but_counters m m'"
  by (auto simp: BuildInviteRequest_def Let_def split: prod.splits
      dest!: GenerateBranchId_same GenerateTag_same GenerateCSeq_same
      intro: same_but_counters_trans)

end
