(* ===== verification/Sip_Manager.thy ===== *)
theory Sip_Manager
  imports Sip_Messages
begin

text \<open>
  SIP signalling (\<open>sip/sip_manager.cpp\<close>): the call table, the requests of the local user, the handlers of
  incoming messages and the timers. A message arrives in the parsed form osip gives, so the osip parser
  is an argument. The event callback is an argument too: it receives the client's own state and the
  manager's, since the client calls back into the manager while it runs. Clock readings are arguments.
  The messages the operations build are dropped by the code as well.
\<close>

section \<open>Data\<close>

text \<open>What the handlers read of a parsed message; a missing header or value is \<open>None\<close>.\<close>

record osip_message =
  om_status_code :: int
  om_method :: "string option"
  om_call_id :: "string option"
  om_via_branches :: "string option list"
  om_from_tag :: "string option"
  om_cseq :: "(string option \<times> string option) option"
  om_from_url :: "(string option \<times> string option) option"

type_synonym 'w sip_state = "'w \<times> sip_manager"
type_synonym 'w sip_callback = "string \<Rightarrow> sip_call_state \<Rightarrow> 'w sip_state \<Rightarrow> 'w sip_state"

definition put_call :: "string \<Rightarrow> sip_call \<Rightarrow> sip_manager \<Rightarrow> sip_manager" where
  "put_call cid c m = m\<lparr>sm_calls := (sm_calls m)(cid \<mapsto> c)\<rparr>"

definition erase_call :: "string \<Rightarrow> sip_manager \<Rightarrow> sip_manager" where
  "erase_call cid m = m\<lparr>sm_calls := (sm_calls m)(cid := None)\<rparr>"

definition NotifyStateChange ::
  "'w sip_callback \<Rightarrow> string \<Rightarrow> sip_call_state \<Rightarrow> 'w sip_state \<Rightarrow> 'w sip_state" where
  "NotifyStateChange cb cid st s = cb cid st s"

section \<open>Life cycle\<close>

definition Initialize :: "bool \<Rightarrow> sip_config \<Rightarrow> sip_manager \<Rightarrow> bool \<times> sip_manager" where
  "Initialize osip_ok config m =
     (let m = m\<lparr>sm_config := config\<rparr>
      in if \<not> osip_ok then (False, m)
         else
           let m = m\<lparr>sm_osip := True\<rparr>;
               (branch, m) = RandomHex 32 m;
               m = m\<lparr>sm_branch_id := ''z9hG4bK'' @ branch\<rparr>;
               (prefix, m) = RandomHex 16 m;
               m = m\<lparr>sm_call_id_prefix := prefix\<rparr>;
               (n, m) = draw 10000 m
           in (True, m\<lparr>sm_local_cseq := of_nat (n + 1), sm_initialized := True\<rparr>))"

definition Register :: "'w sip_callback \<Rightarrow> 'w sip_state \<Rightarrow> bool \<times> 'w sip_state" where
  "Register cb s =
     (case s of (w, m) \<Rightarrow>
        if \<not> sm_initialized m then (False, s)
        else (True, cb [] kRegistered (w, m\<lparr>sm_registered := True\<rparr>)))"

definition Unregister :: "'w sip_callback \<Rightarrow> 'w sip_state \<Rightarrow> bool \<times> 'w sip_state" where
  "Unregister cb s =
     (case s of (w, m) \<Rightarrow>
        if \<not> sm_registered m then (False, s)
        else (True, cb [] kUnregistered (w, m\<lparr>sm_registered := False\<rparr>)))"

definition Shutdown :: "'w sip_callback \<Rightarrow> 'w sip_state \<Rightarrow> 'w sip_state" where
  "Shutdown cb s =
     (let (w, m) = (if sm_registered (snd s) then snd (Unregister cb s) else s)
      in (w, m\<lparr>sm_calls := (\<lambda>_. None), sm_osip := False, sm_initialized := False\<rparr>))"

section \<open>Requests of the local user\<close>

definition MakeCall ::
  "'w sip_callback \<Rightarrow> time_ns \<Rightarrow> string \<Rightarrow> 'w sip_state \<Rightarrow> string \<times> 'w sip_state" where
  "MakeCall cb now callee_uri s =
     (case s of (w, m) \<Rightarrow>
        if \<not> sm_initialized m then ([], s)
        else
          let (cid, m) = GenerateCallId m;
              local_uri = sc_username (sm_config m) @ ''@'' @ sc_domain (sm_config m);
              call = StartTimer now (sc_retry_t1_ms (sm_config m))
                       (SetState kCalling (SipCall_new cid local_uri callee_uri));
              (msg, m) = BuildInviteRequest cid callee_uri m
          in (cid, NotifyStateChange cb cid kCalling (w, put_call cid call m)))"

definition AnswerCall ::
  "'w sip_callback \<Rightarrow> time_ns \<Rightarrow> string \<Rightarrow> bool \<Rightarrow> 'w sip_state \<Rightarrow> bool \<times> 'w sip_state" where
  "AnswerCall cb now cid accept s =
     (case s of (w, m) \<Rightarrow>
        case sm_calls m cid of
          None \<Rightarrow> (False, s)
        | Some c \<Rightarrow>
            let (tag, m) = GenerateTag m;
                (msg, m) = BuildResponse (if accept then 200 else 486)
                             (if accept then ''OK'' else ''Busy Here'') tag m
            in if accept
               then
                 let c = SetState kConnected c;
                     c = c\<lparr>call_session_info := (call_session_info c)\<lparr>ci_start_time := now\<rparr>\<rparr>
                 in (True, NotifyStateChange cb cid kConnected (w, put_call cid c m))
               else
                 let (w, m) = NotifyStateChange cb cid kDisconnected
                                (w, put_call cid (SetState kDisconnected c) m)
                 in (False, (w, erase_call cid m)))"

definition HangUp :: "'w sip_callback \<Rightarrow> string \<Rightarrow> 'w sip_state \<Rightarrow> bool \<times> 'w sip_state" where
  "HangUp cb cid s =
     (case s of (w, m) \<Rightarrow>
        case sm_calls m cid of
          None \<Rightarrow> (False, s)
        | Some c \<Rightarrow>
            if call_state c \<noteq> kConnected \<and> call_state c \<noteq> kInProgress then (False, s)
            else
              let (msg, m) = BuildByeRequest cid (put_call cid (SetState kDisconnecting c) m)
              in (True, NotifyStateChange cb cid kDisconnecting (w, m)))"

text \<open>A call is set to disconnected, the client is told, and the call leaves the table.\<close>

definition drop_call :: "'w sip_callback \<Rightarrow> string \<Rightarrow> sip_call \<Rightarrow> 'w sip_state \<Rightarrow> 'w sip_state" where
  "drop_call cb cid c s =
     (case s of (w, m) \<Rightarrow>
        let (w, m) = NotifyStateChange cb cid kDisconnected
                       (w, put_call cid (SetState kDisconnected c) m)
        in (w, erase_call cid m))"

definition CancelCall :: "'w sip_callback \<Rightarrow> string \<Rightarrow> 'w sip_state \<Rightarrow> bool \<times> 'w sip_state" where
  "CancelCall cb cid s =
     (case sm_calls (snd s) cid of
        None \<Rightarrow> (False, s)
      | Some c \<Rightarrow> (True, drop_call cb cid c s))"

section \<open>Incoming messages\<close>

definition value_or :: "string \<Rightarrow> string option \<Rightarrow> string" where
  "value_or d v = (case v of None \<Rightarrow> d | Some x \<Rightarrow> x)"

text \<open>The headers of an INVITE that the response echoes; one that is missing keeps its old value.\<close>

definition cache_headers :: "osip_message \<Rightarrow> string \<Rightarrow> sip_manager \<Rightarrow> sip_manager" where
  "cache_headers msg cid m =
     m\<lparr>sm_last_call_id := cid,
       sm_last_via_branch :=
         (case om_via_branches msg of Some b # _ \<Rightarrow> b | _ \<Rightarrow> sm_last_via_branch m),
       sm_last_from_tag := value_or (sm_last_from_tag m) (om_from_tag msg),
       sm_last_cseq :=
         (case om_cseq msg of
            None \<Rightarrow> sm_last_cseq m
          | Some (n, meth) \<Rightarrow> value_or ''0'' n @ '' '' @ value_or ''INVITE'' meth)\<rparr>"

definition remote_of :: "osip_message \<Rightarrow> string" where
  "remote_of msg =
     (case om_from_url msg of
        None \<Rightarrow> ''unknown''
      | Some (u, h) \<Rightarrow> value_or [] u @ ''@'' @ value_or [] h)"

text \<open>\<open>HandleInvite\<close>; the two clock readings are those of the timer and of the start time.\<close>

definition HandleInvite ::
  "'w sip_callback \<Rightarrow> time_ns \<times> time_ns \<Rightarrow> osip_message \<Rightarrow> 'w sip_state \<Rightarrow> 'w sip_state" where
  "HandleInvite cb now msg s =
     (case s of (w, m) \<Rightarrow>
        let cid = value_or [] (om_call_id msg)
        in if cid = [] then s
           else
             let m = cache_headers msg cid m;
                 local_uri = sc_username (sm_config m) @ ''@'' @ sc_domain (sm_config m)
             in if sm_calls m cid \<noteq> None then (w, m)
                else
                  let call = StartTimer (fst now) (sc_retry_t1_ms (sm_config m))
                        (SetState kRinging (SipCall_new cid local_uri (''sip:'' @ remote_of msg)));
                      (w, m) = NotifyStateChange cb cid kRinging (w, put_call cid call m);
                      (tag, m) = GenerateTag m;
                      (resp, m) = BuildResponse 200 ''OK'' tag m
                  in case sm_calls m cid of
                       None \<Rightarrow> (w, m)
                     | Some c \<Rightarrow>
                         let c = SetState kConnected c;
                             c = c\<lparr>call_session_info := (call_session_info c)\<lparr>ci_start_time := snd now\<rparr>\<rparr>
                         in NotifyStateChange cb cid kConnected (w, put_call cid c m))"

definition HandleAck :: "osip_message \<Rightarrow> 'w sip_state \<Rightarrow> 'w sip_state" where
  "HandleAck msg s = s"

definition HandleBye :: "'w sip_callback \<Rightarrow> osip_message \<Rightarrow> 'w sip_state \<Rightarrow> 'w sip_state" where
  "HandleBye cb msg s =
     (let cid = value_or [] (om_call_id msg);
          (w, m) = (case sm_calls (snd s) cid of None \<Rightarrow> s | Some c \<Rightarrow> drop_call cb cid c s);
          (resp, m) = BuildResponse 200 ''OK'' [] m
      in (w, m))"

definition HandleResponse :: "'w sip_callback \<Rightarrow> osip_message \<Rightarrow> 'w sip_state \<Rightarrow> 'w sip_state" where
  "HandleResponse cb msg s =
     (case s of (w, m) \<Rightarrow>
        let status = om_status_code msg; cid = value_or [] (om_call_id msg)
        in case sm_calls m cid of
             None \<Rightarrow> s
           | Some c \<Rightarrow>
               if 200 \<le> status \<and> status < 300
               then if call_state c = kCalling
                    then let (ack, m) = BuildAckRequest cid m
                         in NotifyStateChange cb cid kConnected (w, put_call cid (SetState kConnected c) m)
                    else if call_state c = kDisconnecting then drop_call cb cid c s
                    else s
               else if 300 \<le> status
               then NotifyStateChange cb cid kFailed
                      (w, put_call cid (SetError (''SIP '' @ show_int status) (SetState kFailed c)) m)
               else s)"

definition HandleCancel :: "'w sip_callback \<Rightarrow> osip_message \<Rightarrow> 'w sip_state \<Rightarrow> 'w sip_state" where
  "HandleCancel cb msg s =
     (let cid = value_or [] (om_call_id msg)
      in case sm_calls (snd s) cid of None \<Rightarrow> s | Some c \<Rightarrow> drop_call cb cid c s)"

text \<open>
  \<open>ProcessIncomingMessage\<close>: \<open>parse\<close> is osip's parser. osip's macros take a message with status code 0 for
  a request and every other one for a response.
\<close>

definition ProcessIncomingMessage ::
  "(string \<Rightarrow> osip_message option) \<Rightarrow> 'w sip_callback \<Rightarrow> time_ns \<times> time_ns \<Rightarrow> string \<Rightarrow> 'w sip_state \<Rightarrow> 'w sip_state" where
  "ProcessIncomingMessage parse cb now raw_msg s =
     (case parse raw_msg of
        None \<Rightarrow> s
      | Some msg \<Rightarrow>
          if om_status_code msg = 0
          then case om_method msg of
                 None \<Rightarrow> s
               | Some meth \<Rightarrow>
                   if meth = ''INVITE'' then HandleInvite cb now msg s
                   else if meth = ''ACK'' then HandleAck msg s
                   else if meth = ''BYE'' then HandleBye cb msg s
                   else if meth = ''CANCEL'' then HandleCancel cb msg s
                   else s
          else HandleResponse cb msg s)"

section \<open>Timers\<close>

text \<open>
  One call of \<open>ProcessTimers\<close>' loop. The code reads the clock in each test and when it restarts the
  timer: \<open>t\<close> holds the three readings. The shift is defined for counts below 32.
\<close>

definition timer_step ::
  "'w sip_callback \<Rightarrow> time_ns \<times> time_ns \<times> time_ns \<Rightarrow> string \<Rightarrow> 'w sip_state \<Rightarrow> 'w sip_state" where
  "timer_step cb t cid s =
     (case s of (w, m) \<Rightarrow> case t of (t1, t2, t3) \<Rightarrow>
        case sm_calls m cid of
          None \<Rightarrow> s
        | Some c \<Rightarrow>
            if IsTimerExpired t1 c \<and> call_retransmit_count c < sc_max_retransmit (sm_config m)
            then
              let c = IncrementRetransmit c;
                  timeout = sc_retry_t1_ms (sm_config m) * push_bit (unat (call_retransmit_count c)) 1
              in (w, put_call cid (StartTimer t3 timeout c) m)
            else if IsTimerExpired t2 c
            then NotifyStateChange cb (call_id c) kFailed (w, put_call cid (SetState kFailed c) m)
            else s)"

text \<open>The loop visits the calls of the unordered map in some order \<open>ids\<close>.\<close>

definition ProcessTimers ::
  "'w sip_callback \<Rightarrow> (string \<Rightarrow> time_ns \<times> time_ns \<times> time_ns) \<Rightarrow> string list \<Rightarrow> 'w sip_state \<Rightarrow> 'w sip_state" where
  "ProcessTimers cb clk ids s = fold (\<lambda>cid. timer_step cb (clk cid) cid) ids s"

section \<open>Queries and session descriptions\<close>

definition GetCallState :: "string \<Rightarrow> sip_manager \<Rightarrow> sip_call_state" where
  "GetCallState cid m = (case sm_calls m cid of None \<Rightarrow> kIdle | Some c \<Rightarrow> call_state c)"

definition GetCall :: "string \<Rightarrow> sip_manager \<Rightarrow> sip_call option" where
  "GetCall cid m = sm_calls m cid"

definition CacheLastRequest :: "string \<Rightarrow> sip_manager \<Rightarrow> sip_manager" where
  "CacheLastRequest cid m = m\<lparr>sm_last_call_id := cid\<rparr>"

definition sdp_to_info :: "sdp_session \<Rightarrow> call_session_info \<Rightarrow> call_session_info" where
  "sdp_to_info sess info =
     (let info = info\<lparr>ci_remote_rtp_addr := ss_conn_addr sess\<rparr>;
          info = (case FindAudio sess of None \<Rightarrow> info
                  | Some a \<Rightarrow> info\<lparr>ci_audio_remote_port := Some (sm_port a)\<rparr>)
      in case FindVideo sess of None \<Rightarrow> info
         | Some v \<Rightarrow> info\<lparr>ci_video_remote_port := Some (sm_port v)\<rparr>)"

definition ProcessIncomingSdp :: "string \<Rightarrow> string \<Rightarrow> sip_manager \<Rightarrow> bool \<times> sip_manager" where
  "ProcessIncomingSdp cid sdp_body m =
     (case SdpBuilder_Parse sdp_body SdpSession_new of
        (False, sess) \<Rightarrow> (False, m)
      | (True, sess) \<Rightarrow>
          (case sm_calls m cid of
             None \<Rightarrow> (False, m)
           | Some c \<Rightarrow>
               (True, put_call cid (c\<lparr>call_session_info := sdp_to_info sess (call_session_info c)\<rparr>) m)))"

text \<open>\<open>BuildSdpAnswer\<close>; \<open>None\<close> is the use of a local port that was never set.\<close>

definition BuildSdpAnswer :: "string \<Rightarrow> sip_manager \<Rightarrow> string option" where
  "BuildSdpAnswer cid m =
     (case sm_calls m cid of
        None \<Rightarrow> Some []
      | Some c \<Rightarrow>
          do {
            a \<leftarrow> ci_audio_local_port (call_session_info c);
            v \<leftarrow> ci_video_local_port (call_session_info c);
            Some (BuildAnswer (sc_local_addr (sm_config m)) (a + 2) (v + 2) 96 97)
          })"

section \<open>The contract of the client\<close>

text \<open>
  What the operations rely on while the callback runs: it may change the session information of calls,
  apart from the state in it, and nothing else of the manager. In particular it keeps the table's keys,
  on which the iterators of \<open>AnswerCall\<close>, \<open>CancelCall\<close>, \<open>HandleBye\<close> and \<open>ProcessTimers\<close> depend.
\<close>

definition same_call :: "sip_call \<Rightarrow> sip_call \<Rightarrow> bool" where
  "same_call c d \<longleftrightarrow> d = c\<lparr>call_session_info := call_session_info d\<rparr> \<and>
     ci_state (call_session_info d) = ci_state (call_session_info c)"

definition same_but_info :: "sip_manager \<Rightarrow> sip_manager \<Rightarrow> bool" where
  "same_but_info m m' \<longleftrightarrow>
     m' = m\<lparr>sm_calls := sm_calls m'\<rparr> \<and> (\<forall>cid. rel_option same_call (sm_calls m cid) (sm_calls m' cid))"

locale sip_client =
  fixes cb :: "'w sip_callback"
  assumes cb_frame: "cb cid st (w, m) = (w', m') \<Longrightarrow> same_but_info m m'"

text \<open>The client that is not there: no callback is set.\<close>

definition no_callback :: "'w sip_callback" where
  "no_callback cid st s = s"

lemma same_call_refl [simp]: "same_call c c"
  by (simp add: same_call_def)

lemma same_but_info_refl [simp]: "same_but_info m m"
  by (simp add: same_but_info_def option.rel_refl)

interpretation nocb: sip_client no_callback
  by unfold_locales (simp add: no_callback_def)

section \<open>The life of a call\<close>

text \<open>
  The abstract specification: what one operation may do to one call identifier, from its state, or
  \<open>None\<close> while no call has it, to the next.
\<close>

inductive call_step :: "sip_call_state option \<Rightarrow> sip_call_state option \<Rightarrow> bool" where
  dial: "call_step x (Some kCalling)"
| invited: "call_step None (Some kConnected)"
| answer: "call_step (Some st) (Some kConnected)"
| remove: "call_step (Some st) None"
| hang_up: "st \<in> {kConnected, kInProgress} \<Longrightarrow> call_step (Some st) (Some kDisconnecting)"
| fail: "call_step (Some st) (Some kFailed)"

inductive_simps call_step_simps: "call_step x y"

definition call_view :: "sip_manager \<Rightarrow> string \<Rightarrow> sip_call_state option" where
  "call_view m cid = map_option call_state (sm_calls m cid)"

text \<open>The states a call can be in between operations.\<close>

definition settled :: "sip_call_state \<Rightarrow> bool" where
  "settled st \<longleftrightarrow> st \<in> {kCalling, kConnected, kDisconnecting, kFailed}"

definition call_wf :: "string \<Rightarrow> sip_call \<Rightarrow> bool" where
  "call_wf cid c \<longleftrightarrow> call_id c = cid \<and> state_synced c \<and> call_retransmit_count c = 0"

definition calls_wf :: "sip_manager \<Rightarrow> bool" where
  "calls_wf m \<longleftrightarrow> (\<forall>cid c. sm_calls m cid = Some c \<longrightarrow> call_wf cid c)"

definition sip_wf :: "sip_manager \<Rightarrow> bool" where
  "sip_wf m \<longleftrightarrow> calls_wf m \<and> (\<forall>cid st. call_view m cid = Some st \<longrightarrow> settled st)"

lemma same_call_wf: "same_call c d \<Longrightarrow> call_wf cid c = call_wf cid d"
  by (cases c; cases d) (auto simp: same_call_def call_wf_def state_synced_def)

lemma same_call_state: "same_call c d \<Longrightarrow> call_state d = call_state c"
  by (cases c; cases d) (simp add: same_call_def)

lemma same_but_info_view:
  assumes "same_but_info m m'"
  shows "call_view m' = call_view m" "calls_wf m' = calls_wf m"
    "sm_config m' = sm_config m" "sm_initialized m' = sm_initialized m" "sm_registered m' = sm_registered m"
proof -
  have r: "rel_option same_call (sm_calls m cid) (sm_calls m' cid)" for cid
    using assms by (simp add: same_but_info_def)
  show "call_view m' = call_view m"
  proof
    fix cid
    show "call_view m' cid = call_view m cid"
      using r[of cid] by (cases "sm_calls m cid"; cases "sm_calls m' cid") (auto simp: call_view_def same_call_state)
  qed
  have "(\<forall>c. sm_calls m cid = Some c \<longrightarrow> call_wf cid c) \<longleftrightarrow> (\<forall>c. sm_calls m' cid = Some c \<longrightarrow> call_wf cid c)" for cid
    using r[of cid] by (cases "sm_calls m cid"; cases "sm_calls m' cid") (auto simp: same_call_wf)
  then show "calls_wf m' = calls_wf m" by (simp add: calls_wf_def)
  show "sm_config m' = sm_config m" "sm_initialized m' = sm_initialized m" "sm_registered m' = sm_registered m"
    using assms by (cases m; cases m'; simp add: same_but_info_def)+
qed

lemma same_counters_view:
  assumes "same_but_counters m m'"
  shows "call_view m' = call_view m" "calls_wf m' = calls_wf m"
  using same_but_counters_fields[OF assms] by (simp_all add: call_view_def[abs_def] calls_wf_def)

lemma put_call_view [simp]:
  "call_view (put_call cid c m) = (call_view m)(cid \<mapsto> call_state c)"
  "call_view (erase_call cid m) = (call_view m)(cid := None)"
  by (auto simp: call_view_def put_call_def erase_call_def)

lemma put_call_fields [simp]:
  "sm_config (put_call cid c m) = sm_config m" "sm_calls (put_call cid c m) = (sm_calls m)(cid \<mapsto> c)"
  "sm_initialized (put_call cid c m) = sm_initialized m"
  by (simp_all add: put_call_def)

lemma calls_wf_put: "calls_wf m \<Longrightarrow> call_wf cid c \<Longrightarrow> calls_wf (put_call cid c m)"
  by (auto simp: calls_wf_def put_call_def)

lemma calls_wf_erase: "calls_wf m \<Longrightarrow> calls_wf (erase_call cid m)"
  by (auto simp: calls_wf_def erase_call_def)

lemma calls_wfD: "calls_wf m \<Longrightarrow> sm_calls m cid = Some c \<Longrightarrow> call_wf cid c"
  by (simp add: calls_wf_def)

lemma call_wf_ops:
  assumes "call_wf cid c"
  shows "call_wf cid (SetState st c)" "call_wf cid (SetError e c)"
    "call_wf cid (c\<lparr>call_session_info := (call_session_info c)\<lparr>ci_start_time := t\<rparr>\<rparr>)"
    "call_wf cid (StartTimer now n (IncrementRetransmit c))" "call_wf cid (StartTimer now n c)"
  using assms by (simp_all add: call_wf_def) (simp add: state_synced_def)

lemma call_wf_new [simp]: "call_wf cid (SipCall_new cid l r)"
  by (simp add: call_wf_def)

lemma view_Some: "sm_calls m cid = Some c \<Longrightarrow> call_view m cid = Some (call_state c)"
  by (simp add: call_view_def)

section \<open>The effect of every operation, for every client that keeps the contract\<close>

lemma cache_headers_view [simp]:
  "call_view (cache_headers msg cid m) = call_view m" "calls_wf (cache_headers msg cid m) = calls_wf m"
  "sm_calls (cache_headers msg cid m) = sm_calls m" "sm_config (cache_headers msg cid m) = sm_config m"
  by (simp_all add: cache_headers_def call_view_def[abs_def] calls_wf_def)

lemma view_update_same: "f cid = x \<Longrightarrow> f(cid := x) = f"
  by auto

context sip_client
begin

lemma notify:
  assumes "cb cid st (w, m) = (w', m')"
  shows "call_view m' = call_view m" "calls_wf m' = calls_wf m" "sm_config m' = sm_config m"
    "sm_initialized m' = sm_initialized m"
  using same_but_info_view[OF cb_frame[OF assms]] by simp_all

lemma drop_call_effect:
  assumes "drop_call cb cid c (w, m) = (w', m')" "calls_wf m" "call_wf cid c"
  shows "call_view m' = (call_view m)(cid := None)" "calls_wf m'"
proof -
  obtain w1 m1 where n: "cb cid kDisconnected (w, put_call cid (SetState kDisconnected c) m) = (w1, m1)"
    by fastforce
  have m': "m' = erase_call cid m1" using assms(1) by (simp add: drop_call_def NotifyStateChange_def n)
  from notify[OF n] show "call_view m' = (call_view m)(cid := None)" by (simp add: m')
  from notify(2)[OF n] assms(2,3) show "calls_wf m'"
    by (simp add: m' calls_wf_erase calls_wf_put call_wf_ops)
qed

lemma put_notify_effect:
  assumes "cb cid st (w, put_call cid c m) = (w', m')" "calls_wf m" "call_wf cid c"
  shows "call_view m' = (call_view m)(cid \<mapsto> call_state c)" "calls_wf m'"
  using notify[OF assms(1)] assms(2,3) by (simp_all add: calls_wf_put)

lemma MakeCall_effect:
  assumes "MakeCall cb now uri (w, m) = (r, w', m')" "calls_wf m"
  shows "if sm_initialized m then call_view m' = (call_view m)(r \<mapsto> kCalling) \<and> calls_wf m'
    else (w', m') = (w, m) \<and> r = []"
proof (cases "sm_initialized m")
  case True
  obtain cid m1 where g: "GenerateCallId m = (cid, m1)" by fastforce
  obtain msg m2 where b: "BuildInviteRequest cid uri m1 = (msg, m2)" by fastforce
  let ?c = "StartTimer now (sc_retry_t1_ms (sm_config m1)) (SetState kCalling
     (SipCall_new cid (sc_username (sm_config m1) @ ''@'' @ sc_domain (sm_config m1)) uri))"
  have s: "same_but_counters m m2"
    using GenerateCallId_same[OF g] BuildInviteRequest_same[OF b] same_but_counters_trans by blast
  have e: "cb cid kCalling (w, put_call cid ?c m2) = (w', m')" "r = cid"
    using assms(1) True by (auto simp: MakeCall_def g b NotifyStateChange_def)
  have "call_wf cid ?c" by (simp add: call_wf_ops)
  with put_notify_effect[OF e(1)] assms(2) same_counters_view[OF s] True e(2) show ?thesis by simp
qed (use assms in \<open>simp add: MakeCall_def\<close>)

lemma AnswerCall_effect:
  assumes "AnswerCall cb now cid accept (w, m) = (r, w', m')" "calls_wf m"
  shows "if call_view m cid = None then (w', m') = (w, m) \<and> \<not> r
    else r = accept \<and> calls_wf m' \<and>
      call_view m' = (call_view m)(cid := (if accept then Some kConnected else None))"
proof (cases "sm_calls m cid")
  case (Some c)
  obtain tag m1 where g: "GenerateTag m = (tag, m1)" by fastforce
  obtain msg m2 where b: "BuildResponse (if accept then 200 else 486)
      (if accept then ''OK'' else ''Busy Here'') tag m1 = (msg, m2)" by fastforce
  have s: "same_but_counters m m2"
    using GenerateTag_same[OF g] BuildResponse_same[OF b] same_but_counters_trans by blast
  note v = same_counters_view[OF s]
  have wf: "call_wf cid c" using calls_wfD[OF assms(2) Some] .
  show ?thesis
  proof (cases accept)
    case True
    let ?c = "SetState kConnected c"
    let ?d = "?c\<lparr>call_session_info := (call_session_info ?c)\<lparr>ci_start_time := now\<rparr>\<rparr>"
    have e: "cb cid kConnected (w, put_call cid ?d m2) = (w', m')" "r"
      using assms(1) True b by (simp_all add: AnswerCall_def Some g NotifyStateChange_def Let_def)
    have "call_wf cid ?d" using wf by (intro call_wf_ops)
    with put_notify_effect[OF e(1)] assms(2) v True e(2) view_Some[OF Some] show ?thesis by simp
  next
    case False
    then have "drop_call cb cid c (w, m2) = (w', m')" "\<not> r"
      using assms(1) b by (auto simp: AnswerCall_def Some g drop_call_def Let_def split: prod.splits)
    with drop_call_effect[of cid c w m2 w' m'] wf assms(2) v False view_Some[OF Some] show ?thesis by simp
  qed
qed (use assms in \<open>simp add: AnswerCall_def call_view_def\<close>)

lemma HangUp_effect:
  assumes "HangUp cb cid (w, m) = (r, w', m')" "calls_wf m"
  shows "if call_view m cid \<in> {Some kConnected, Some kInProgress}
    then r \<and> calls_wf m' \<and> call_view m' = (call_view m)(cid \<mapsto> kDisconnecting)
    else (w', m') = (w, m) \<and> \<not> r"
proof (cases "sm_calls m cid")
  case (Some c)
  show ?thesis
  proof (cases "call_state c = kConnected \<or> call_state c = kInProgress")
    case True
    let ?m = "put_call cid (SetState kDisconnecting c) m"
    obtain msg m1 where b: "BuildByeRequest cid ?m = (msg, m1)" by fastforce
    have s: "same_but_counters ?m m1"
      using b in_dialog_request_same by (simp add: BuildByeRequest_def)
    have e: "cb cid kDisconnecting (w, m1) = (w', m')" "r"
      using assms(1) True b by (auto simp: HangUp_def Some NotifyStateChange_def)
    have "calls_wf ?m" using calls_wfD[OF assms(2) Some] assms(2) by (simp add: calls_wf_put call_wf_ops)
    with notify[OF e(1)] same_counters_view[OF s] e(2) True view_Some[OF Some] show ?thesis by auto
  qed (use assms view_Some[OF Some] in \<open>auto simp: HangUp_def Some\<close>)
qed (use assms in \<open>simp add: HangUp_def call_view_def\<close>)

lemma CancelCall_effect:
  assumes "CancelCall cb cid (w, m) = (r, w', m')" "calls_wf m"
  shows "if call_view m cid = None then (w', m') = (w, m) \<and> \<not> r
    else r \<and> calls_wf m' \<and> call_view m' = (call_view m)(cid := None)"
proof (cases "sm_calls m cid")
  case (Some c)
  then have "drop_call cb cid c (w, m) = (w', m')" "r" using assms(1) by (simp_all add: CancelCall_def)
  with drop_call_effect[OF _ assms(2) calls_wfD[OF assms(2) Some]] view_Some[OF Some] show ?thesis by simp
qed (use assms in \<open>simp add: CancelCall_def call_view_def\<close>)

lemma HandleInvite_effect:
  assumes "HandleInvite cb now msg (w, m) = (w', m')" "calls_wf m"
  defines "cid \<equiv> value_or [] (om_call_id msg)"
  shows "calls_wf m' \<and>
    call_view m' = (if cid \<noteq> [] \<and> call_view m cid = None then (call_view m)(cid \<mapsto> kConnected) else call_view m)"
proof (cases "cid = [] \<or> sm_calls m cid \<noteq> None")
  case True
  then show ?thesis
    using assms(1,2) by (auto simp: HandleInvite_def cid_def Let_def call_view_def split: if_splits)
next
  case False
  let ?m = "cache_headers msg cid m"
  let ?c = "StartTimer (fst now) (sc_retry_t1_ms (sm_config m)) (SetState kRinging (SipCall_new cid
     (sc_username (sm_config m) @ ''@'' @ sc_domain (sm_config m)) (''sip:'' @ remote_of msg)))"
  obtain w1 m1 where n: "cb cid kRinging (w, put_call cid ?c ?m) = (w1, m1)" by fastforce
  obtain tag m2 where g: "GenerateTag m1 = (tag, m2)" by fastforce
  obtain resp m3 where b: "BuildResponse 200 ''OK'' tag m2 = (resp, m3)" by fastforce
  have wfc: "call_wf cid ?c" by (simp add: call_wf_ops)
  have p: "call_view m1 = (call_view m)(cid \<mapsto> kRinging)" "calls_wf m1"
    using put_notify_effect[OF n] assms(2) wfc by simp_all
  have s: "same_but_counters m1 m3"
    using GenerateTag_same[OF g] BuildResponse_same[OF b] same_but_counters_trans by blast
  note v = same_counters_view[OF s]
  have "call_view m3 cid = Some kRinging" using p v by simp
  then obtain d where d: "sm_calls m3 cid = Some d" by (auto simp: call_view_def)
  let ?d = "SetState kConnected d"
  let ?e = "?d\<lparr>call_session_info := (call_session_info ?d)\<lparr>ci_start_time := snd now\<rparr>\<rparr>"
  have e: "cb cid kConnected (w1, put_call cid ?e m3) = (w', m')"
    using assms(1) False n b d
    by (simp add: HandleInvite_def cid_def[symmetric] NotifyStateChange_def g Let_def)
  have "call_wf cid ?e" using calls_wfD[OF _ d] p v by (intro call_wf_ops) simp
  with put_notify_effect[OF e] p v False show ?thesis by (simp add: call_view_def)
qed

lemma HandleBye_effect:
  assumes "HandleBye cb msg (w, m) = (w', m')" "calls_wf m"
  shows "calls_wf m' \<and> call_view m' = (call_view m)(value_or [] (om_call_id msg) := None)"
proof -
  let ?cid = "value_or [] (om_call_id msg)"
  obtain w1 m1 where d: "(case sm_calls m ?cid of None \<Rightarrow> (w, m) | Some c \<Rightarrow> drop_call cb ?cid c (w, m)) = (w1, m1)"
    by (rule prod.exhaust)
  obtain resp m2 where b: "BuildResponse 200 ''OK'' [] m1 = (resp, m2)" by fastforce
  have m': "m' = m2" using assms(1) d b by (simp add: HandleBye_def Let_def)
  have "calls_wf m1 \<and> call_view m1 = (call_view m)(?cid := None)"
    using d drop_call_effect[of ?cid _ w m w1 m1] assms(2) calls_wfD[OF assms(2)]
    by (cases "sm_calls m ?cid") (auto simp: call_view_def fun_eq_iff)
  with same_counters_view[OF BuildResponse_same[OF b]] show ?thesis by (simp add: m')
qed

lemma HandleCancel_effect:
  assumes "HandleCancel cb msg (w, m) = (w', m')" "calls_wf m"
  shows "calls_wf m' \<and> call_view m' = (call_view m)(value_or [] (om_call_id msg) := None)"
  using assms drop_call_effect[of "value_or [] (om_call_id msg)" _ w m w' m'] calls_wfD[OF assms(2)]
  by (cases "sm_calls m (value_or [] (om_call_id msg))")
    (auto simp: HandleCancel_def Let_def call_view_def fun_eq_iff)

end

text \<open>What a response does to the state of its call.\<close>

definition response_view :: "int \<Rightarrow> sip_call_state option \<Rightarrow> sip_call_state option" where
  "response_view status x =
     (if x = None then None
      else if 200 \<le> status \<and> status < 300
      then (if x = Some kCalling then Some kConnected else if x = Some kDisconnecting then None else x)
      else if 300 \<le> status then Some kFailed else x)"

context sip_client
begin

lemma HandleResponse_effect:
  assumes "HandleResponse cb msg (w, m) = (w', m')" "calls_wf m"
  defines "cid \<equiv> value_or [] (om_call_id msg)"
  shows "calls_wf m' \<and> call_view m' = (call_view m)(cid := response_view (om_status_code msg) (call_view m cid))"
proof (cases "sm_calls m cid")
  case None
  then show ?thesis
    using assms(1,2) by (auto simp: HandleResponse_def cid_def[symmetric] call_view_def response_view_def Let_def)
next
  case (Some c)
  note wf = calls_wfD[OF assms(2) Some] and v = view_Some[OF Some]
  let ?st = "om_status_code msg"
  consider (ok_calling) "200 \<le> ?st" "?st < 300" "call_state c = kCalling"
    | (ok_bye) "200 \<le> ?st" "?st < 300" "call_state c = kDisconnecting"
    | (refused) "300 \<le> ?st"
    | (other) "\<not> 300 \<le> ?st" "200 \<le> ?st \<longrightarrow> call_state c \<noteq> kCalling \<and> call_state c \<noteq> kDisconnecting"
    by linarith
  then show ?thesis
  proof cases
    case ok_calling
    obtain ack m1 where b: "BuildAckRequest cid m = (ack, m1)" by fastforce
    have s: "same_but_counters m m1" using b in_dialog_request_same by (simp add: BuildAckRequest_def)
    have e: "cb cid kConnected (w, put_call cid (SetState kConnected c) m1) = (w', m')"
      using assms(1) ok_calling b by (simp add: HandleResponse_def cid_def[symmetric] Some NotifyStateChange_def)
    from put_notify_effect[OF e] same_counters_view[OF s] assms(2) wf v ok_calling show ?thesis
      by (simp add: call_wf_ops response_view_def)
  next
    case ok_bye
    have "drop_call cb cid c (w, m) = (w', m')"
      using assms(1) ok_bye by (simp add: HandleResponse_def cid_def[symmetric] Some)
    from drop_call_effect[OF this assms(2) wf] v ok_bye show ?thesis by (simp add: response_view_def)
  next
    case refused
    have e: "cb cid kFailed (w, put_call cid (SetError (''SIP '' @ show_int ?st) (SetState kFailed c)) m) = (w', m')"
      using assms(1) refused by (simp add: HandleResponse_def cid_def[symmetric] Some NotifyStateChange_def)
    from put_notify_effect[OF e assms(2)] wf v refused show ?thesis
      by (simp add: call_wf_ops response_view_def)
  next
    case other
    then have "(w', m') = (w, m)"
      using assms(1) by (auto simp: HandleResponse_def cid_def[symmetric] Some Let_def split: if_splits)
    with assms(2) other v show ?thesis by (auto simp: response_view_def)
  qed
qed

lemma timer_step_effect:
  assumes "timer_step cb (t1, t2, t3) cid (w, m) = (w', m')" "calls_wf m"
  shows "calls_wf m'" "sm_config m' = sm_config m"
    "call_view m' = call_view m \<or> call_view m cid \<noteq> None \<and> call_view m' = (call_view m)(cid \<mapsto> kFailed)"
    "t2 = t1 \<Longrightarrow> sc_max_retransmit (sm_config m) \<noteq> 0 \<Longrightarrow> call_view m' = call_view m"
proof -
  have "calls_wf m' \<and> sm_config m' = sm_config m \<and>
    (call_view m' = call_view m \<or> call_view m cid \<noteq> None \<and> call_view m' = (call_view m)(cid \<mapsto> kFailed)) \<and>
    (t2 = t1 \<and> sc_max_retransmit (sm_config m) \<noteq> 0 \<longrightarrow> call_view m' = call_view m)"
  proof (cases "sm_calls m cid")
    case (Some c)
    note wf = calls_wfD[OF assms(2) Some] and v = view_Some[OF Some]
    have r: "call_retransmit_count c = 0" "call_id c = cid" using wf by (simp_all add: call_wf_def)
    consider (again) "IsTimerExpired t1 c" "0 < sc_max_retransmit (sm_config m)"
      | (give_up) "\<not> (IsTimerExpired t1 c \<and> 0 < sc_max_retransmit (sm_config m))" "IsTimerExpired t2 c"
      | (idle) "\<not> (IsTimerExpired t1 c \<and> 0 < sc_max_retransmit (sm_config m))" "\<not> IsTimerExpired t2 c"
      by blast
    then show ?thesis
    proof cases
      case again
      then have m': "m' = put_call cid (StartTimer t3 (sc_retry_t1_ms (sm_config m) *
          push_bit (unat (call_retransmit_count (IncrementRetransmit c))) 1) (IncrementRetransmit c)) m"
        using assms(1) r by (simp add: timer_step_def Some Let_def)
      have "call_wf cid (StartTimer t (k :: u32) (IncrementRetransmit c))" for t k
        using wf by (intro call_wf_ops)
      then show ?thesis using assms(2) v by (simp add: m' calls_wf_put fun_upd_idem)
    next
      case give_up
      then have e: "cb cid kFailed (w, put_call cid (SetState kFailed c) m) = (w', m')"
        using assms(1) r by (auto simp: timer_step_def Some NotifyStateChange_def Let_def)
      have "\<not> (t2 = t1 \<and> sc_max_retransmit (sm_config m) \<noteq> 0)" using give_up by (auto simp: word_gt_0)
      with put_notify_effect[OF e assms(2)] notify(3)[OF e] wf v show ?thesis
        by (auto simp: call_wf_ops)
    next
      case idle
      then have "m' = m" using assms(1) r by (auto simp: timer_step_def Some)
      with assms(2) show ?thesis by simp
    qed
  qed (use assms in \<open>simp add: timer_step_def\<close>)
  then show "calls_wf m'" "sm_config m' = sm_config m"
    "call_view m' = call_view m \<or> call_view m cid \<noteq> None \<and> call_view m' = (call_view m)(cid \<mapsto> kFailed)"
    "t2 = t1 \<Longrightarrow> sc_max_retransmit (sm_config m) \<noteq> 0 \<Longrightarrow> call_view m' = call_view m" by blast+
qed

lemma ProcessTimers_effect:
  assumes "ProcessTimers cb clk ids (w, m) = (w', m')" "calls_wf m"
  shows "calls_wf m' \<and> sm_config m' = sm_config m \<and>
    (\<forall>cid. call_view m' cid = call_view m cid \<or> call_view m cid \<noteq> None \<and> call_view m' cid = Some kFailed) \<and>
    ((\<forall>cid. fst (snd (clk cid)) = fst (clk cid)) \<and> sc_max_retransmit (sm_config m) \<noteq> 0 \<longrightarrow> call_view m' = call_view m)"
  using assms
proof (induction ids arbitrary: w m)
  case (Cons cid ids)
  obtain t1 t2 t3 where t: "clk cid = (t1, t2, t3)" by (rule prod_cases3)
  obtain w1 m1 where s: "timer_step cb (t1, t2, t3) cid (w, m) = (w1, m1)" by fastforce
  have p: "ProcessTimers cb clk ids (w1, m1) = (w', m')"
    using Cons.prems(1) s by (simp add: ProcessTimers_def t)
  note e = timer_step_effect[OF s Cons.prems(2)]
  note ih = Cons.IH[OF p e(1)]
  have a: "\<forall>c. call_view m1 c = call_view m c \<or> call_view m c \<noteq> None \<and> call_view m1 c = Some kFailed"
    using e(3) by (auto split: if_splits)
  have "\<forall>c. call_view m' c = call_view m c \<or> call_view m c \<noteq> None \<and> call_view m' c = Some kFailed"
    using a ih by metis
  moreover have "call_view m' = call_view m"
    if "\<forall>cid. fst (snd (clk cid)) = fst (clk cid)" "sc_max_retransmit (sm_config m) \<noteq> 0"
  proof -
    have "t2 = t1" using that(1) t by (metis fst_conv snd_conv)
    with e(2,4) ih that show ?thesis by auto
  qed
  ultimately show ?case using ih e(2) by auto
qed (simp add: ProcessTimers_def)

lemma ProcessIncomingMessage_effect:
  assumes "ProcessIncomingMessage parse cb now raw (w, m) = (w', m')" "calls_wf m"
  shows "calls_wf m' \<and> (\<forall>cid. call_view m' cid = call_view m cid \<or> call_step (call_view m cid) (call_view m' cid))"
proof (cases "parse raw")
  case (Some msg)
  let ?cid = "value_or [] (om_call_id msg)"
  have one: ?thesis if "calls_wf m'" "call_view m' = (call_view m)(?cid := x)"
    "x = call_view m ?cid \<or> call_step (call_view m ?cid) x" for x
    using that by auto
  have gone: "None = call_view m ?cid \<or> call_step (call_view m ?cid) None"
    by (cases "call_view m ?cid") (auto intro: call_step.remove)
  consider (resp) "om_status_code msg \<noteq> 0"
    | (invite) "om_status_code msg = 0" "om_method msg = Some ''INVITE''"
    | (bye) "om_status_code msg = 0" "om_method msg = Some ''BYE''"
    | (cancel) "om_status_code msg = 0" "om_method msg = Some ''CANCEL''"
    | (other) "om_status_code msg = 0" "om_method msg \<notin> {Some ''INVITE'', Some ''BYE'', Some ''CANCEL''}"
    by blast
  then show ?thesis
  proof cases
    case resp
    then have h: "HandleResponse cb msg (w, m) = (w', m')"
      using assms(1) by (simp add: ProcessIncomingMessage_def Some)
    have "response_view st x = x \<or> call_step x (response_view st x)" for st x
      by (auto simp: response_view_def intro: call_step.intros)
    then show ?thesis using HandleResponse_effect[OF h assms(2)] one by metis
  next
    case invite
    then have h: "HandleInvite cb now msg (w, m) = (w', m')"
      using assms(1) by (simp add: ProcessIncomingMessage_def Some)
    from HandleInvite_effect[OF h assms(2)] show ?thesis
      by (auto intro: call_step.invited)
  next
    case bye
    then have h: "HandleBye cb msg (w, m) = (w', m')"
      using assms(1) by (simp add: ProcessIncomingMessage_def Some)
    from HandleBye_effect[OF h assms(2)] one gone show ?thesis by blast
  next
    case cancel
    then have h: "HandleCancel cb msg (w, m) = (w', m')"
      using assms(1) by (simp add: ProcessIncomingMessage_def Some)
    from HandleCancel_effect[OF h assms(2)] one gone show ?thesis by blast
  next
    case other
    then have "(w', m') = (w, m)"
      using assms(1) by (auto simp: ProcessIncomingMessage_def Some HandleAck_def split: option.splits if_splits)
    with assms(2) show ?thesis by simp
  qed
qed (use assms in \<open>simp add: ProcessIncomingMessage_def\<close>)

end

section \<open>The manager as a transition system\<close>

text \<open>Every public operation, with any arguments, and any change of the client's own state between them.\<close>

inductive sip_step :: "'w sip_callback \<Rightarrow> 'w sip_state \<Rightarrow> 'w sip_state \<Rightarrow> bool"
  for cb :: "'w sip_callback" where
  make_call: "MakeCall cb now uri s = (r, s') \<Longrightarrow> sip_step cb s s'"
| answer_call: "AnswerCall cb now cid accept s = (ok, s') \<Longrightarrow> sip_step cb s s'"
| hang_up: "HangUp cb cid s = (ok, s') \<Longrightarrow> sip_step cb s s'"
| cancel_call: "CancelCall cb cid s = (ok, s') \<Longrightarrow> sip_step cb s s'"
| message: "ProcessIncomingMessage parse cb now raw s = s' \<Longrightarrow> sip_step cb s s'"
| timers: "ProcessTimers cb clk ids s = s' \<Longrightarrow> sip_step cb s s'"
| incoming_sdp: "ProcessIncomingSdp cid body m = (ok, m') \<Longrightarrow> sip_step cb (w, m) (w, m')"
| register: "Register cb s = (ok, s') \<Longrightarrow> sip_step cb s s'"
| unregister: "Unregister cb s = (ok, s') \<Longrightarrow> sip_step cb s s'"
| client: "sip_step cb (w, m) (w', m)"

inductive sip_reachable :: "'w sip_callback \<Rightarrow> 'w sip_state \<Rightarrow> bool"
  for cb :: "'w sip_callback" where
  initialized: "Initialize ok config (SipManager_new rng) = (r, m) \<Longrightarrow> sip_reachable cb (w, m)"
| step: "sip_reachable cb s \<Longrightarrow> sip_step cb s s' \<Longrightarrow> sip_reachable cb s'"

lemma Initialize_no_calls:
  assumes "Initialize ok config m = (r, m')"
  shows "sm_calls m' = sm_calls m"
proof (cases ok)
  case True
  obtain b m1 where r1: "RandomHex 32 (m\<lparr>sm_config := config, sm_osip := True\<rparr>) = (b, m1)" by fastforce
  obtain p m2 where r2: "RandomHex 16 (m1\<lparr>sm_branch_id := ''z9hG4bK'' @ b\<rparr>) = (p, m2)" by fastforce
  have "sm_calls m1 = sm_calls m" "sm_calls m2 = sm_calls m1"
    using RandomHex_same[OF r1] RandomHex_same[OF r2] same_but_counters_fields(2) by fastforce+
  then show ?thesis using assms True r1 r2 by (auto simp: Initialize_def draw_def)
qed (use assms in \<open>auto simp: Initialize_def\<close>)

lemma put_info_view:
  assumes "sm_calls m cid = Some c" "ci_state info = ci_state (call_session_info c)"
  shows "call_view (put_call cid (c\<lparr>call_session_info := info\<rparr>) m) = call_view m"
    "calls_wf m \<Longrightarrow> calls_wf (put_call cid (c\<lparr>call_session_info := info\<rparr>) m)"
proof -
  show "call_view (put_call cid (c\<lparr>call_session_info := info\<rparr>) m) = call_view m"
    using view_Some[OF assms(1)] by (simp add: fun_upd_idem)
  assume "calls_wf m"
  with assms calls_wfD[OF this assms(1)] show "calls_wf (put_call cid (c\<lparr>call_session_info := info\<rparr>) m)"
    by (auto intro!: calls_wf_put simp: call_wf_def state_synced_def)
qed

lemma sdp_to_info_state [simp]: "ci_state (sdp_to_info sess info) = ci_state info"
  by (simp add: sdp_to_info_def Let_def split: option.splits)

lemma ProcessIncomingSdp_effect:
  "ProcessIncomingSdp cid body m = (ok, m') \<Longrightarrow> call_view m' = call_view m \<and> (calls_wf m \<longrightarrow> calls_wf m')"
  using put_info_view[of m cid]
  by (auto simp del: put_call_view simp: ProcessIncomingSdp_def split: prod.splits bool.splits option.splits)

lemma registered_view [simp]:
  "call_view (m\<lparr>sm_registered := b\<rparr>) = call_view m" "calls_wf (m\<lparr>sm_registered := b\<rparr>) = calls_wf m"
  by (simp_all add: call_view_def[abs_def] calls_wf_def)

definition step_ok :: "sip_manager \<Rightarrow> sip_manager \<Rightarrow> bool" where
  "step_ok m m' \<longleftrightarrow> calls_wf m' \<and>
     (\<forall>cid. call_view m' cid = call_view m cid \<or> call_step (call_view m cid) (call_view m' cid))"

lemma step_ok_upd:
  assumes "calls_wf m'" "call_view m' = (call_view m)(cid := x)"
    "x = call_view m cid \<or> call_step (call_view m cid) x"
  shows "step_ok m m'"
  using assms by (auto simp: step_ok_def)

context sip_client
begin

lemma step_simulates:
  assumes "sip_step cb (w, m) (w', m')" "calls_wf m"
  shows "step_ok m m'"
  using assms(1)
proof cases
  case (make_call now uri r)
  with MakeCall_effect[OF make_call assms(2)] assms(2) show ?thesis
    by (cases "sm_initialized m") (auto simp: step_ok_def intro: call_step.dial)
next
  case (answer_call now cid accept ok)
  show ?thesis
  proof (cases "call_view m cid")
    case None
    with AnswerCall_effect[OF answer_call assms(2)] assms(2) show ?thesis by (simp add: step_ok_def)
  next
    case (Some st)
    with AnswerCall_effect[OF answer_call assms(2)] show ?thesis
      by (intro step_ok_upd[of m' m cid "if accept then Some kConnected else None"])
        (auto intro: call_step.answer call_step.remove)
  qed
next
  case (hang_up cid ok)
  from HangUp_effect[OF hang_up assms(2)] assms(2) show ?thesis
    by (auto simp: step_ok_def intro!: call_step.hang_up split: if_splits)
next
  case (cancel_call cid ok)
  show ?thesis
  proof (cases "call_view m cid")
    case None
    with CancelCall_effect[OF cancel_call assms(2)] assms(2) show ?thesis by (simp add: step_ok_def)
  next
    case (Some st)
    with CancelCall_effect[OF cancel_call assms(2)] show ?thesis
      by (intro step_ok_upd[of m' m cid None]) (auto intro: call_step.remove)
  qed
next
  case (message parse now raw)
  from ProcessIncomingMessage_effect[OF message assms(2)] show ?thesis by (simp add: step_ok_def)
next
  case (timers clk ids)
  from ProcessTimers_effect[OF timers assms(2)] show ?thesis
    unfolding step_ok_def by (metis call_step.fail not_None_eq)
next
  case (incoming_sdp cid body ok)
  from ProcessIncomingSdp_effect[OF incoming_sdp(2)] assms(2) show ?thesis by (simp add: step_ok_def)
next
  case (register ok)
  then show ?thesis
    using assms(2) notify[of "[]" kRegistered w "m\<lparr>sm_registered := True\<rparr>" w' m']
    by (auto simp: Register_def step_ok_def split: if_splits)
next
  case (unregister ok)
  then show ?thesis
    using assms(2) notify[of "[]" kUnregistered w "m\<lparr>sm_registered := False\<rparr>" w' m']
    by (auto simp: Unregister_def step_ok_def split: if_splits)
next
  case client
  with assms(2) show ?thesis by (simp add: step_ok_def)
qed

lemma settled_step: "call_step x (Some st) \<Longrightarrow> settled st"
  by (auto simp: call_step_simps settled_def)

lemma step_wf:
  assumes "sip_step cb (w, m) (w', m')" "sip_wf m"
  shows "sip_wf m'"
proof -
  have "step_ok m m'" using step_simulates[OF assms(1)] assms(2) by (simp add: sip_wf_def)
  then show ?thesis
    using assms(2) settled_step unfolding sip_wf_def step_ok_def by metis
qed

lemma reachable_wf: "sip_reachable cb s \<Longrightarrow> sip_wf (snd s)"
proof (induction rule: sip_reachable.induct)
  case (initialized ok config rng r m w)
  from Initialize_no_calls[OF initialized] show ?case
    by (simp add: sip_wf_def calls_wf_def call_view_def SipManager_new_def)
next
  case (step s s')
  then show ?case by (cases s; cases s') (auto dest: step_wf)
qed

end

section \<open>Properties\<close>

text \<open>
  Property C10. Signalling refines the life of a call: for every client that keeps the contract of the
  callback, each operation of the manager (a local request, any incoming message, the timers, the session
  description) moves each call identifier by at most one step of the abstract life: it is dialled, invited,
  answered, hung up, failed or removed, or stays as it is.
\<close>

theorem SipManager_refines_call_life:
  assumes "sip_client cb" "sip_reachable cb (w, m)" "sip_step cb (w, m) (w', m')"
  shows "call_view m' cid = call_view m cid \<or> call_step (call_view m cid) (call_view m' cid)"
proof -
  have "calls_wf m" using sip_client.reachable_wf[OF assms(1,2)] by (simp add: sip_wf_def)
  from sip_client.step_simulates[OF assms(1,3) this] show ?thesis
    by (simp add: step_ok_def)
qed

text \<open>
  Property C22. The invariant of the call table: in every reachable state between operations a call is
  calling, connected, disconnecting or failed (so neither the ringing nor the in-progress state that
  \<open>HangUp\<close> tests for is ever at rest), it is filed under its own identifier, its session information
  shows the same state, and its retransmission counter is zero.
\<close>

theorem SipManager_reachable_invariant:
  assumes "sip_client cb" "sip_reachable cb (w, m)" "sm_calls m cid = Some c"
  shows "call_state c \<in> {kCalling, kConnected, kDisconnecting, kFailed} \<and> call_id c = cid \<and>
    ci_state (call_session_info c) = call_state c \<and> call_retransmit_count c = 0"
  using sip_client.reachable_wf[OF assms(1,2)] calls_wfD[of m cid c] view_Some[OF assms(3)] assms(3)
  by (auto simp: sip_wf_def settled_def call_wf_def state_synced_def)

text \<open>
  The timers never give a call up: in every reachable state, when the two clock readings of
  an expiry test agree and some retransmission is allowed, \<open>ProcessTimers\<close> leaves the state of every call
  as it was, however long its timer has been expired and however often it runs.
\<close>

theorem ProcessTimers_never_fails_calls:
  assumes "sip_client cb" "sip_reachable cb (w, m)" "sc_max_retransmit (sm_config m) \<noteq> 0"
    "\<forall>cid. fst (snd (clk cid)) = fst (clk cid)" "ProcessTimers cb clk ids (w, m) = (w', m')"
  shows "map_option call_state (sm_calls m' cid) = map_option call_state (sm_calls m cid)"
proof -
  have "calls_wf m" using sip_client.reachable_wf[OF assms(1,2)] by (simp add: sip_wf_def)
  from sip_client.ProcessTimers_effect[OF assms(1,5) this] assms(3,4)
  have "call_view m' = call_view m" by blast
  then show ?thesis unfolding call_view_def by metis
qed

lemma unit_result_cases:
  fixes x :: "'a \<times> unit sip_state"
  obtains r m where "x = (r, (), m)"
proof -
  obtain r u m where "x = (r, u, m)" by (rule prod_cases3)
  then show thesis using that[of r m] by simp
qed

lemma unit_state_cases:
  fixes s :: "unit sip_state"
  obtains m where "s = ((), m)"
proof -
  obtain u m where "s = (u, m)" by (rule prod.exhaust)
  then show thesis using that[of m] by simp
qed

lemma Initialize_fields:
  assumes "Initialize True config m = (r, m')"
  shows "r" "sm_initialized m'" "sm_config m' = config"
proof -
  obtain b m1 where r1: "RandomHex 32 (m\<lparr>sm_config := config, sm_osip := True\<rparr>) = (b, m1)" by fastforce
  obtain p m2 where r2: "RandomHex 16 (m1\<lparr>sm_branch_id := ''z9hG4bK'' @ b\<rparr>) = (p, m2)" by fastforce
  have "sm_config m1 = config" "sm_config m2 = sm_config m1"
    using RandomHex_same[OF r1] RandomHex_same[OF r2] same_but_counters_fields(1) by fastforce+
  then show "r" "sm_initialized m'" "sm_config m' = config"
    using assms r1 r2 by (auto simp: Initialize_def draw_def)
qed

text \<open>A concrete run without a client: the manager is initialised and a call is made.\<close>

lemma sample_call:
  obtains m r m' c where "sip_reachable no_callback ((), m)"
    "MakeCall no_callback 0 ''sip:bob@b'' ((), m) = (r, (), m')" "sm_calls m' r = Some c"
    "sip_reachable no_callback ((), m')" "sm_config m' = default_sip_config" "call_state c = kCalling"
    "sm_initialized m"
proof -
  obtain b m where i: "Initialize True default_sip_config (SipManager_new (\<lambda>_. 0)) = (b, m)" by fastforce
  note f = Initialize_fields[OF i]
  have reach: "sip_reachable no_callback ((), m)" by (rule sip_reachable.initialized[OF i])
  obtain r m' where c: "MakeCall no_callback 0 ''sip:bob@b'' ((), m) = (r, (), m')"
    by (rule unit_result_cases)
  have wf: "calls_wf m" using nocb.reachable_wf[OF reach] by (simp add: sip_wf_def)
  from nocb.MakeCall_effect[OF c wf] f(2) have "call_view m' = (call_view m)(r \<mapsto> kCalling)" by simp
  then have "call_view m' r = Some kCalling" by simp
  then obtain d where d: "sm_calls m' r = Some d" "call_state d = kCalling" by (auto simp: call_view_def)
  obtain g m1 where g: "GenerateCallId m = (g, m1)" by fastforce
  obtain msg m2 where b2: "BuildInviteRequest g ''sip:bob@b'' m1 = (msg, m2)" by fastforce
  have "sm_config m' = sm_config m2"
    using c f(2) by (auto simp: MakeCall_def g b2 NotifyStateChange_def no_callback_def)
  also have "\<dots> = default_sip_config"
    using GenerateCallId_same[OF g] BuildInviteRequest_same[OF b2] same_but_counters_fields(1) f(3) by metis
  finally have cfg: "sm_config m' = default_sip_config" .
  have "sip_reachable no_callback ((), m')"
    by (rule sip_reachable.step[OF reach sip_step.make_call[OF c]])
  from that[OF reach c d(1) this cfg d(2) f(2)] show thesis .
qed

theorem SipManager_refines_call_life_witness:
  "\<exists>m r m'. sip_reachable no_callback ((), m) \<and>
     MakeCall no_callback 0 ''sip:bob@b'' ((), m) = (r, (), m') \<and>
     (call_view m' r = call_view m r \<or> call_step (call_view m r) (call_view m' r))"
proof -
  obtain m r m' c where s: "sip_reachable no_callback ((), m)"
    "MakeCall no_callback 0 ''sip:bob@b'' ((), m) = (r, (), m')" by (rule sample_call)
  from SipManager_refines_call_life[OF nocb.sip_client_axioms s(1) sip_step.make_call[OF s(2)], of r] s
  show ?thesis by blast
qed

theorem SipManager_reachable_invariant_witness:
  "\<exists>m r c. sip_reachable no_callback ((), m) \<and> sm_calls m r = Some c \<and> call_state c = kCalling \<and>
     call_id c = r \<and> ci_state (call_session_info c) = kCalling \<and> call_retransmit_count c = 0"
proof -
  obtain m r m' c where s: "sm_calls m' r = Some c" "sip_reachable no_callback ((), m')"
    "call_state c = kCalling" by (rule sample_call)
  from SipManager_reachable_invariant[OF nocb.sip_client_axioms s(2,1)] s show ?thesis by auto
qed

theorem ProcessTimers_never_fails_calls_witness:
  "\<exists>m r. sip_reachable no_callback ((), m) \<and>
     map_option call_state (sm_calls (snd (ProcessTimers no_callback (\<lambda>_. (10 ^ 9, 10 ^ 9, 10 ^ 9)) [r] ((), m))) r)
       = Some kCalling"
proof -
  obtain m r m' c where s: "sm_calls m' r = Some c" "sip_reachable no_callback ((), m')"
    "sm_config m' = default_sip_config" "call_state c = kCalling" by (rule sample_call)
  obtain m'' where p: "ProcessTimers no_callback (\<lambda>_. (10 ^ 9, 10 ^ 9, 10 ^ 9)) [r] ((), m') = ((), m'')"
    by (rule unit_state_cases)
  have "sc_max_retransmit (sm_config m') \<noteq> 0" by (simp add: s(3) default_sip_config_def)
  from ProcessTimers_never_fails_calls[OF nocb.sip_client_axioms s(2) this _ p, of r] s p show ?thesis
    by (intro exI[of _ m'] exI[of _ r]) simp
qed

text \<open>
  The complete effect of a response, for every client: it concerns only the call it names,
  and that call only if it is in the table. A 2xx answer connects a calling call and removes a
  disconnecting one; every answer from 300 on marks the call failed and leaves it in the table; anything
  else, the provisional 180 and 183 included, changes nothing.
\<close>

theorem HandleResponse_call_states:
  assumes "sip_client cb" "sip_reachable cb (w, m)" "HandleResponse cb msg (w, m) = (w', m')"
  shows "map_option call_state (sm_calls m' cid) =
    (if Some cid = om_call_id msg \<or> cid = [] \<and> om_call_id msg = None
     then response_view (om_status_code msg) (map_option call_state (sm_calls m cid))
     else map_option call_state (sm_calls m cid))"
proof -
  have "calls_wf m" using sip_client.reachable_wf[OF assms(1,2)] by (simp add: sip_wf_def)
  from sip_client.HandleResponse_effect[OF assms(1,3) this]
  have v: "call_view m' = (call_view m)(value_or [] (om_call_id msg) :=
      response_view (om_status_code msg) (call_view m (value_or [] (om_call_id msg))))" by simp
  have "Some cid = om_call_id msg \<or> cid = [] \<and> om_call_id msg = None \<longleftrightarrow> cid = value_or [] (om_call_id msg)"
    by (auto simp: value_or_def split: option.splits)
  with fun_cong[OF v, of cid] show ?thesis by (simp add: call_view_def)
qed

definition response_message :: "int \<Rightarrow> string \<Rightarrow> osip_message" where
  "response_message status cid =
     \<lparr>om_status_code = status, om_method = None, om_call_id = Some cid, om_via_branches = [],
      om_from_tag = None, om_cseq = None, om_from_url = None\<rparr>"

theorem HandleResponse_call_states_witness:
  "\<exists>m r. sip_reachable no_callback ((), m) \<and> map_option call_state (sm_calls m r) = Some kCalling \<and>
     map_option call_state (sm_calls (snd (HandleResponse no_callback (response_message 200 r) ((), m))) r)
       = Some kConnected"
proof -
  obtain m r m' c where s: "sm_calls m' r = Some c" "sip_reachable no_callback ((), m')"
    "call_state c = kCalling" by (rule sample_call)
  obtain m'' where h: "HandleResponse no_callback (response_message 200 r) ((), m') = ((), m'')"
    by (rule unit_state_cases)
  from HandleResponse_call_states[OF nocb.sip_client_axioms s(2) h, of r] s h show ?thesis
    by (intro exI[of _ m'] exI[of _ r]) (simp add: response_message_def response_view_def)
qed

text \<open>
  Property C21. The outgoing call from end to end, for every client: making a call puts it in the table as
  calling; the 200 answer connects it; hanging up is then possible and leaves it disconnecting; and the
  200 answer to the BYE takes it out of the table.
\<close>

theorem outgoing_call_lifecycle:
  assumes "sip_client cb" "sip_reachable cb (w, m)" "sm_initialized m"
    "MakeCall cb now uri (w, m) = (r, s1)" "parse raw = Some (response_message 200 r)"
    "s2 = ProcessIncomingMessage parse cb now2 raw s1" "HangUp cb r s2 = (ok, s3)"
    "s4 = ProcessIncomingMessage parse cb now2 raw s3"
  shows "GetCallState r (snd s1) = kCalling \<and> GetCallState r (snd s2) = kConnected \<and> ok \<and>
    GetCallState r (snd s3) = kDisconnecting \<and> GetCall r (snd s4) = None"
proof -
  obtain w1 m1 w2 m2 w3 m3 w4 m4 where p: "s1 = (w1, m1)" "s2 = (w2, m2)" "s3 = (w3, m3)" "s4 = (w4, m4)"
    by (metis surj_pair)
  have h: "HandleResponse cb (response_message 200 r) (w1, m1) = (w2, m2)"
    "HandleResponse cb (response_message 200 r) (w3, m3) = (w4, m4)"
    using assms(5,6,8) p by (simp_all add: ProcessIncomingMessage_def response_message_def)
  have i: "value_or [] (om_call_id (response_message 200 r)) = r" "om_status_code (response_message 200 r) = 200"
    by (simp_all add: response_message_def value_or_def)
  have "calls_wf m" using sip_client.reachable_wf[OF assms(1,2)] by (simp add: sip_wf_def)
  with sip_client.MakeCall_effect[OF assms(1), of now uri w m r w1 m1] assms(3,4) p
  have 1: "call_view m1 r = Some kCalling" "calls_wf m1" by simp_all
  with sip_client.HandleResponse_effect[OF assms(1) h(1)] i
  have 2: "call_view m2 r = Some kConnected" "calls_wf m2" by (simp_all add: response_view_def)
  with sip_client.HangUp_effect[OF assms(1), of r w2 m2 ok w3 m3] assms(7) p
  have 3: "ok" "call_view m3 r = Some kDisconnecting" "calls_wf m3" by simp_all
  with sip_client.HandleResponse_effect[OF assms(1) h(2)] i
  have 4: "call_view m4 r = None" by (simp add: response_view_def)
  show ?thesis
    using 1 2 3 4 p by (auto simp: call_view_def GetCallState_def GetCall_def)
qed

theorem outgoing_call_lifecycle_witness:
  "\<exists>m r s1. sip_reachable no_callback ((), m) \<and> MakeCall no_callback 0 ''sip:bob@b'' ((), m) = (r, s1) \<and>
    (let parse = (\<lambda>_. Some (response_message 200 r));
         s2 = ProcessIncomingMessage parse no_callback (1, 1) [] s1;
         s3 = snd (HangUp no_callback r s2);
         s4 = ProcessIncomingMessage parse no_callback (1, 1) [] s3
     in GetCallState r (snd s2) = kConnected \<and> GetCallState r (snd s3) = kDisconnecting \<and>
        GetCall r (snd s4) = None)"
proof -
  obtain m r m' where s: "sip_reachable no_callback ((), m)" "sm_initialized m"
    "MakeCall no_callback 0 ''sip:bob@b'' ((), m) = (r, (), m')" by (rule sample_call)
  let ?parse = "\<lambda>_ :: string. Some (response_message 200 r)"
  obtain ok s3 where h: "HangUp no_callback r (ProcessIncomingMessage ?parse no_callback (1, 1) [] ((), m')) = (ok, s3)"
    by (rule prod.exhaust)
  from outgoing_call_lifecycle[OF nocb.sip_client_axioms s, of ?parse "[]" _ "(1, 1)" ok s3, OF refl refl h refl] h s
  show ?thesis
    by (intro exI[of _ m] exI[of _ r] exI[of _ "((), m')"]) (simp add: Let_def)
qed

definition request_message :: "string \<Rightarrow> string \<Rightarrow> osip_message" where
  "request_message meth cid = (response_message 0 cid)\<lparr>om_method := Some meth\<rparr>"

lemma request_message_simps [simp]:
  "value_or [] (om_call_id (request_message meth cid)) = cid"
  "om_status_code (request_message meth cid) = 0" "om_method (request_message meth cid) = Some meth"
  by (simp_all add: request_message_def response_message_def value_or_def)

text \<open>
  The incoming call, for every client: an INVITE with an identifier that is not in the table is
  answered at once, the call is connected when the handler returns; a second INVITE with that identifier
  changes no call; a BYE or a CANCEL for it takes it out of the table, and one for an unknown identifier
  changes no call.
\<close>

theorem incoming_call_lifecycle:
  assumes "sip_client cb" "sip_reachable cb (w, m)" "cid \<noteq> []"
    "ProcessIncomingMessage (\<lambda>_. Some (request_message meth cid)) cb now raw (w, m) = (w', m')"
  shows "(\<lambda>i. map_option call_state (sm_calls m' i)) =
    (let before = (\<lambda>i. map_option call_state (sm_calls m i))
     in if meth = ''INVITE'' then (if before cid = None then before(cid \<mapsto> kConnected) else before)
        else if meth \<in> {''BYE'', ''CANCEL''} then before(cid := None) else before)"
proof -
  have wf: "calls_wf m" using sip_client.reachable_wf[OF assms(1,2)] by (simp add: sip_wf_def)
  have v: "call_view m' = (if meth = ''INVITE'' then (if call_view m cid = None then (call_view m)(cid \<mapsto> kConnected) else call_view m)
        else if meth \<in> {''BYE'', ''CANCEL''} then (call_view m)(cid := None) else call_view m)"
  proof -
    consider "meth = ''INVITE''" | "meth = ''BYE''" | "meth = ''CANCEL''" | "meth \<notin> {''INVITE'', ''BYE'', ''CANCEL''}"
      by blast
    then show ?thesis
    proof cases
      case 1
      then have "HandleInvite cb now (request_message meth cid) (w, m) = (w', m')"
        using assms(4) by (simp add: ProcessIncomingMessage_def)
      from sip_client.HandleInvite_effect[OF assms(1) this wf] 1 assms(3) show ?thesis by simp
    next
      case 2
      then have "HandleBye cb (request_message meth cid) (w, m) = (w', m')"
        using assms(4) by (simp add: ProcessIncomingMessage_def)
      from sip_client.HandleBye_effect[OF assms(1) this wf] 2 show ?thesis by simp
    next
      case 3
      then have "HandleCancel cb (request_message meth cid) (w, m) = (w', m')"
        using assms(4) by (simp add: ProcessIncomingMessage_def)
      from sip_client.HandleCancel_effect[OF assms(1) this wf] 3 show ?thesis by simp
    next
      case 4
      then show ?thesis using assms(4) by (simp add: ProcessIncomingMessage_def HandleAck_def split: if_splits)
    qed
  qed
  have c: "(\<lambda>i. map_option call_state (sm_calls k i)) = call_view k" for k by (simp add: call_view_def[abs_def])
  show ?thesis unfolding c Let_def by (rule v)
qed

theorem incoming_call_lifecycle_witness:
  "\<exists>m. sip_reachable no_callback ((), m) \<and>
    map_option call_state (sm_calls (snd (ProcessIncomingMessage (\<lambda>_. Some (request_message ''INVITE'' ''x''))
      no_callback (0, 0) [] ((), m))) ''x'') = Some kConnected"
proof -
  obtain b m where i: "Initialize True default_sip_config (SipManager_new (\<lambda>_. 0)) = (b, m)" by fastforce
  have reach: "sip_reachable no_callback ((), m)" by (rule sip_reachable.initialized[OF i])
  obtain m' where p: "ProcessIncomingMessage (\<lambda>_. Some (request_message ''INVITE'' ''x'')) no_callback (0, 0) [] ((), m)
    = ((), m')" by (rule unit_state_cases)
  have "sm_calls m = (\<lambda>_. None)" using Initialize_no_calls[OF i] by (simp add: SipManager_new_def)
  with fun_cong[OF incoming_call_lifecycle[OF nocb.sip_client_axioms reach _ p], of "''x''"] reach p show ?thesis
    by (intro exI[of _ m]) simp
qed

text \<open>
  Property C38. Media negotiation: when the remote party's offer, as the builder writes it, reaches
  \<open>ProcessIncomingSdp\<close> for a call in the table, that call's session information takes the remote address and
  the two media ports from it and keeps everything else; and once the local ports are known, the answer that
  \<open>BuildSdpAnswer\<close> writes for the call parses to the local address and the ports two above them.
\<close>

theorem sdp_negotiation:
  assumes "sm_calls m cid = Some c" "word_text ip" "- (2 ^ 31) \<le> apt" "apt < 2 ^ 31" "- (2 ^ 31) \<le> vpt" "vpt < 2 ^ 31"
    "ProcessIncomingSdp cid (BuildOffer ip ap vp apt vpt) m = (ok, m')"
    "ci_audio_local_port (call_session_info c) = Some a" "ci_video_local_port (call_session_info c) = Some v"
    "word_text (sc_local_addr (sm_config m))"
  shows "ok \<and> sm_calls m' = (sm_calls m)(cid \<mapsto> c\<lparr>call_session_info := (call_session_info c)
      \<lparr>ci_remote_rtp_addr := ip, ci_audio_remote_port := Some ap, ci_video_remote_port := Some vp\<rparr>\<rparr>) \<and>
    (\<exists>answer s. BuildSdpAnswer cid m' = Some answer \<and> SdpBuilder_Parse answer SdpSession_new = (True, s) \<and>
      ss_conn_addr s = sc_local_addr (sm_config m) \<and> map_option sm_port (FindAudio s) = Some (a + 2) \<and>
      map_option sm_port (FindVideo s) = Some (v + 2))"
proof -
  obtain s where s: "SdpBuilder_Parse (BuildOffer ip ap vp apt vpt) SdpSession_new = (True, s)"
    "ss_conn_addr s = ip" "FindAudio s = Some (answer_media ''audio'' ap apt '' AAC/44100/1'')"
    "FindVideo s = Some (answer_media ''video'' vp vpt '' H264/90000'')"
    using build_parse_core[OF assms(2-6), of "BuildOffer ip ap vp apt vpt" ap vp] by auto
  let ?c = "c\<lparr>call_session_info := (call_session_info c)
      \<lparr>ci_remote_rtp_addr := ip, ci_audio_remote_port := Some ap, ci_video_remote_port := Some vp\<rparr>\<rparr>"
  have 1: "ok" "m' = put_call cid ?c m"
    using assms(1,7) s by (simp_all add: ProcessIncomingSdp_def sdp_to_info_def answer_media_def Let_def)
  have 2: "BuildSdpAnswer cid m' = Some (BuildAnswer (sc_local_addr (sm_config m)) (a + 2) (v + 2) 96 97)"
    using assms(8,9) by (simp add: BuildSdpAnswer_def 1)
  obtain t where "SdpBuilder_Parse (BuildAnswer (sc_local_addr (sm_config m)) (a + 2) (v + 2) 96 97) SdpSession_new = (True, t)"
    "ss_conn_addr t = sc_local_addr (sm_config m)" "FindAudio t = Some (answer_media ''audio'' (a + 2) 96 '' AAC/44100/1'')"
    "FindVideo t = Some (answer_media ''video'' (v + 2) 97 '' H264/90000'')"
    using build_parse_core[OF assms(10), of 96 97 _ "a + 2" "v + 2"] by auto
  with 1 2 show ?thesis by (simp add: answer_media_def)
qed

theorem sdp_negotiation_witness:
  "\<exists>m'. ProcessIncomingSdp ''x'' (BuildOffer ''10.0.0.9'' 7000 7002 96 97) (put_call ''x''
      ((SipCall_new ''x'' [] [])\<lparr>call_session_info := init_call_session_info
        \<lparr>ci_audio_local_port := Some 5004, ci_video_local_port := Some 5010\<rparr>\<rparr>) sample_manager) = (True, m') \<and>
    (\<exists>answer s. BuildSdpAnswer ''x'' m' = Some answer \<and> SdpBuilder_Parse answer SdpSession_new = (True, s) \<and>
      map_option sm_port (FindAudio s) = Some 5006)"
proof -
  let ?c = "(SipCall_new ''x'' [] [])\<lparr>call_session_info := init_call_session_info
        \<lparr>ci_audio_local_port := Some 5004, ci_video_local_port := Some 5010\<rparr>\<rparr>"
  obtain ok m' where p: "ProcessIncomingSdp ''x'' (BuildOffer ''10.0.0.9'' 7000 7002 96 97) (put_call ''x'' ?c sample_manager)
    = (ok, m')" by (rule prod.exhaust)
  have "sm_calls (put_call ''x'' ?c sample_manager) ''x'' = Some ?c" by simp
  from sdp_negotiation[OF this _ _ _ _ _ p, of 5004 5010] p show ?thesis
    by (auto simp: word_text_def isspace_def)
qed

end
