(* ===== verification/Io_Multiplexer.thy ===== *)
theory Io_Multiplexer
  imports Prelude
begin

text \<open>
  The event loop (\<open>net/io_multiplexer.h\<close>, \<open>net/io_multiplexer.cpp\<close>): an epoll set with a callback
  per descriptor, and a list of timers. The kernel and the clock are not modelled: what
  \<open>epoll_ctl\<close> and \<open>epoll_wait\<close> answer and what the clock reads are arguments of the operations.

  A callback is a label of type \<open>'c\<close>; the client says what a label does as a function on the pair of
  its own state and the multiplexer, because a callback may call back into it. An empty
  \<open>std::function\<close> is \<open>None\<close>. The two mutexes are flags of the state: an operation that locks a mutex
  the calling thread already holds never returns, which is the fault \<open>Deadlock\<close>.
\<close>

section \<open>State\<close>

datatype io_fault = Deadlock | BadFunctionCall | UndefinedBehaviour

record 'c fd_info =
  fi_callback :: "'c option"
  fi_events :: u32

record 'c timer_info =
  ti_id :: u64
  ti_interval_ms :: u64
  ti_recurring :: bool
  ti_callback :: "'c option"
  ti_next_fire_ms :: u64

record 'c io_multiplexer =
  im_epoll_fd :: int
  im_max_events :: int
  im_running :: bool
  im_fd_map :: "int \<Rightarrow> 'c fd_info option"
  im_fd_mutex :: bool
  im_timers :: "'c timer_info list"
  im_timer_mutex :: bool
  im_next_timer_id :: u64

text \<open>
  The constructor: \<open>epfd\<close> is what \<open>epoll_create1\<close> answers. A failure is fatal, the process ends.
\<close>

definition IoMultiplexer_new :: "int \<Rightarrow> int \<Rightarrow> 'c io_multiplexer option" where
  "IoMultiplexer_new epfd max_events =
     (if epfd < 0 then None
      else Some \<lparr>im_epoll_fd = epfd, im_max_events = max_events, im_running = False,
                 im_fd_map = Map.empty, im_fd_mutex = False, im_timers = [],
                 im_timer_mutex = False, im_next_timer_id = 1\<rparr>)"

section \<open>Descriptors\<close>

text \<open>
  \<open>ret\<close> is what \<open>epoll_ctl\<close> answers. Each operation runs under \<open>fd_mutex_\<close>.
\<close>

definition AddFd ::
  "int \<Rightarrow> int \<Rightarrow> u32 \<Rightarrow> 'c option \<Rightarrow> 'c io_multiplexer \<Rightarrow> io_fault + bool \<times> 'c io_multiplexer" where
  "AddFd ret fd events callback m =
     (if im_fd_mutex m then Inl Deadlock
      else if ret < 0 then Inr (False, m)
      else Inr (True, m\<lparr>im_fd_map :=
                 (im_fd_map m)(fd \<mapsto> \<lparr>fi_callback = callback, fi_events = events\<rparr>)\<rparr>))"

definition ModFd ::
  "int \<Rightarrow> int \<Rightarrow> u32 \<Rightarrow> 'c io_multiplexer \<Rightarrow> io_fault + bool \<times> 'c io_multiplexer" where
  "ModFd ret fd events m =
     (if im_fd_mutex m then Inl Deadlock
      else if ret < 0 then Inr (False, m)
      else (case im_fd_map m fd of
              None \<Rightarrow> Inr (True, m)
            | Some info \<Rightarrow>
                Inr (True, m\<lparr>im_fd_map := (im_fd_map m)(fd \<mapsto> info\<lparr>fi_events := events\<rparr>)\<rparr>)))"

definition DelFd ::
  "int \<Rightarrow> int \<Rightarrow> 'c io_multiplexer \<Rightarrow> io_fault + bool \<times> 'c io_multiplexer" where
  "DelFd ret fd m =
     (if im_fd_mutex m then Inl Deadlock
      else if ret < 0 then Inr (False, m)
      else Inr (True, m\<lparr>im_fd_map := (im_fd_map m)(fd := None)\<rparr>))"

section \<open>Timers\<close>

text \<open>The steady clock in nanoseconds, read in milliseconds.\<close>

definition GetNowMs :: "nat \<Rightarrow> u64" where
  "GetNowMs now_ns = of_nat (now_ns div 1000000)"

text \<open>
  \<open>GetNextTimeout\<close>. The subtraction of the unsigned clock from the signed deadline is done in
  \<open>uint64_t\<close> and converted back to \<open>int64_t\<close>; the conversion to \<open>int\<close> keeps the low 32 bits.
\<close>

definition timer_remaining :: "u64 \<Rightarrow> 'c timer_info \<Rightarrow> int" where
  "timer_remaining now t = sint (ti_next_fire_ms t - now)"

definition to_int32 :: "int \<Rightarrow> int" where
  "to_int32 x = sint (word_of_int x :: 32 word)"

fun next_timeout_loop :: "u64 \<Rightarrow> 'c timer_info list \<Rightarrow> int \<Rightarrow> int" where
  "next_timeout_loop now [] timeout = timeout"
| "next_timeout_loop now (t # ts) timeout =
     (let remaining = timer_remaining now t in
      if remaining \<le> 0 then 0
      else next_timeout_loop now ts
             (if timeout < 0 \<or> remaining < timeout then to_int32 remaining else timeout))"

definition GetNextTimeout :: "u64 \<Rightarrow> 'c io_multiplexer \<Rightarrow> int" where
  "GetNextTimeout now m = next_timeout_loop now (im_timers m) (-1)"

definition AddTimer ::
  "u64 \<Rightarrow> u64 \<Rightarrow> bool \<Rightarrow> 'c option \<Rightarrow> 'c io_multiplexer \<Rightarrow> io_fault + u64 \<times> 'c io_multiplexer" where
  "AddTimer now interval_ms recurring callback m =
     (if im_timer_mutex m then Inl Deadlock
      else Inr (im_next_timer_id m,
                m\<lparr>im_next_timer_id := im_next_timer_id m + 1,
                  im_timers := im_timers m @
                    [\<lparr>ti_id = im_next_timer_id m, ti_interval_ms = interval_ms,
                      ti_recurring = recurring, ti_callback = callback,
                      ti_next_fire_ms = now + interval_ms\<rparr>]\<rparr>))"

definition RemoveTimer :: "u64 \<Rightarrow> 'c io_multiplexer \<Rightarrow> io_fault + 'c io_multiplexer" where
  "RemoveTimer timer_id m =
     (if im_timer_mutex m then Inl Deadlock
      else Inr (m\<lparr>im_timers := filter (\<lambda>t. ti_id t \<noteq> timer_id) (im_timers m)\<rparr>))"

text \<open>\<open>FireTimers\<close>: the callbacks of the due timers run under \<open>timer_mutex_\<close>, in list order.\<close>

type_synonym ('w, 'c) io_state = "'w \<times> 'c io_multiplexer"
type_synonym ('w, 'c) timer_callback =
  "'c \<Rightarrow> ('w, 'c) io_state \<Rightarrow> io_fault + ('w, 'c) io_state"
type_synonym ('w, 'c) event_callback =
  "'c \<Rightarrow> int \<Rightarrow> u32 \<Rightarrow> ('w, 'c) io_state \<Rightarrow> io_fault + ('w, 'c) io_state"

definition timer_due :: "u64 \<Rightarrow> 'c timer_info \<Rightarrow> bool" where
  "timer_due now t \<longleftrightarrow> ti_next_fire_ms t \<le> now"

definition reschedule :: "u64 \<Rightarrow> 'c timer_info \<Rightarrow> 'c timer_info" where
  "reschedule now t =
     t\<lparr>ti_next_fire_ms := (if ti_recurring t then now + ti_interval_ms t else -1)\<rparr>"

fun fire_loop ::
  "('w, 'c) timer_callback \<Rightarrow> u64 \<Rightarrow> 'c timer_info list \<Rightarrow> ('w, 'c) io_state
   \<Rightarrow> io_fault + 'c timer_info list \<times> ('w, 'c) io_state" where
  "fire_loop tm now [] s = Inr ([], s)"
| "fire_loop tm now (t # ts) s =
     (if timer_due now t
      then (case ti_callback t of
              None \<Rightarrow> Inl BadFunctionCall
            | Some c \<Rightarrow>
                (case tm c s of
                   Inl f \<Rightarrow> Inl f
                 | Inr s' \<Rightarrow>
                     (case fire_loop tm now ts s' of
                        Inl f \<Rightarrow> Inl f
                      | Inr (ts', s'') \<Rightarrow> Inr (reschedule now t # ts', s''))))
      else (case fire_loop tm now ts s of
              Inl f \<Rightarrow> Inl f
            | Inr (ts', s'') \<Rightarrow> Inr (t # ts', s'')))"

definition timer_spent :: "'c timer_info \<Rightarrow> bool" where
  "timer_spent t \<longleftrightarrow> \<not> ti_recurring t \<and> ti_next_fire_ms t = -1"

definition FireTimers ::
  "('w, 'c) timer_callback \<Rightarrow> u64 \<Rightarrow> ('w, 'c) io_state \<Rightarrow> io_fault + ('w, 'c) io_state" where
  "FireTimers tm now s =
     (case s of (w, m) \<Rightarrow>
        if im_timer_mutex m then Inl Deadlock
        else (case fire_loop tm now (im_timers m) (w, m\<lparr>im_timer_mutex := True\<rparr>) of
                Inl f \<Rightarrow> Inl f
              | Inr (ts, w', m') \<Rightarrow>
                  Inr (w', m'\<lparr>im_timers := filter (\<lambda>t. \<not> timer_spent t) ts,
                              im_timer_mutex := False\<rparr>)))"

section \<open>The loop\<close>

text \<open>One reported event: the lookup and the callback run under \<open>fd_mutex_\<close>.\<close>

definition deliver ::
  "('w, 'c) event_callback \<Rightarrow> int \<Rightarrow> u32 \<Rightarrow> ('w, 'c) io_state \<Rightarrow> io_fault + ('w, 'c) io_state" where
  "deliver ev fd revents s =
     (case s of (w, m) \<Rightarrow>
        if im_fd_mutex m then Inl Deadlock
        else (case Option.bind (im_fd_map m fd) fi_callback of
                None \<Rightarrow> Inr (w, m)
              | Some c \<Rightarrow>
                  (case ev c fd revents (w, m\<lparr>im_fd_mutex := True\<rparr>) of
                     Inl f \<Rightarrow> Inl f
                   | Inr (w', m') \<Rightarrow> Inr (w', m'\<lparr>im_fd_mutex := False\<rparr>))))"

fun deliver_all ::
  "('w, 'c) event_callback \<Rightarrow> (int \<times> u32) list \<Rightarrow> ('w, 'c) io_state
   \<Rightarrow> io_fault + ('w, 'c) io_state" where
  "deliver_all ev [] s = Inr s"
| "deliver_all ev ((fd, revents) # events) s =
     (case deliver ev fd revents s of
        Inl f \<Rightarrow> Inl f
      | Inr s' \<Rightarrow> deliver_all ev events s')"

definition IoMultiplexer_Stop :: "'c io_multiplexer \<Rightarrow> 'c io_multiplexer" where
  "IoMultiplexer_Stop m = m\<lparr>im_running := False\<rparr>"

text \<open>
  What one turn of the loop meets: whether another thread has called \<open>Stop\<close> before the test of
  \<open>running_\<close>, the clock at \<open>GetNextTimeout\<close>, the answer of \<open>epoll_wait\<close> (a failure, with whether
  \<open>errno\<close> is \<open>EINTR\<close>, or the ready events) and the clock at \<open>FireTimers\<close>.
\<close>

datatype wait_outcome = WaitFailed bool | WaitEvents "(int \<times> u32) list"

record loop_turn =
  lt_stop :: bool
  lt_now :: u64
  lt_wait :: wait_outcome
  lt_fire_now :: u64

text \<open>A turn that reaches \<open>epoll_wait\<close>: whether the loop goes on, and the state.\<close>

definition turn_body ::
  "('w, 'c) event_callback \<Rightarrow> ('w, 'c) timer_callback \<Rightarrow> loop_turn \<Rightarrow> ('w, 'c) io_state
   \<Rightarrow> io_fault + bool \<times> ('w, 'c) io_state" where
  "turn_body ev tm p s =
     (case lt_wait p of
        WaitFailed eintr \<Rightarrow> Inr (eintr, s)
      | WaitEvents events \<Rightarrow>
          (case FireTimers tm (lt_fire_now p) s of
             Inl f \<Rightarrow> Inl f
           | Inr s' \<Rightarrow>
               (case deliver_all ev events s' of
                  Inl f \<Rightarrow> Inl f
                | Inr s'' \<Rightarrow> Inr (True, s''))))"

text \<open>
  The loop over given turns: the timeouts passed to \<open>epoll_wait\<close>, whether the loop has returned, and
  the state. It has not returned when the turns run out while \<open>running_\<close> holds.
\<close>

definition actual_timeout :: "int \<Rightarrow> u64 \<Rightarrow> 'c io_multiplexer \<Rightarrow> int" where
  "actual_timeout timeout_ms now m = (if timeout_ms \<ge> 0 then timeout_ms else GetNextTimeout now m)"

fun run_loop ::
  "('w, 'c) event_callback \<Rightarrow> ('w, 'c) timer_callback \<Rightarrow> int \<Rightarrow> loop_turn list \<Rightarrow> ('w, 'c) io_state
   \<Rightarrow> io_fault + int list \<times> bool \<times> ('w, 'c) io_state" where
  "run_loop ev tm timeout_ms [] (w, m) = Inr ([], \<not> im_running m, (w, m))"
| "run_loop ev tm timeout_ms (p # ps) (w, m) =
     (let m1 = (if lt_stop p then IoMultiplexer_Stop m else m) in
      if \<not> im_running m1 then Inr ([], True, (w, m1))
      else (case turn_body ev tm p (w, m1) of
              Inl f \<Rightarrow> Inl f
            | Inr (go_on, s') \<Rightarrow>
                (if \<not> go_on then Inr ([actual_timeout timeout_ms (lt_now p) m1], True, s')
                 else (case run_loop ev tm timeout_ms ps s' of
                         Inl f \<Rightarrow> Inl f
                       | Inr (waits, r) \<Rightarrow>
                           Inr (actual_timeout timeout_ms (lt_now p) m1 # waits, r)))))"

definition IoMultiplexer_Run ::
  "('w, 'c) event_callback \<Rightarrow> ('w, 'c) timer_callback \<Rightarrow> int \<Rightarrow> loop_turn list \<Rightarrow> ('w, 'c) io_state
   \<Rightarrow> io_fault + int list \<times> bool \<times> ('w, 'c) io_state" where
  "IoMultiplexer_Run ev tm timeout_ms ps s =
     (case s of (w, m) \<Rightarrow> run_loop ev tm timeout_ms ps (w, m\<lparr>im_running := True\<rparr>))"

section \<open>The timeout of a turn\<close>

lemma to_int32_small: "0 \<le> x \<Longrightarrow> x < 2 ^ 31 \<Longrightarrow> to_int32 x = x"
  unfolding to_int32_def by (simp add: sint_word_ariths sint_uint signed_take_bit_int_eq_self word_of_int_inverse
      signed_of_int signed_take_bit_int_eq_self_iff)

text \<open>The loop from a timeout that is a minimum already.\<close>

lemma next_timeout_loop_running:
  "\<forall>t \<in> set ts. 0 < timer_remaining now t \<and> timer_remaining now t < 2 ^ 31 \<Longrightarrow> 0 \<le> d
   \<Longrightarrow> next_timeout_loop now ts d = Min (insert d (timer_remaining now ` set ts))"
proof (induction ts arbitrary: d)
  case Nil
  then show ?case by simp
next
  case (Cons t ts)
  let ?r = "timer_remaining now t"
  from Cons.prems have r: "0 < ?r" "?r < 2 ^ 31" by auto
  define d' where "d' = (if ?r < d then to_int32 ?r else d)"
  have d': "d' = min d ?r" using r by (simp add: d'_def to_int32_small)
  have "next_timeout_loop now (t # ts) d = next_timeout_loop now ts d'"
    using r Cons.prems(2) by (simp add: d'_def Let_def)
  also have "\<dots> = Min (insert d' (timer_remaining now ` set ts))"
    using Cons.prems r d' by (intro Cons.IH) auto
  also have "\<dots> = Min (insert d (timer_remaining now ` set (t # ts)))"
  proof (cases "ts = []")
    case False
    then show ?thesis
      by (simp add: d' Min_insert insert_commute min.assoc min.left_commute)
  qed (simp add: d')
  finally show ?case .
qed

lemma next_timeout_loop_due:
  "\<exists>t \<in> set ts. timer_remaining now t \<le> 0 \<Longrightarrow> next_timeout_loop now ts d = 0"
  by (induction ts arbitrary: d) (auto simp: Let_def)

text \<open>
  The timeout that the loop computes from the timers, when every deadline is less than
  \<open>2 ^ 31\<close> milliseconds away: without timers it is \<open>-1\<close>, which makes \<open>epoll_wait\<close> wait for events
  only; with a timer that is due it is 0; otherwise it is the time to the earliest deadline, so the
  loop neither misses a deadline nor spins. The bound matters: a single deadline exactly
  \<open>2 ^ 31\<close> milliseconds away is truncated to a negative timeout, with which \<open>epoll_wait\<close> blocks for
  ever.
\<close>

theorem GetNextTimeout_earliest:
  assumes "\<forall>t \<in> set (im_timers m). timer_remaining now t < 2 ^ 31"
  shows "GetNextTimeout now m =
           (if im_timers m = [] then -1
            else if \<exists>t \<in> set (im_timers m). timer_remaining now t \<le> 0 then 0
            else Min (timer_remaining now ` set (im_timers m)))
         \<and> (\<forall>t. timer_remaining now t = 2 ^ 31
               \<longrightarrow> GetNextTimeout now (m\<lparr>im_timers := [t]\<rparr>) = - (2 ^ 31))"
proof (rule conjI)
  show "GetNextTimeout now m =
           (if im_timers m = [] then -1
            else if \<exists>t \<in> set (im_timers m). timer_remaining now t \<le> 0 then 0
            else Min (timer_remaining now ` set (im_timers m)))"
  proof (cases "im_timers m")
    case (Cons t ts)
    show ?thesis
    proof (cases "\<exists>t \<in> set (im_timers m). timer_remaining now t \<le> 0")
      case True
      with Cons show ?thesis
        by (simp add: GetNextTimeout_def next_timeout_loop_due del: next_timeout_loop.simps)
    next
      case False
      then have "next_timeout_loop now (t # ts) (-1) =
                 next_timeout_loop now ts (timer_remaining now t)"
        using assms Cons by (auto simp: Let_def to_int32_small)
      also have "\<dots> = Min (insert (timer_remaining now t) (timer_remaining now ` set ts))"
        using False assms Cons by (intro next_timeout_loop_running) (auto simp: not_le)
      finally show ?thesis using False Cons by (auto simp: GetNextTimeout_def)
    qed
  qed (simp add: GetNextTimeout_def)
  show "\<forall>t. timer_remaining now t = 2 ^ 31
          \<longrightarrow> GetNextTimeout now (m\<lparr>im_timers := [t]\<rparr>) = - (2 ^ 31)"
    by (simp add: GetNextTimeout_def Let_def to_int32_def)
qed

section \<open>Firing timers\<close>

text \<open>
  The reference: first all callbacks of the due timers, in list order, then one pass over the list
  that reschedules the due recurring timers and drops the one-shot timers that are spent.
\<close>

fun run_callbacks ::
  "('w, 'c) timer_callback \<Rightarrow> 'c option list \<Rightarrow> ('w, 'c) io_state \<Rightarrow> io_fault + ('w, 'c) io_state" where
  "run_callbacks tm [] s = Inr s"
| "run_callbacks tm (None # cs) s = Inl BadFunctionCall"
| "run_callbacks tm (Some c # cs) s =
     (case tm c s of Inl f \<Rightarrow> Inl f | Inr s' \<Rightarrow> run_callbacks tm cs s')"

definition due_callbacks :: "u64 \<Rightarrow> 'c timer_info list \<Rightarrow> 'c option list" where
  "due_callbacks now ts = map ti_callback (filter (timer_due now) ts)"

definition timers_after :: "u64 \<Rightarrow> 'c timer_info list \<Rightarrow> 'c timer_info list" where
  "timers_after now ts =
     filter (\<lambda>t. \<not> timer_spent t) (map (\<lambda>t. if timer_due now t then reschedule now t else t) ts)"

lemma fire_loop_reference:
  "fire_loop tm now ts s =
     (case run_callbacks tm (due_callbacks now ts) s of
        Inl f \<Rightarrow> Inl f
      | Inr s' \<Rightarrow> Inr (map (\<lambda>t. if timer_due now t then reschedule now t else t) ts, s'))"
  by (induction ts arbitrary: s) (auto simp: due_callbacks_def split: option.splits sum.splits)

lemma rescheduled_not_due:
  assumes "\<not> timer_spent (reschedule now t)" "timer_due now (reschedule now t)"
    "0 < ti_interval_ms (reschedule now t)"
    "unat now + unat (ti_interval_ms (reschedule now t)) < 2 ^ 64"
  shows False
proof -
  have "unat (now + ti_interval_ms t) = unat now + unat (ti_interval_ms t)"
    using assms(4) by (simp add: reschedule_def unat_plus_if')
  moreover have "0 < unat (ti_interval_ms t)"
    using assms(3) by (simp add: reschedule_def unat_gt_0 word_neq_0_conv)
  ultimately show False
    using assms(1,2) by (auto simp: timer_due_def reschedule_def timer_spent_def word_le_nat_alt
        split: if_splits)
qed


section \<open>Clients\<close>

text \<open>
  What a callback may do to the multiplexer: call its operations. \<open>api_steps k m m'\<close>: a sequence of
  completed calls, \<open>k\<close> of them of \<open>AddTimer\<close>, leads from \<open>m\<close> to \<open>m'\<close>.
\<close>

inductive api_steps :: "nat \<Rightarrow> 'c io_multiplexer \<Rightarrow> 'c io_multiplexer \<Rightarrow> bool" where
  api_done: "api_steps 0 m m"
| api_add_fd: "AddFd ret fd events cb m = Inr (r, m') \<Longrightarrow> api_steps k m' m'' \<Longrightarrow> api_steps k m m''"
| api_mod_fd: "ModFd ret fd events m = Inr (r, m') \<Longrightarrow> api_steps k m' m'' \<Longrightarrow> api_steps k m m''"
| api_del_fd: "DelFd ret fd m = Inr (r, m') \<Longrightarrow> api_steps k m' m'' \<Longrightarrow> api_steps k m m''"
| api_stop: "api_steps k (IoMultiplexer_Stop m) m'' \<Longrightarrow> api_steps k m m''"
| api_add_timer: "AddTimer now interval rec cb m = Inr (i, m') \<Longrightarrow> api_steps k m' m''
    \<Longrightarrow> api_steps (Suc k) m m''"
| api_remove_timer: "RemoveTimer i m = Inr m' \<Longrightarrow> api_steps k m' m'' \<Longrightarrow> api_steps k m m''"

lemmas fd_op_defs = AddFd_def ModFd_def DelFd_def
lemmas timer_op_defs = AddTimer_def RemoveTimer_def

lemma api_steps_frame:
  assumes "api_steps k m m'"
  shows "im_fd_mutex m' = im_fd_mutex m" "im_timer_mutex m' = im_timer_mutex m"
    "im_running m' \<Longrightarrow> im_running m"
    "im_fd_mutex m \<Longrightarrow> im_fd_map m' = im_fd_map m"
    "im_timer_mutex m \<Longrightarrow>
       k = 0 \<and> im_timers m' = im_timers m \<and> im_next_timer_id m' = im_next_timer_id m"
  using assms
  by (induction) (auto simp: fd_op_defs timer_op_defs IoMultiplexer_Stop_def
      split: if_splits option.splits)

text \<open>
  The state between two operations after \<open>n\<close> calls of \<open>AddTimer\<close>: the timers carry distinct
  identifiers among \<open>1 .. n\<close>, so an identifier given out once means one timer for ever.
\<close>

definition timers_wf :: "nat \<Rightarrow> 'c io_multiplexer \<Rightarrow> bool" where
  "timers_wf n m \<longleftrightarrow>
     unat (im_next_timer_id m) = Suc n \<and> distinct (map ti_id (im_timers m))
     \<and> (\<forall>t \<in> set (im_timers m). 0 < unat (ti_id t) \<and> unat (ti_id t) \<le> n)"

lemma timers_wf_cong:
  "im_timers m' = im_timers m \<Longrightarrow> im_next_timer_id m' = im_next_timer_id m
   \<Longrightarrow> timers_wf n m' = timers_wf n m"
  by (simp add: timers_wf_def)

lemma timers_wf_AddTimer:
  assumes "timers_wf n m" "AddTimer now interval rec cb m = Inr (i, m')" "Suc n < 2 ^ 64 - 1"
  shows "timers_wf (Suc n) m'"
  using assms
  by (auto simp: timers_wf_def AddTimer_def unat_word_ariths split: if_splits) fastforce+

lemma timers_wf_filter:
  "timers_wf n m \<Longrightarrow> timers_wf n (m\<lparr>im_timers := filter P (im_timers m)\<rparr>)"
  by (auto simp: timers_wf_def distinct_map_filter)

lemma api_steps_wf:
  assumes "api_steps k m m'" "timers_wf n m" "n + k < 2 ^ 64 - 1"
  shows "timers_wf (n + k) m'"
  using assms
proof (induction arbitrary: n)
  case (api_add_timer now interval rec cb m i m' k m'')
  then have "timers_wf (Suc n) m'" by (intro timers_wf_AddTimer) auto
  then show ?case using api_add_timer by fastforce
next
  case (api_remove_timer i m m' k m'')
  then have "timers_wf n m'" by (auto simp: RemoveTimer_def timers_wf_filter split: if_splits)
  then show ?case using api_remove_timer by blast
next
  case (api_stop k m m'')
  then show ?case by (simp add: IoMultiplexer_Stop_def timers_wf_def)
next
  case (api_add_fd ret fd events cb m r m' k m'')
  then have "timers_wf n m'" by (auto simp: AddFd_def timers_wf_def split: if_splits)
  then show ?case using api_add_fd by blast
next
  case (api_mod_fd ret fd events m r m' k m'')
  then have "timers_wf n m'" by (auto simp: ModFd_def timers_wf_def split: if_splits option.splits)
  then show ?case using api_mod_fd by blast
next
  case (api_del_fd ret fd m r m' k m'')
  then have "timers_wf n m'" by (auto simp: DelFd_def timers_wf_def split: if_splits)
  then show ?case using api_del_fd by blast
qed simp

lemma timers_after_wf:
  assumes "timers_wf n m"
  shows "timers_wf n (m\<lparr>im_timers := timers_after now (im_timers m)\<rparr>)"
proof -
  have "ti_id \<circ> (\<lambda>t :: 'a timer_info. if timer_due now t then reschedule now t else t) = ti_id"
    by (auto simp: reschedule_def)
  then have "timers_wf n (m\<lparr>im_timers :=
          map (\<lambda>t. if timer_due now t then reschedule now t else t) (im_timers m)\<rparr>)"
    using assms by (auto simp: timers_wf_def reschedule_def)
  from timers_wf_filter [OF this] show ?thesis by (simp add: timers_after_def)
qed

text \<open>Reachable states: construction, calls from outside the loop, and the two halves of a turn.\<close>

inductive io_reach ::
  "('w, 'c) event_callback \<Rightarrow> ('w, 'c) timer_callback \<Rightarrow> nat \<Rightarrow> ('w, 'c) io_state \<Rightarrow> bool"
  for ev :: "('w, 'c) event_callback" and tm :: "('w, 'c) timer_callback" where
  io_new: "IoMultiplexer_new epfd mx = Some m \<Longrightarrow> io_reach ev tm 0 (w, m)"
| io_api: "io_reach ev tm n (w, m) \<Longrightarrow> api_steps k m m' \<Longrightarrow> io_reach ev tm (n + k) (w', m')"
| io_start: "io_reach ev tm n (w, m) \<Longrightarrow> io_reach ev tm n (w, m\<lparr>im_running := True\<rparr>)"
| io_fire: "io_reach ev tm n s \<Longrightarrow> FireTimers tm now s = Inr s' \<Longrightarrow> io_reach ev tm n s'"
| io_event: "io_reach ev tm n (w, m) \<Longrightarrow> im_fd_map m fd = Some info \<Longrightarrow> fi_callback info = Some c
    \<Longrightarrow> ev c fd revents (w, m\<lparr>im_fd_mutex := True\<rparr>) = Inr (w', m')
    \<Longrightarrow> api_steps k (m\<lparr>im_fd_mutex := True\<rparr>) m'
    \<Longrightarrow> io_reach ev tm (n + k) (w', m'\<lparr>im_fd_mutex := False\<rparr>)"

text \<open>The interface between the multiplexer and the object whose callbacks it runs.\<close>

locale io_client =
  fixes ev :: "('w, 'c) event_callback" and tm :: "('w, 'c) timer_callback"
  assumes event_api: "ev c fd revents (w, m) = Inr (w', m') \<Longrightarrow> \<exists>k. api_steps k m m'"
    and timer_api: "tm c (w, m) = Inr (w', m') \<Longrightarrow> \<exists>k. api_steps k m m'"
begin

lemma run_callbacks_frame:
  "run_callbacks tm cs (w, m) = Inr (w', m') \<Longrightarrow> im_timer_mutex m
   \<Longrightarrow> im_timers m' = im_timers m \<and> im_next_timer_id m' = im_next_timer_id m
       \<and> im_timer_mutex m' \<and> im_fd_mutex m' = im_fd_mutex m \<and> (im_running m' \<longrightarrow> im_running m)"
proof (induction cs arbitrary: w m)
  case (Cons c cs)
  from Cons.prems obtain x w1 m1 where x: "c = Some x" and t: "tm x (w, m) = Inr (w1, m1)"
    and r: "run_callbacks tm cs (w1, m1) = Inr (w', m')"
    by (cases c) (auto split: sum.splits)
  from timer_api [OF t] obtain k where k: "api_steps k m m1" by blast
  from Cons.IH [OF r] Cons.prems(2) show ?case
    using api_steps_frame [OF k] by auto
qed simp

lemma FireTimers_frame:
  assumes "FireTimers tm now (w, m) = Inr (w', m')"
  shows "im_timers m' = timers_after now (im_timers m)" "im_next_timer_id m' = im_next_timer_id m"
    "\<not> im_timer_mutex m'" "im_fd_mutex m' = im_fd_mutex m" "im_running m' \<Longrightarrow> im_running m"
proof -
  from assms have free: "\<not> im_timer_mutex m" by (auto simp: FireTimers_def split: if_splits)
  from assms obtain m1 where m1:
      "run_callbacks tm (due_callbacks now (im_timers m)) (w, m\<lparr>im_timer_mutex := True\<rparr>) = Inr (w', m1)"
      "m' = m1\<lparr>im_timers := timers_after now (im_timers m), im_timer_mutex := False\<rparr>"
    using free by (auto simp: FireTimers_def fire_loop_reference timers_after_def
        split: sum.splits)
  from run_callbacks_frame [OF m1(1)] m1(2)
  show "im_timers m' = timers_after now (im_timers m)" "im_next_timer_id m' = im_next_timer_id m"
    "\<not> im_timer_mutex m'" "im_fd_mutex m' = im_fd_mutex m" "im_running m' \<Longrightarrow> im_running m"
    by auto
qed

text \<open>Within a batch of events the registrations do not change.\<close>

lemma deliver_frame:
  assumes "deliver ev fd revents (w, m) = Inr (w', m')"
  shows "im_fd_map m' = im_fd_map m" "\<not> im_fd_mutex m'" "im_timer_mutex m' = im_timer_mutex m"
    "im_running m' \<Longrightarrow> im_running m"
proof -
  have "im_fd_map m' = im_fd_map m \<and> \<not> im_fd_mutex m' \<and> im_timer_mutex m' = im_timer_mutex m
        \<and> (im_running m' \<longrightarrow> im_running m)"
  proof (cases "Option.bind (im_fd_map m fd) fi_callback")
    case None
    then show ?thesis using assms by (auto simp: deliver_def split: if_splits)
  next
    case (Some c)
    then obtain m1 where m1: "ev c fd revents (w, m\<lparr>im_fd_mutex := True\<rparr>) = Inr (w', m1)"
        "m' = m1\<lparr>im_fd_mutex := False\<rparr>"
      using assms by (auto simp: deliver_def split: if_splits sum.splits)
    from event_api [OF m1(1)] obtain k where "api_steps k (m\<lparr>im_fd_mutex := True\<rparr>) m1" by blast
    from api_steps_frame [OF this] show ?thesis using m1(2) by auto
  qed
  then show "im_fd_map m' = im_fd_map m" "\<not> im_fd_mutex m'"
    "im_timer_mutex m' = im_timer_mutex m" "im_running m' \<Longrightarrow> im_running m" by auto
qed

lemma deliver_all_frame:
  "deliver_all ev events (w, m) = Inr (w', m') \<Longrightarrow> \<not> im_fd_mutex m
   \<Longrightarrow> im_fd_map m' = im_fd_map m \<and> \<not> im_fd_mutex m' \<and> im_timer_mutex m' = im_timer_mutex m"
proof (induction events arbitrary: w m)
  case (Cons e events)
  obtain fd r where e: "e = (fd, r)" by (cases e)
  from Cons.prems obtain w1 m1 where "deliver ev fd r (w, m) = Inr (w1, m1)"
    "deliver_all ev events (w1, m1) = Inr (w', m')"
    by (auto simp: e split: sum.splits)
  then show ?case using deliver_frame Cons.IH by metis
qed simp

lemma deliver_reach:
  assumes "io_reach ev tm n s" "deliver ev fd revents s = Inr s'"
  shows "\<exists>k. io_reach ev tm (n + k) s'"
proof -
  obtain w m where s: "s = (w, m)" by (cases s)
  show ?thesis
  proof (cases "Option.bind (im_fd_map m fd) fi_callback")
    case None
    then have "s' = s" using assms(2) by (auto simp: deliver_def s split: if_splits)
    then show ?thesis using assms(1) by (intro exI [of _ 0]) simp
  next
    case (Some c)
    then obtain info where info: "im_fd_map m fd = Some info" "fi_callback info = Some c"
      by (auto simp: Option.bind_eq_Some_conv)
    obtain w' m1 where m1: "ev c fd revents (w, m\<lparr>im_fd_mutex := True\<rparr>) = Inr (w', m1)"
        "s' = (w', m1\<lparr>im_fd_mutex := False\<rparr>)"
      using assms(2) Some by (auto simp: deliver_def s split: if_splits sum.splits)
    from event_api [OF m1(1)] obtain k where "api_steps k (m\<lparr>im_fd_mutex := True\<rparr>) m1" by blast
    with io_event [OF assms(1) [unfolded s] info m1(1) this] show ?thesis using m1(2) by blast
  qed
qed

lemma deliver_all_reach:
  "io_reach ev tm n s \<Longrightarrow> deliver_all ev events s = Inr s' \<Longrightarrow> \<exists>k. io_reach ev tm (n + k) s'"
proof (induction events arbitrary: n s)
  case Nil
  then show ?case by (intro exI [of _ 0]) simp
next
  case (Cons e events)
  obtain fd r where e: "e = (fd, r)" by (cases e)
  from Cons.prems obtain s1 where s1: "deliver ev fd r s = Inr s1" "deliver_all ev events s1 = Inr s'"
    by (auto simp: e split: sum.splits)
  from deliver_reach [OF Cons.prems(1) s1(1)] obtain k where "io_reach ev tm (n + k) s1" by blast
  from Cons.IH [OF this s1(2)] show ?case by (metis add.assoc)
qed

end

context io_client
begin

lemma turn_body_reach:
  assumes "io_reach ev tm n s" "turn_body ev tm p s = Inr (go_on, s')"
  shows "\<exists>k. io_reach ev tm (n + k) s'"
proof (cases "lt_wait p")
  case (WaitFailed b)
  then show ?thesis using assms by (intro exI [of _ 0]) (simp add: turn_body_def)
next
  case (WaitEvents events)
  then obtain s1 where s1: "FireTimers tm (lt_fire_now p) s = Inr s1" "deliver_all ev events s1 = Inr s'"
    using assms(2) by (auto simp: turn_body_def split: sum.splits)
  show ?thesis by (rule deliver_all_reach [OF io_fire [OF assms(1) s1(1)] s1(2)])
qed

lemma run_loop_reach:
  "io_reach ev tm n s \<Longrightarrow> run_loop ev tm timeout_ms ps s = Inr (waits, ret, s')
   \<Longrightarrow> \<exists>k. io_reach ev tm (n + k) s'"
proof (induction ps arbitrary: n s waits)
  case Nil
  then show ?case by (cases s) (auto intro!: exI [of _ 0])
next
  case (Cons p ps)
  obtain w m where s: "s = (w, m)" by (cases s)
  define m1 where "m1 = (if lt_stop p then IoMultiplexer_Stop m else m)"
  have "api_steps 0 m m1" by (simp add: m1_def api_steps.intros)
  from io_api [OF Cons.prems(1) [unfolded s] this] have r1: "io_reach ev tm n (w, m1)" by simp
  show ?case
  proof (cases "im_running m1")
    case False
    then have "s' = (w, m1)" using Cons.prems(2) by (auto simp: s Let_def simp flip: m1_def)
    then show ?thesis using r1 by (intro exI [of _ 0]) simp
  next
    case True
    then obtain go_on s2 where b: "turn_body ev tm p (w, m1) = Inr (go_on, s2)"
      using Cons.prems(2) by (auto simp: s Let_def simp flip: m1_def split: sum.splits)
    from turn_body_reach [OF r1 b] obtain k where k: "io_reach ev tm (n + k) s2" by blast
    show ?thesis
    proof (cases go_on)
      case False
      then show ?thesis using Cons.prems(2) True b k by (auto simp: s Let_def simp flip: m1_def)
    next
      case go: True
      then obtain ws where "run_loop ev tm timeout_ms ps s2 = Inr (ws, ret, s')"
        using Cons.prems(2) True b by (auto simp: s Let_def simp flip: m1_def split: sum.splits)
      from Cons.IH [OF k this] show ?thesis by (metis add.assoc)
    qed
  qed
qed

text \<open>Every state in which \<open>Run\<close> returns or waits is reachable, so the invariant covers the loop.\<close>

lemma Run_reach:
  assumes "io_reach ev tm n s" "IoMultiplexer_Run ev tm timeout_ms ps s = Inr (waits, ret, s')"
  shows "\<exists>k. io_reach ev tm (n + k) s'"
  using assms run_loop_reach [OF io_start] by (cases s) (auto simp: IoMultiplexer_Run_def)

lemma io_reach_invariant:
  "io_reach ev tm n s \<Longrightarrow> n < 2 ^ 64 - 1
   \<Longrightarrow> timers_wf n (snd s) \<and> \<not> im_fd_mutex (snd s) \<and> \<not> im_timer_mutex (snd s)"
proof (induction rule: io_reach.induct)
  case (io_new epfd mx m w)
  then show ?case by (auto simp: IoMultiplexer_new_def timers_wf_def split: if_splits)
next
  case (io_api n w m k m' w')
  then show ?case using api_steps_wf [OF io_api.hyps(2)] api_steps_frame(1,2) [OF io_api.hyps(2)]
    by auto
next
  case (io_start n w m)
  then show ?case by (simp add: timers_wf_def)
next
  case (io_fire n s now s')
  obtain w m w' m' where s: "s = (w, m)" "s' = (w', m')" by (cases s, cases s')
  note fr = FireTimers_frame [OF io_fire.hyps(2) [unfolded s]]
  have "timers_wf n m" using io_fire by (simp add: s)
  from timers_after_wf [OF this, of now] fr have "timers_wf n m'"
    by (simp add: timers_wf_def)
  then show ?case using fr io_fire by (simp add: s)
next
  case (io_event n w m fd info c revents w' m' k)
  from io_event have "timers_wf n (m\<lparr>im_fd_mutex := True\<rparr>)" by (simp add: timers_wf_def)
  from api_steps_wf [OF io_event.hyps(5) this] io_event.prems have "timers_wf (n + k) m'" by simp
  then show ?case using io_event api_steps_frame(2) [OF io_event.hyps(5)]
    by (simp add: timers_wf_def)
qed

end

section \<open>Properties of the loop\<close>

text \<open>
  In every state the multiplexer can reach with lawful callbacks, after \<open>n\<close> calls of
  \<open>AddTimer\<close>, from the loop or from outside: both mutexes are free between operations, and the timers
  carry distinct identifiers between 1 and \<open>n\<close>. The identifier \<open>AddTimer\<close> returns is therefore
  not in use, and \<open>RemoveTimer\<close> takes away at most the timer it was returned for.
\<close>

theorem IoMultiplexer_timer_ids:
  assumes "io_client ev tm" "io_reach ev tm n (w, m)" "n < 2 ^ 64 - 1"
  shows "timers_wf n m \<and> \<not> im_fd_mutex m \<and> \<not> im_timer_mutex m
         \<and> (\<forall>now interval rec cb. \<exists>i m'.
               AddTimer now interval rec cb m = Inr (i, m') \<and> i \<notin> ti_id ` set (im_timers m)
               \<and> RemoveTimer i m' = Inr (m'\<lparr>im_timers := im_timers m\<rparr>))"
proof -
  have inv: "timers_wf n m" "\<not> im_fd_mutex m" "\<not> im_timer_mutex m"
    using io_client.io_reach_invariant [OF assms] by auto
  then have fresh: "im_next_timer_id m \<notin> ti_id ` set (im_timers m)"
    by (auto simp: timers_wf_def)
  then have "filter (\<lambda>t. ti_id t \<noteq> im_next_timer_id m) (im_timers m) = im_timers m"
    by (intro filter_True) force
  then show ?thesis using inv fresh by (auto simp: AddTimer_def RemoveTimer_def)
qed

lemma run_loop_waits:
  "run_loop ev tm timeout_ms ps s = Inr (waits, ret, s')
   \<Longrightarrow> (\<forall>i < length ps. lt_stop (ps ! i) \<longrightarrow> ret \<and> length waits \<le> i)
       \<and> (0 \<le> timeout_ms \<longrightarrow> set waits \<subseteq> {timeout_ms})
       \<and> (\<not> ret \<longrightarrow> length waits = length ps \<and> im_running (snd s'))"
proof (induction ps arbitrary: s waits)
  case Nil
  then show ?case by (cases s) auto
next
  case (Cons p ps)
  obtain w m where s: "s = (w, m)" by (cases s)
  define m1 where "m1 = (if lt_stop p then IoMultiplexer_Stop m else m)"
  show ?case
  proof (cases "im_running m1")
    case False
    then show ?thesis using Cons.prems by (auto simp: s Let_def simp flip: m1_def)
  next
    case True
    then have go: "\<not> lt_stop p" by (auto simp: m1_def IoMultiplexer_Stop_def split: if_splits)
    then have m1: "m1 = m" by (simp add: m1_def)
    from True obtain go_on s2 where b: "turn_body ev tm p (w, m) = Inr (go_on, s2)"
      using Cons.prems go by (auto simp: s m1 Let_def split: sum.splits)
    show ?thesis
    proof (cases go_on)
      case False
      then have "waits = [actual_timeout timeout_ms (lt_now p) m] \<and> ret"
        using Cons.prems True b go by (simp add: s m1)
      then show ?thesis using go by (auto simp: actual_timeout_def nth_Cons split: nat.splits)
    next
      case cont: True
      then obtain ws where ws: "run_loop ev tm timeout_ms ps s2 = Inr (ws, ret, s')"
          "waits = actual_timeout timeout_ms (lt_now p) m # ws"
        using Cons.prems True b go by (auto simp: s m1 split: sum.splits)
      from Cons.IH [OF ws(1)] show ?thesis using go ws(2)
        by (auto simp: nth_Cons actual_timeout_def split: nat.splits)
    qed
  qed
qed

text \<open>
  Property C19. When the loop returns. A \<open>Stop\<close> of another thread before turn \<open>i\<close> makes it return
  after at most \<open>i\<close> waits, whatever the callbacks do; it goes on only while \<open>running_\<close> holds, and
  with a timeout given (the session manager's 1000 ms) each wait is bounded by it, so a \<open>Stop\<close> is
  noticed within one timeout. But \<open>Run\<close> sets \<open>running_\<close> itself: a \<open>Stop\<close> that comes before it is
  lost.
\<close>

theorem IoMultiplexer_Run_stops:
  assumes "IoMultiplexer_Run ev tm timeout_ms ps (w, m) = Inr (waits, ret, s')"
  shows "(\<forall>i < length ps. lt_stop (ps ! i) \<longrightarrow> ret \<and> length waits \<le> i)
         \<and> (0 \<le> timeout_ms \<longrightarrow> set waits \<subseteq> {timeout_ms})
         \<and> (\<not> ret \<longrightarrow> length waits = length ps \<and> im_running (snd s'))
         \<and> IoMultiplexer_Run ev tm timeout_ms ps (w, IoMultiplexer_Stop m) =
            IoMultiplexer_Run ev tm timeout_ms ps (w, m)"
  using run_loop_waits [OF assms [unfolded IoMultiplexer_Run_def prod.case]]
  by (simp add: IoMultiplexer_Run_def IoMultiplexer_Stop_def)

text \<open>
  Callbacks must not come back to the side of the multiplexer that runs them. A descriptor's
  callback that unregisters that descriptor, as one does when it sees an error event, blocks the loop
  on \<open>fd_mutex_\<close> for ever, and so does a timer callback that adds a timer, on \<open>timer_mutex_\<close>.
\<close>

theorem reentrant_callbacks_deadlock:
  assumes "\<not> im_fd_mutex m" "im_fd_map m fd = Some info" "fi_callback info = Some c"
    and "\<And>w m. ev c fd revents (w, m) = map_sum id (\<lambda>(r, m'). (w, m')) (DelFd ret fd m)"
    and "\<not> im_timer_mutex m'" "im_timers m' = t # ts" "timer_due now t" "ti_callback t = Some c'"
    and "\<And>w m. tm c' (w, m) = map_sum id (\<lambda>(i, m'). (w, m')) (AddTimer now' interval rec cb m)"
  shows "deliver ev fd revents (w, m) = Inl Deadlock \<and> FireTimers tm now (w', m') = Inl Deadlock"
  using assms by (simp add: deliver_def FireTimers_def DelFd_def AddTimer_def)

section \<open>Witnesses\<close>

text \<open>A client that records what ran: the descriptors with their events, and the timers.\<close>

definition log_event :: "((int \<times> u32) list, nat) event_callback" where
  "log_event c fd revents s = (case s of (w, m) \<Rightarrow> Inr (w @ [(fd, revents)], m))"

definition log_timer :: "((int \<times> u32) list, nat) timer_callback" where
  "log_timer c s = (case s of (w, m) \<Rightarrow> Inr (w @ [(int c, 0)], m))"

interpretation logging: io_client log_event log_timer
  by unfold_locales (auto simp: log_event_def log_timer_def intro: api_done)

definition sample_timer :: "u64 \<Rightarrow> bool \<Rightarrow> u64 \<Rightarrow> nat timer_info" where
  "sample_timer i rec next =
     \<lparr>ti_id = i, ti_interval_ms = 5000, ti_recurring = rec, ti_callback = Some (unat i),
      ti_next_fire_ms = next\<rparr>"

definition sample_mux :: "nat io_multiplexer" where
  "sample_mux =
     \<lparr>im_epoll_fd = 3, im_max_events = 1024, im_running = False,
      im_fd_map = [7 \<mapsto> \<lparr>fi_callback = Some 9, fi_events = 1\<rparr>], im_fd_mutex = False,
      im_timers = [sample_timer 1 True 5000, sample_timer 2 False 8000], im_timer_mutex = False,
      im_next_timer_id = 3\<rparr>"

lemma sample_mux_reach: "io_reach log_event log_timer 2 ([], sample_mux)"
proof -
  let ?m = "\<lparr>im_epoll_fd = 3, im_max_events = 1024, im_running = False,
      im_fd_map = Map.empty, im_fd_mutex = False, im_timers = [], im_timer_mutex = False,
      im_next_timer_id = 1\<rparr> :: nat io_multiplexer"
  have "IoMultiplexer_new 3 1024 = Some ?m" by (simp add: IoMultiplexer_new_def)
  from io_new [OF this] have r: "io_reach log_event log_timer 0 ([], ?m)" .
  let ?f = "[7 \<mapsto> \<lparr>fi_callback = Some (9 :: nat), fi_events = 1\<rparr>]"
  have a: "AddFd 0 7 1 (Some 9) ?m = Inr (True, ?m\<lparr>im_fd_map := ?f\<rparr>)"
    by (simp add: AddFd_def)
  have b: "AddTimer 0 5000 True (Some 1) (?m\<lparr>im_fd_map := ?f\<rparr>) =
      Inr (1, ?m\<lparr>im_fd_map := ?f, im_timers := [sample_timer 1 True 5000], im_next_timer_id := 2\<rparr>)"
    by (simp add: AddTimer_def sample_timer_def)
  have c: "AddTimer 3000 5000 False (Some 2)
        (?m\<lparr>im_fd_map := ?f, im_timers := [sample_timer 1 True 5000], im_next_timer_id := 2\<rparr>) =
      Inr (2, sample_mux)"
    by (simp add: AddTimer_def sample_timer_def sample_mux_def)
  from io_api [OF r api_add_fd [OF a api_add_timer [OF b api_add_timer [OF c api_done]]]] show ?thesis by (simp add: numeral_2_eq_2)
qed

lemma IoMultiplexer_timer_ids_witness:
  "timers_wf 2 sample_mux \<and> \<not> im_fd_mutex sample_mux \<and> \<not> im_timer_mutex sample_mux"
  using IoMultiplexer_timer_ids [OF logging.io_client_axioms sample_mux_reach] by simp

lemma sample_remaining:
  "timer_remaining 4000 (sample_timer 1 True 5000) = 1000"
  "timer_remaining 4000 (sample_timer 2 False 8000) = 4000"
  by (simp_all add: timer_remaining_def sample_timer_def)

lemma GetNextTimeout_earliest_witness: "GetNextTimeout 4000 sample_mux = 1000"
proof -
  have "\<forall>t \<in> set (im_timers sample_mux). timer_remaining 4000 t < 2 ^ 31"
    by (simp add: sample_mux_def sample_remaining)
  from GetNextTimeout_earliest [OF this] show ?thesis
    by (simp add: sample_mux_def sample_remaining)
qed


definition quiet_turn :: "bool \<Rightarrow> loop_turn" where
  "quiet_turn stop = \<lparr>lt_stop = stop, lt_now = 0, lt_wait = WaitEvents [(7, 1)], lt_fire_now = 0\<rparr>"

lemma IoMultiplexer_Run_stops_witness:
  "\<exists>waits s'. IoMultiplexer_Run log_event log_timer 1000 [quiet_turn False, quiet_turn True]
                 ([], sample_mux) = Inr (waits, True, s') \<and> set waits \<subseteq> {1000}"
proof -
  let ?ps = "[quiet_turn False, quiet_turn True]"
  have r: "IoMultiplexer_Run log_event log_timer 1000 ?ps ([], sample_mux) =
        Inr ([1000], True, ([(7, 1)], sample_mux))"
    by (simp add: IoMultiplexer_Run_def quiet_turn_def sample_mux_def turn_body_def FireTimers_def
        timer_due_def sample_timer_def timer_spent_def deliver_def log_event_def Let_def
        IoMultiplexer_Stop_def actual_timeout_def)
  from IoMultiplexer_Run_stops [OF r] r show ?thesis by simp
qed

definition unregister_event :: "(unit, nat) event_callback" where
  "unregister_event c fd revents s =
     (case s of (w, m) \<Rightarrow> map_sum id (\<lambda>(r, m'). (w, m')) (DelFd 0 fd m))"

definition rearm_timer :: "(unit, nat) timer_callback" where
  "rearm_timer c s =
     (case s of (w, m) \<Rightarrow> map_sum id (\<lambda>(i, m'). (w, m')) (AddTimer 0 5 False (Some c) m))"

lemma reentrant_callbacks_deadlock_witness:
  "deliver unregister_event 7 1 ((), sample_mux) = Inl Deadlock
   \<and> FireTimers rearm_timer 5000 ((), sample_mux) = Inl Deadlock"
  by (rule reentrant_callbacks_deadlock
        [where c = 9 and c' = 1 and ret = 0 and now' = 0 and interval = 5 and rec = False
           and cb = "Some 1" and info = "\<lparr>fi_callback = Some 9, fi_events = 1\<rparr>"
           and t = "sample_timer 1 True 5000" and ts = "[sample_timer 2 False 8000]"])
     (simp_all add: sample_mux_def sample_timer_def timer_due_def unregister_event_def rearm_timer_def)

end
