(* ===== verification/Thread_Pool.thy ===== *)
theory Thread_Pool
  imports Prelude "HOL-Library.Multiset"
begin

text \<open>
  The worker pool (\<open>net/thread_pool.h\<close>, \<open>net/thread_pool.cpp\<close>) as a transition system whose steps are
  the accesses that other threads can observe: one evaluation of \<open>stop_\<close>, one locked section, one
  wait on a condition variable, one notification. A task is a value of type \<open>'a\<close>; running it is the
  time a worker spends in \<open>WExec\<close>, and a task that throws ends like one that returns, since
  \<open>WorkerLoop\<close> catches everything. A condition variable may wake a thread without a notification;
  those steps carry a label of their own.
\<close>

section \<open>State\<close>

text \<open>
  Where a worker is: at the test of the loop; about to lock the mutex; holding it, about to evaluate
  the predicate of \<open>cv_.wait\<close>; holding it, about to block; blocked; running a task; about to lock it
  to decrement the counter; about to notify \<open>done_cv_\<close>; returned.
\<close>

datatype 'a worker_pc =
  WTest | WLock | WPred | WBlock | WAsleep | WExec 'a | WDone 'a | WNotify | WExited

text \<open>Where a caller of \<open>WaitAll\<close> is.\<close>

datatype waiter_pc = WaLock | WaPred | WaBlock | WaAsleep | WaReturned

text \<open>Where the destructor is: not called, before \<open>notify_all\<close>, joining the workers, finished.\<close>

datatype dtor_pc = DtorIdle | DtorStopped | DtorJoining | DtorDone

record 'a thread_pool =
  tp_workers :: "'a worker_pc list"
  tp_tasks :: "'a list"
  tp_mutex :: bool
  tp_stop :: bool
  tp_active_tasks :: nat
  tp_notifies :: nat
  tp_waiters :: "waiter_pc list"
  tp_dtor :: dtor_pc

text \<open>The constructor starts \<open>num_threads\<close> workers. \<open>callers\<close> threads may call \<open>WaitAll\<close>.\<close>

definition ThreadPool_new :: "nat \<Rightarrow> nat \<Rightarrow> 'a thread_pool" where
  "ThreadPool_new num_threads callers =
     \<lparr>tp_workers = replicate num_threads WTest, tp_tasks = [], tp_mutex = False, tp_stop = False,
      tp_active_tasks = 0, tp_notifies = 0, tp_waiters = replicate callers WaReturned,
      tp_dtor = DtorIdle\<rparr>"

definition GetThreadCount :: "'a thread_pool \<Rightarrow> nat" where
  "GetThreadCount s = length (tp_workers s)"

text \<open>\<open>None\<close>: the caller has to wait for the mutex.\<close>

definition GetPendingCount :: "'a thread_pool \<Rightarrow> nat option" where
  "GetPendingCount s = (if tp_mutex s then None else Some (length (tp_tasks s)))"

section \<open>Steps\<close>

datatype 'a pool_event =
  Submitted 'a | Started nat 'a | Finished nat 'a | WaitCalled nat | WaitDone nat | Spurious nat
| Tau

definition set_worker :: "nat \<Rightarrow> 'a worker_pc \<Rightarrow> 'a thread_pool \<Rightarrow> 'a thread_pool" where
  "set_worker i pc s = s\<lparr>tp_workers := (tp_workers s)[i := pc]\<rparr>"

definition set_waiter :: "nat \<Rightarrow> waiter_pc \<Rightarrow> 'a thread_pool \<Rightarrow> 'a thread_pool" where
  "set_waiter j pc s = s\<lparr>tp_waiters := (tp_waiters s)[j := pc]\<rparr>"

text \<open>\<open>notify_all\<close> on each condition variable: the blocked threads go on to lock the mutex.\<close>

definition wake_worker :: "'a worker_pc \<Rightarrow> 'a worker_pc" where
  "wake_worker pc = (if pc = WAsleep then WLock else pc)"

definition wake_waiter :: "waiter_pc \<Rightarrow> waiter_pc" where
  "wake_waiter pc = (if pc = WaAsleep then WaLock else pc)"

text \<open>
  \<open>Submit\<close> under the mutex; the notification that follows is a step of its own, counted by
  \<open>tp_notifies\<close> until it happens.
\<close>

definition pool_push :: "'a \<Rightarrow> 'a thread_pool \<Rightarrow> 'a thread_pool option" where
  "pool_push t s =
     (if tp_mutex s then None
      else Some (s\<lparr>tp_tasks := tp_tasks s @ [t], tp_notifies := Suc (tp_notifies s)\<rparr>))"

text \<open>
  The next step of worker \<open>i\<close> in \<open>WorkerLoop\<close>, \<open>None\<close> when it cannot move. A worker in \<open>WPred\<close>
  evaluates the predicate, and when it holds goes on to return or to take the front task and count
  itself active, all under the mutex.
\<close>

definition worker_step :: "nat \<Rightarrow> 'a thread_pool \<Rightarrow> ('a pool_event \<times> 'a thread_pool) option" where
  "worker_step i s =
     (case tp_workers s ! i of
        WTest \<Rightarrow> Some (Tau, set_worker i (if tp_stop s then WExited else WLock) s)
      | WLock \<Rightarrow> if tp_mutex s then None else Some (Tau, set_worker i WPred (s\<lparr>tp_mutex := True\<rparr>))
      | WPred \<Rightarrow>
          (case tp_tasks s of
             [] \<Rightarrow> if tp_stop s then Some (Tau, set_worker i WExited (s\<lparr>tp_mutex := False\<rparr>))
                  else Some (Tau, set_worker i WBlock s)
           | t # ts \<Rightarrow>
               Some (Started i t, set_worker i (WExec t)
                 (s\<lparr>tp_mutex := False, tp_tasks := ts, tp_active_tasks := Suc (tp_active_tasks s)\<rparr>)))
      | WBlock \<Rightarrow> Some (Tau, set_worker i WAsleep (s\<lparr>tp_mutex := False\<rparr>))
      | WAsleep \<Rightarrow> None
      | WExec t \<Rightarrow> Some (Finished i t, set_worker i (WDone t) s)
      | WDone t \<Rightarrow>
          if tp_mutex s then None
          else Some (Tau, set_worker i WNotify (s\<lparr>tp_active_tasks := tp_active_tasks s - 1\<rparr>))
      | WNotify \<Rightarrow>
          Some (Tau, set_worker i WTest (s\<lparr>tp_waiters := map wake_waiter (tp_waiters s)\<rparr>))
      | WExited \<Rightarrow> None)"

text \<open>The next step of caller \<open>j\<close> of \<open>WaitAll\<close>.\<close>

definition waiter_step :: "nat \<Rightarrow> 'a thread_pool \<Rightarrow> ('a pool_event \<times> 'a thread_pool) option" where
  "waiter_step j s =
     (case tp_waiters s ! j of
        WaLock \<Rightarrow>
          if tp_mutex s then None else Some (Tau, set_waiter j WaPred (s\<lparr>tp_mutex := True\<rparr>))
      | WaPred \<Rightarrow>
          if tp_tasks s = [] \<and> tp_active_tasks s = 0
          then Some (WaitDone j, set_waiter j WaReturned (s\<lparr>tp_mutex := False\<rparr>))
          else Some (Tau, set_waiter j WaBlock s)
      | WaBlock \<Rightarrow> Some (Tau, set_waiter j WaAsleep (s\<lparr>tp_mutex := False\<rparr>))
      | WaAsleep \<Rightarrow> None
      | WaReturned \<Rightarrow> None)"

text \<open>
  The destructor sets \<open>stop_\<close> without the mutex, notifies, and joins: the last step needs every
  worker to have returned.
\<close>

definition dtor_step :: "'a thread_pool \<Rightarrow> 'a thread_pool option" where
  "dtor_step s =
     (case tp_dtor s of
        DtorIdle \<Rightarrow> Some (s\<lparr>tp_stop := True, tp_dtor := DtorStopped\<rparr>)
      | DtorStopped \<Rightarrow>
          Some (s\<lparr>tp_workers := map wake_worker (tp_workers s), tp_dtor := DtorJoining\<rparr>)
      | DtorJoining \<Rightarrow>
          if \<forall>pc \<in> set (tp_workers s). pc = WExited then Some (s\<lparr>tp_dtor := DtorDone\<rparr>) else None
      | DtorDone \<Rightarrow> None)"

text \<open>
  The internal steps: those of the workers and the callers, and an outstanding \<open>notify_one\<close>, which
  wakes one blocked worker if there is one.
\<close>

inductive pool_internal :: "'a thread_pool \<Rightarrow> 'a pool_event \<Rightarrow> 'a thread_pool \<Rightarrow> bool" where
  pool_worker: "i < length (tp_workers s) \<Longrightarrow> worker_step i s = Some (e, s')
    \<Longrightarrow> pool_internal s e s'"
| pool_waiter: "j < length (tp_waiters s) \<Longrightarrow> waiter_step j s = Some (e, s')
    \<Longrightarrow> pool_internal s e s'"
| pool_notify_one: "0 < tp_notifies s \<Longrightarrow> i < length (tp_workers s) \<Longrightarrow> tp_workers s ! i = WAsleep
    \<Longrightarrow> pool_internal s Tau (set_worker i WLock (s\<lparr>tp_notifies := tp_notifies s - 1\<rparr>))"
| pool_notify_none: "0 < tp_notifies s \<Longrightarrow> WAsleep \<notin> set (tp_workers s)
    \<Longrightarrow> pool_internal s Tau (s\<lparr>tp_notifies := tp_notifies s - 1\<rparr>)"

text \<open>All steps: also what the clients do, and wake-ups without a notification.\<close>

inductive pool_step :: "'a thread_pool \<Rightarrow> 'a pool_event \<Rightarrow> 'a thread_pool \<Rightarrow> bool" where
  pool_int: "pool_internal s e s' \<Longrightarrow> pool_step s e s'"
| pool_submit: "pool_push t s = Some s' \<Longrightarrow> pool_step s (Submitted t) s'"
| pool_wait: "j < length (tp_waiters s) \<Longrightarrow> tp_waiters s ! j = WaReturned
    \<Longrightarrow> pool_step s (WaitCalled j) (set_waiter j WaLock s)"
| pool_dtor: "dtor_step s = Some s' \<Longrightarrow> pool_step s Tau s'"
| pool_spurious_worker: "i < length (tp_workers s) \<Longrightarrow> tp_workers s ! i = WAsleep
    \<Longrightarrow> pool_step s (Spurious i) (set_worker i WLock s)"
| pool_spurious_waiter: "j < length (tp_waiters s) \<Longrightarrow> tp_waiters s ! j = WaAsleep
    \<Longrightarrow> pool_step s (Spurious j) (set_waiter j WaLock s)"

text \<open>Executions from a new pool, with their events.\<close>

inductive pool_exec :: "nat \<Rightarrow> nat \<Rightarrow> 'a pool_event list \<Rightarrow> 'a thread_pool \<Rightarrow> bool"
  for num_threads callers :: nat where
  exec_new: "pool_exec num_threads callers [] (ThreadPool_new num_threads callers)"
| exec_step: "pool_exec num_threads callers tr s \<Longrightarrow> pool_step s e s'
    \<Longrightarrow> pool_exec num_threads callers (tr @ [e]) s'"

fun submitted :: "'a pool_event list \<Rightarrow> 'a list" where
  "submitted [] = []"
| "submitted (Submitted t # es) = t # submitted es"
| "submitted (_ # es) = submitted es"

fun started :: "'a pool_event list \<Rightarrow> 'a list" where
  "started [] = []"
| "started (Started i t # es) = t # started es"
| "started (_ # es) = started es"

fun finished :: "'a pool_event list \<Rightarrow> 'a list" where
  "finished [] = []"
| "finished (Finished i t # es) = t # finished es"
| "finished (_ # es) = finished es"

section \<open>Counting along a list update\<close>

lemma sum_list_map_update:
  fixes f :: "'a \<Rightarrow> 'b::comm_monoid_add"
  shows "i < length xs \<Longrightarrow> sum_list (map f (xs[i := x])) + f (xs ! i) = sum_list (map f xs) + f x"
proof (induction xs arbitrary: i)
  case (Cons y ys)
  then show ?case
  proof (cases i)
    case (Suc k)
    with Cons.IH [of k] Cons.prems show ?thesis by (simp add: add.assoc)
  qed (simp add: ac_simps)
qed simp

lemma in_set_update_other: "y \<in> set xs \<Longrightarrow> y \<noteq> xs ! i \<Longrightarrow> y \<in> set (xs[i := x])"
  by (metis in_set_conv_nth length_list_update nth_list_update_neq)

lemma in_set_updateD: "y \<in> set (xs[i := x]) \<Longrightarrow> y = x \<or> y \<in> set xs"
  using set_update_subset_insert by fastforce

section \<open>The invariant\<close>

fun holds_mutex :: "'a worker_pc \<Rightarrow> bool" where
  "holds_mutex WPred = True"
| "holds_mutex WBlock = True"
| "holds_mutex _ = False"

fun waiter_holds :: "waiter_pc \<Rightarrow> bool" where
  "waiter_holds WaPred = True"
| "waiter_holds WaBlock = True"
| "waiter_holds _ = False"

fun counted_active :: "'a worker_pc \<Rightarrow> bool" where
  "counted_active (WExec t) = True"
| "counted_active (WDone t) = True"
| "counted_active _ = False"

fun executing :: "'a worker_pc \<Rightarrow> 'a multiset" where
  "executing (WExec t) = {#t#}"
| "executing _ = {#}"

text \<open>How many hold the mutex, how many are counted active, and what is being executed.\<close>

definition holders :: "'a worker_pc list \<Rightarrow> nat" where
  "holders ws = sum_list (map (\<lambda>pc. of_bool (holds_mutex pc)) ws)"

definition waiter_holders :: "waiter_pc list \<Rightarrow> nat" where
  "waiter_holders ws = sum_list (map (\<lambda>pc. of_bool (waiter_holds pc)) ws)"

definition actives :: "'a worker_pc list \<Rightarrow> nat" where
  "actives ws = sum_list (map (\<lambda>pc. of_bool (counted_active pc)) ws)"

definition all_executing :: "'a worker_pc list \<Rightarrow> 'a multiset" where
  "all_executing ws = sum_list (map executing ws)"

definition quiet :: "'a thread_pool \<Rightarrow> bool" where
  "quiet s \<longleftrightarrow> tp_tasks s = [] \<and> tp_active_tasks s = 0"

text \<open>No wake-up is lost: of a worker when a task is queued, of a caller when the pool is quiet.\<close>

definition mutex_ok :: "'a thread_pool \<Rightarrow> bool" where
  "mutex_ok s \<longleftrightarrow>
     holders (tp_workers s) + waiter_holders (tp_waiters s) = of_bool (tp_mutex s)"

definition active_ok :: "'a thread_pool \<Rightarrow> bool" where
  "active_ok s \<longleftrightarrow> tp_active_tasks s = actives (tp_workers s)"

definition wakeups_ok :: "'a thread_pool \<Rightarrow> bool" where
  "wakeups_ok s \<longleftrightarrow>
     (WExited \<in> set (tp_workers s) \<longrightarrow> tp_stop s)
     \<and> (WBlock \<in> set (tp_workers s) \<longrightarrow> tp_tasks s = [])
     \<and> (tp_tasks s \<noteq> [] \<longrightarrow> 0 < tp_notifies s \<or> tp_workers s = []
          \<or> (\<exists>pc \<in> set (tp_workers s). pc \<noteq> WAsleep))
     \<and> (WaBlock \<in> set (tp_waiters s) \<longrightarrow> \<not> quiet s)
     \<and> (WaAsleep \<in> set (tp_waiters s) \<and> quiet s \<longrightarrow> WNotify \<in> set (tp_workers s))"

definition stop_ok :: "'a thread_pool \<Rightarrow> bool" where
  "stop_ok s \<longleftrightarrow> tp_stop s = (tp_dtor s \<noteq> DtorIdle)"

definition pool_ok :: "'a thread_pool \<Rightarrow> bool" where
  "pool_ok s \<longleftrightarrow> mutex_ok s \<and> active_ok s \<and> wakeups_ok s \<and> stop_ok s"

lemma sum_list_nth_le:
  fixes f :: "'a \<Rightarrow> nat"
  shows "i < length xs \<Longrightarrow> f (xs ! i) \<le> sum_list (map f xs)"
  using elem_le_sum_list [of i "map f xs"] by simp

lemma sum_list_map_update_nat:
  fixes f :: "'a \<Rightarrow> nat"
  shows "i < length xs
    \<Longrightarrow> sum_list (map f (xs[i := x])) = sum_list (map f xs) + f x - f (xs ! i)"
  using sum_list_map_update [of i xs f x] by simp

lemma holders_update:
  assumes "i < length ws"
  shows "holders (ws[i := pc]) = holders ws + of_bool (holds_mutex pc) - of_bool (holds_mutex (ws ! i))"
    and "of_bool (holds_mutex (ws ! i)) \<le> holders ws"
  using assms unfolding holders_def by (rule sum_list_map_update_nat, rule sum_list_nth_le)

lemma waiter_holders_update:
  assumes "i < length ws"
  shows "waiter_holders (ws[i := pc]) =
           waiter_holders ws + of_bool (waiter_holds pc) - of_bool (waiter_holds (ws ! i))"
    and "of_bool (waiter_holds (ws ! i)) \<le> waiter_holders ws"
  using assms unfolding waiter_holders_def by (rule sum_list_map_update_nat, rule sum_list_nth_le)

lemma actives_update:
  assumes "i < length ws"
  shows "actives (ws[i := pc]) =
           actives ws + of_bool (counted_active pc) - of_bool (counted_active (ws ! i))"
    and "of_bool (counted_active (ws ! i)) \<le> actives ws"
  using assms unfolding actives_def by (rule sum_list_map_update_nat, rule sum_list_nth_le)

lemma all_executing_update:
  "i < length ws \<Longrightarrow> all_executing (ws[i := pc]) + executing (ws ! i)
                    = all_executing ws + executing pc"
  unfolding all_executing_def by (rule sum_list_map_update)

lemma wake_views [simp]:
  "waiter_holders (map wake_waiter us) = waiter_holders us"
  "holders (map wake_worker ws) = holders ws" "actives (map wake_worker ws) = actives ws"
  "all_executing (map wake_worker ws) = all_executing ws"
proof -
  have "waiter_holds (wake_waiter u) = waiter_holds u" for u
    by (cases u) (simp_all add: wake_waiter_def)
  moreover have "holds_mutex (wake_worker w) = holds_mutex w"
    "counted_active (wake_worker w) = counted_active w" "executing (wake_worker w) = executing w"
    for w :: "'a worker_pc"
    by (cases w; simp add: wake_worker_def)+
  ultimately show "waiter_holders (map wake_waiter us) = waiter_holders us"
    "holders (map wake_worker ws) = holders ws" "actives (map wake_worker ws) = actives ws"
    "all_executing (map wake_worker ws) = all_executing ws"
    by (simp_all add: waiter_holders_def holders_def actives_def all_executing_def comp_def)
qed

lemma mutex_free:
  assumes "mutex_ok s" "\<not> tp_mutex s"
  shows "WPred \<notin> set (tp_workers s)" "WBlock \<notin> set (tp_workers s)"
    "WaPred \<notin> set (tp_waiters s)" "WaBlock \<notin> set (tp_waiters s)"
  using assms
  by (auto simp: mutex_ok_def holders_def waiter_holders_def)

text \<open>The cases of a worker's step and of a waiting caller's step.\<close>

lemma worker_stepE:
  assumes "worker_step i s = Some (e, s')"
  obtains
    (stop) "tp_workers s ! i = WTest" "tp_stop s" "e = Tau" "s' = set_worker i WExited s"
  | (test) "tp_workers s ! i = WTest" "\<not> tp_stop s" "e = Tau" "s' = set_worker i WLock s"
  | (lock) "tp_workers s ! i = WLock" "\<not> tp_mutex s" "e = Tau"
      "s' = set_worker i WPred (s\<lparr>tp_mutex := True\<rparr>)"
  | (return) "tp_workers s ! i = WPred" "tp_tasks s = []" "tp_stop s" "e = Tau"
      "s' = set_worker i WExited (s\<lparr>tp_mutex := False\<rparr>)"
  | (wait) "tp_workers s ! i = WPred" "tp_tasks s = []" "\<not> tp_stop s" "e = Tau"
      "s' = set_worker i WBlock s"
  | (start) t ts where "tp_workers s ! i = WPred" "tp_tasks s = t # ts" "e = Started i t"
      "s' = set_worker i (WExec t)
         (s\<lparr>tp_mutex := False, tp_tasks := ts, tp_active_tasks := Suc (tp_active_tasks s)\<rparr>)"
  | (block) "tp_workers s ! i = WBlock" "e = Tau" "s' = set_worker i WAsleep (s\<lparr>tp_mutex := False\<rparr>)"
  | (finish) t where "tp_workers s ! i = WExec t" "e = Finished i t" "s' = set_worker i (WDone t) s"
  | (uncount) t where "tp_workers s ! i = WDone t" "\<not> tp_mutex s" "e = Tau"
      "s' = set_worker i WNotify (s\<lparr>tp_active_tasks := tp_active_tasks s - 1\<rparr>)"
  | (notify) "tp_workers s ! i = WNotify" "e = Tau"
      "s' = set_worker i WTest (s\<lparr>tp_waiters := map wake_waiter (tp_waiters s)\<rparr>)"
  using assms
  by (cases "tp_workers s ! i") (simp_all add: worker_step_def split: if_splits list.splits)

lemma waiter_stepE:
  assumes "waiter_step j s = Some (e, s')"
  obtains
    (lock) "tp_waiters s ! j = WaLock" "\<not> tp_mutex s" "e = Tau"
      "s' = set_waiter j WaPred (s\<lparr>tp_mutex := True\<rparr>)"
  | (return) "tp_waiters s ! j = WaPred" "quiet s" "e = WaitDone j"
      "s' = set_waiter j WaReturned (s\<lparr>tp_mutex := False\<rparr>)"
  | (wait) "tp_waiters s ! j = WaPred" "\<not> quiet s" "e = Tau" "s' = set_waiter j WaBlock s"
  | (block) "tp_waiters s ! j = WaBlock" "e = Tau" "s' = set_waiter j WaAsleep (s\<lparr>tp_mutex := False\<rparr>)"
  using assms
  by (cases "tp_waiters s ! j") (auto simp: waiter_step_def quiet_def split: if_splits)

lemmas set_defs = set_worker_def set_waiter_def

lemma worker_step_counts:
  assumes "worker_step i s = Some (e, s')" "i < length (tp_workers s)" "mutex_ok s" "active_ok s"
  shows "mutex_ok s' \<and> active_ok s'"
  using assms(1)
proof (cases rule: worker_stepE)
qed (use assms(2-4) holders_update [OF assms(2)] actives_update [OF assms(2)] in
      \<open>simp_all add: mutex_ok_def active_ok_def set_defs split: if_splits\<close>)

lemma waiter_step_counts:
  assumes "waiter_step j s = Some (e, s')" "j < length (tp_waiters s)" "mutex_ok s" "active_ok s"
  shows "mutex_ok s' \<and> active_ok s'"
  using assms(1)
proof (cases rule: waiter_stepE)
qed (use assms(2-4) waiter_holders_update [OF assms(2)] in
      \<open>simp_all add: mutex_ok_def active_ok_def set_defs split: if_splits\<close>)

lemma worker_step_wakeups:
  assumes step: "worker_step i s = Some (e, s')" and i: "i < length (tp_workers s)"
    and ok: "mutex_ok s" "active_ok s" "wakeups_ok s"
  shows "wakeups_ok s'"
  using step
proof (cases rule: worker_stepE)
  case block
  then have "tp_tasks s = []" using i ok(3) by (auto simp: wakeups_ok_def dest: nth_mem)
  with block show ?thesis using i ok(3)
    by (auto simp: wakeups_ok_def set_defs quiet_def in_set_update_other dest!: in_set_updateD)
next
  case (uncount t)
  then show ?thesis using i ok(3) mutex_free [OF ok(1)]
    by (auto simp: wakeups_ok_def set_defs set_update_memI quiet_def dest!: in_set_updateD
        intro!: bexI [of _ WNotify])
next
  case notify
  have "WaAsleep \<notin> wake_waiter ` set us" "WaBlock \<in> wake_waiter ` set us \<longleftrightarrow> WaBlock \<in> set us" for us
    by (force simp: wake_waiter_def image_iff split: if_splits)+
  with notify show ?thesis using i ok(3)
    by (auto simp: wakeups_ok_def set_defs set_update_memI quiet_def dest!: in_set_updateD
        intro!: bexI [of _ WTest])
next
  case (start t ts)
  then show ?thesis using i ok(3)
    by (auto simp: wakeups_ok_def set_defs set_update_memI quiet_def dest!: in_set_updateD
        intro!: bexI [of _ "WExec t"])
next
  case (finish t)
  then show ?thesis using i ok(3)
    by (auto simp: wakeups_ok_def set_defs set_update_memI quiet_def in_set_update_other
        dest!: in_set_updateD intro!: bexI [of _ "WDone t"])
next
  case stop
  then show ?thesis using i ok(3)
    by (auto simp: wakeups_ok_def set_defs set_update_memI quiet_def in_set_update_other
        dest!: in_set_updateD intro!: bexI [of _ "WExited"])
next
  case test
  then show ?thesis using i ok(3)
    by (auto simp: wakeups_ok_def set_defs set_update_memI quiet_def in_set_update_other
        dest!: in_set_updateD intro!: bexI [of _ "WLock"])
next
  case lock
  then show ?thesis using i ok(3)
    by (auto simp: wakeups_ok_def set_defs set_update_memI quiet_def in_set_update_other
        dest!: in_set_updateD intro!: bexI [of _ "WPred"])
next
  case return
  then show ?thesis using i ok(3)
    by (auto simp: wakeups_ok_def set_defs set_update_memI quiet_def in_set_update_other
        dest!: in_set_updateD)
next
  case wait
  then show ?thesis using i ok(3)
    by (auto simp: wakeups_ok_def set_defs set_update_memI quiet_def in_set_update_other
        dest!: in_set_updateD)
qed

lemma waiter_step_wakeups:
  assumes step: "waiter_step j s = Some (e, s')" and j: "j < length (tp_waiters s)"
    and ok: "wakeups_ok s"
  shows "wakeups_ok s'"
  using step
proof (cases rule: waiter_stepE)
  case block
  then have "\<not> quiet s" using j ok by (auto simp: wakeups_ok_def dest: nth_mem)
  with block show ?thesis using ok
    by (auto simp: wakeups_ok_def set_defs quiet_def dest!: in_set_updateD)
qed (use ok in \<open>auto simp: wakeups_ok_def set_defs quiet_def dest!: in_set_updateD\<close>)

lemma wake_one_ok:
  assumes i: "i < length (tp_workers s)" "tp_workers s ! i = WAsleep" and ok: "pool_ok s"
  shows "pool_ok (set_worker i WLock (s\<lparr>tp_notifies := n\<rparr>))"
proof -
  let ?ws = "(tp_workers s)[i := WLock]"
  have new: "WLock \<in> set ?ws" using i(1) by (rule set_update_memI)
  have same: "pc \<in> set ?ws \<longleftrightarrow> pc \<in> set (tp_workers s)" if "pc \<noteq> WLock" "pc \<noteq> WAsleep" for pc
    using that i(2) in_set_updateD in_set_update_other by metis
  have "wakeups_ok (set_worker i WLock (s\<lparr>tp_notifies := n\<rparr>))"
    using ok same [of WExited] same [of WBlock] same [of WNotify] new
    unfolding pool_ok_def wakeups_ok_def set_worker_def quiet_def
    by (intro conjI impI) (simp_all, blast?)
  then show ?thesis using ok i holders_update [OF i(1)] actives_update [OF i(1)]
    by (simp add: pool_ok_def mutex_ok_def active_ok_def stop_ok_def set_worker_def)
qed

lemma pool_internal_ok:
  assumes "pool_internal s e s'" "pool_ok s"
  shows "pool_ok s'"
  using assms
proof (induction rule: pool_internal.induct)
  case (pool_worker i s e s')
  have "tp_stop s' = tp_stop s" "tp_dtor s' = tp_dtor s"
    using pool_worker.hyps(2) by (cases rule: worker_stepE; simp add: set_defs)+
  then show ?case using pool_worker worker_step_counts worker_step_wakeups
    unfolding pool_ok_def stop_ok_def by metis
next
  case (pool_waiter j s e s')
  have "tp_stop s' = tp_stop s" "tp_dtor s' = tp_dtor s"
    using pool_waiter.hyps(2) by (cases rule: waiter_stepE; simp add: set_defs)+
  then show ?case using pool_waiter waiter_step_counts waiter_step_wakeups
    unfolding pool_ok_def stop_ok_def by metis
next
  case (pool_notify_one s i)
  then show ?case by (intro wake_one_ok) auto
next
  case (pool_notify_none s)
  have "\<exists>pc \<in> set (tp_workers s). pc \<noteq> WAsleep" if "tp_workers s \<noteq> []"
    using that pool_notify_none.hyps(2) by (metis list.set_sel(1))
  then have "wakeups_ok (s\<lparr>tp_notifies := tp_notifies s - 1\<rparr>)"
    using pool_notify_none.prems unfolding pool_ok_def wakeups_ok_def quiet_def by simp blast
  then show ?case using pool_notify_none.prems
    by (simp add: pool_ok_def mutex_ok_def active_ok_def stop_ok_def)
qed

lemma pool_push_ok:
  assumes "pool_push t s = Some s'" "pool_ok s"
  shows "pool_ok s'"
proof -
  from assms have "\<not> tp_mutex s" "mutex_ok s"
    and s': "s' = s\<lparr>tp_tasks := tp_tasks s @ [t], tp_notifies := Suc (tp_notifies s)\<rparr>"
    by (auto simp: pool_push_def pool_ok_def split: if_splits)
  from mutex_free [OF this(2,1)] show ?thesis using assms(2)
    by (auto simp: s' pool_ok_def mutex_ok_def active_ok_def wakeups_ok_def stop_ok_def quiet_def)
qed

lemma wake_all_ok:
  assumes "pool_ok s" "tp_stop s"
  shows "wakeups_ok (s\<lparr>tp_workers := map wake_worker (tp_workers s), tp_dtor := d\<rparr>)"
proof -
  have w: "pc \<in> wake_worker ` ws \<longleftrightarrow> pc \<in> ws" if "pc \<noteq> WAsleep" "pc \<noteq> WLock"
    for pc :: "'a worker_pc" and ws
    using that by (force simp: wake_worker_def image_iff split: if_splits)
  have "WAsleep \<notin> wake_worker ` ws" for ws :: "'a worker_pc set"
    by (force simp: wake_worker_def split: if_splits)
  then have "\<exists>pc \<in> wake_worker ` set ws. pc \<noteq> WAsleep" if "ws \<noteq> []" for ws :: "'a worker_pc list"
    using that by (metis image_eqI list.set_sel(1))
  then show ?thesis using assms w [of WExited] w [of WBlock] w [of WNotify]
    by (simp add: pool_ok_def wakeups_ok_def quiet_def) blast
qed

lemma dtor_step_ok:
  assumes "dtor_step s = Some s'" "pool_ok s"
  shows "pool_ok s'"
proof (cases "tp_dtor s")
  case DtorIdle
  then have "s' = s\<lparr>tp_stop := True, tp_dtor := DtorStopped\<rparr>" using assms(1)
    by (simp add: dtor_step_def)
  moreover have "wakeups_ok (s\<lparr>tp_stop := True, tp_dtor := DtorStopped\<rparr>)"
    using assms(2) by (auto simp: pool_ok_def wakeups_ok_def quiet_def)
  ultimately show ?thesis using assms(2)
    by (simp add: pool_ok_def mutex_ok_def active_ok_def stop_ok_def)
next
  case DtorStopped
  then have s': "s' = s\<lparr>tp_workers := map wake_worker (tp_workers s), tp_dtor := DtorJoining\<rparr>"
    using assms(1) by (simp add: dtor_step_def)
  have "tp_stop s" using assms(2) DtorStopped by (simp add: pool_ok_def stop_ok_def)
  from wake_all_ok [OF assms(2) this] show ?thesis using assms(2) DtorStopped
    by (simp add: s' pool_ok_def mutex_ok_def active_ok_def stop_ok_def)
next
  case DtorJoining
  then have "s' = s\<lparr>tp_dtor := DtorDone\<rparr>" using assms(1)
    by (simp add: dtor_step_def split: if_splits)
  moreover have "wakeups_ok (s\<lparr>tp_dtor := DtorDone\<rparr>)"
    using assms(2) by (simp add: pool_ok_def wakeups_ok_def quiet_def)
  ultimately show ?thesis using assms(2) DtorJoining
    by (simp add: pool_ok_def mutex_ok_def active_ok_def stop_ok_def)
qed (use assms(1) in \<open>simp add: dtor_step_def\<close>)

lemma pool_step_ok:
  assumes "pool_step s e s'" "pool_ok s"
  shows "pool_ok s'"
  using assms
proof (induction rule: pool_step.induct)
  case (pool_wait j s)
  note waiter_holders_update [OF pool_wait.hyps(1)]
  with pool_wait show ?case
    by (auto simp: pool_ok_def mutex_ok_def active_ok_def wakeups_ok_def stop_ok_def set_defs
        quiet_def dest!: in_set_updateD)
next
  case (pool_spurious_worker i s)
  from wake_one_ok [OF this, of "tp_notifies s"] show ?case by simp
next
  case (pool_spurious_waiter j s)
  note waiter_holders_update [OF pool_spurious_waiter.hyps(1)]
  with pool_spurious_waiter show ?case
    by (auto simp: pool_ok_def mutex_ok_def active_ok_def wakeups_ok_def stop_ok_def set_defs
        quiet_def dest!: in_set_updateD)
qed (auto intro: pool_internal_ok pool_push_ok dtor_step_ok)

section \<open>Executions\<close>

lemma events_append [simp]:
  "submitted (tr @ tr') = submitted tr @ submitted tr'"
  "started (tr @ tr') = started tr @ started tr'"
  "finished (tr @ tr') = finished tr @ finished tr'"
proof -
  show "submitted (tr @ tr') = submitted tr @ submitted tr'"
    by (induction tr rule: submitted.induct) simp_all
  show "started (tr @ tr') = started tr @ started tr'"
    by (induction tr rule: started.induct) simp_all
  show "finished (tr @ tr') = finished tr @ finished tr'"
    by (induction tr rule: finished.induct) simp_all
qed

definition accounted :: "'a pool_event list \<Rightarrow> 'a thread_pool \<Rightarrow> bool" where
  "accounted tr s \<longleftrightarrow>
     submitted tr = started tr @ tp_tasks s
     \<and> mset (started tr) = mset (finished tr) + all_executing (tp_workers s)"

lemma worker_step_accounted:
  assumes "worker_step i s = Some (e, s')" "i < length (tp_workers s)" "accounted tr s"
  shows "accounted (tr @ [e]) s'"
  using assms(1)
proof (cases rule: worker_stepE)
qed (use assms(3) all_executing_update [OF assms(2)] in
      \<open>simp_all add: accounted_def set_defs add.assoc\<close>)

lemma waiter_step_accounted:
  assumes "waiter_step j s = Some (e, s')" "accounted tr s"
  shows "accounted (tr @ [e]) s'"
  using assms(1)
  by (cases rule: waiter_stepE) (use assms(2) in \<open>simp_all add: accounted_def set_defs\<close>)

lemma internal_accounted:
  assumes "pool_internal s e s'" "accounted tr s"
  shows "accounted (tr @ [e]) s'"
  using assms
proof (induction rule: pool_internal.induct)
  case (pool_notify_one s i)
  then show ?case using all_executing_update [OF pool_notify_one.hyps(2), of WLock]
    by (simp add: accounted_def set_defs)
next
  case (pool_notify_none s)
  then show ?case by (simp add: accounted_def)
qed (auto intro: worker_step_accounted waiter_step_accounted)

lemma step_accounted:
  assumes "pool_step s e s'" "accounted tr s"
  shows "accounted (tr @ [e]) s'"
  using assms
proof (induction rule: pool_step.induct)
  case (pool_spurious_worker i s)
  then show ?case using all_executing_update [OF pool_spurious_worker.hyps(1), of WLock]
    by (simp add: accounted_def set_defs)
next
  case (pool_int s e s')
  then show ?case by (rule internal_accounted)
qed (auto simp: accounted_def pool_push_def dtor_step_def set_defs split: if_splits dtor_pc.splits)

lemma internal_lengths:
  "pool_internal s e s' \<Longrightarrow> length (tp_workers s') = length (tp_workers s)
     \<and> length (tp_waiters s') = length (tp_waiters s) \<and> tp_stop s' = tp_stop s"
  by (induction rule: pool_internal.induct)
     (auto elim!: worker_stepE waiter_stepE simp: set_defs)

lemma step_lengths: "pool_step s e s' \<Longrightarrow> length (tp_workers s') = length (tp_workers s)"
  by (induction rule: pool_step.induct)
     (auto dest: internal_lengths simp: pool_push_def dtor_step_def set_defs
       split: if_splits dtor_pc.splits)

lemma new_pool_ok: "pool_ok (ThreadPool_new n k) \<and> accounted [] (ThreadPool_new n k)"
proof -
  have "holders (replicate n WTest) = 0" "actives (replicate n WTest) = 0"
    "all_executing (replicate n WTest) = {#}"
    by (induction n; simp add: holders_def actives_def all_executing_def)+
  moreover have "waiter_holders (replicate k WaReturned) = 0"
    by (induction k) (simp_all add: waiter_holders_def)
  ultimately show ?thesis
    by (simp add: ThreadPool_new_def pool_ok_def mutex_ok_def active_ok_def wakeups_ok_def stop_ok_def
        accounted_def)
qed

lemma pool_exec_ok:
  "pool_exec n k tr s \<Longrightarrow> pool_ok s \<and> accounted tr s \<and> length (tp_workers s) = n"
proof (induction rule: pool_exec.induct)
  case exec_new
  then show ?case using new_pool_ok by (auto simp: ThreadPool_new_def)
next
  case (exec_step tr s e s')
  then show ?case using pool_step_ok step_accounted step_lengths by metis
qed

text \<open>
  Property C12. In every execution of the pool, under any interleaving of its workers, clients and
  destructor: the tasks handed to workers, followed by the queue, are exactly the submitted tasks in
  the order of submission, so each runs at most once, in FIFO order, and none is lost; what was
  started and is not finished is being executed by a worker; the counter \<open>active_tasks_\<close> is the
  number of workers between taking a task and reporting it, which never exceeds the number of
  workers; and at most one thread holds the mutex.
\<close>

theorem ThreadPool_runs_tasks_once:
  assumes "pool_exec num_threads callers tr s"
  shows "submitted tr = started tr @ tp_tasks s
         \<and> mset (started tr) = mset (finished tr) + all_executing (tp_workers s)
         \<and> tp_active_tasks s = actives (tp_workers s) \<and> tp_active_tasks s \<le> num_threads
         \<and> holders (tp_workers s) + waiter_holders (tp_waiters s) = of_bool (tp_mutex s)"
proof -
  note ok = pool_exec_ok [OF assms]
  have "actives ws \<le> length ws" for ws :: "'a worker_pc list"
    by (induction ws) (auto simp: actives_def)
  from this [of "tp_workers s"] ok show ?thesis
    by (simp add: pool_ok_def accounted_def active_ok_def mutex_ok_def)
qed

lemma actives_zero_executing: "actives ws = 0 \<Longrightarrow> all_executing ws = {#}"
proof (induction ws)
  case (Cons w ws)
  then show ?case by (cases w) (simp_all add: actives_def all_executing_def)
qed (simp add: all_executing_def)

lemma WaitDone_quiet: "pool_step s (WaitDone j) s' \<Longrightarrow> quiet s"
proof (induction s "WaitDone j :: 'a pool_event" s' rule: pool_step.induct)
  case (pool_int s s')
  then show ?case
    by (induction s "WaitDone j :: 'a pool_event" s' rule: pool_internal.induct)
       (auto elim: worker_stepE waiter_stepE)
qed

text \<open>
  When a call of \<open>WaitAll\<close> returns, every task submitted up to then has run to its end.
\<close>

theorem WaitAll_waits_for_all:
  assumes "pool_exec num_threads callers tr s" "pool_step s (WaitDone j) s'"
  shows "mset (finished tr) = mset (submitted tr) \<and> started tr = submitted tr"
proof -
  note ok = pool_exec_ok [OF assms(1)]
  from WaitDone_quiet [OF assms(2)] ok have "tp_tasks s = []" "actives (tp_workers s) = 0"
    by (auto simp: quiet_def pool_ok_def active_ok_def)
  with ok actives_zero_executing [of "tp_workers s"] show ?thesis by (simp add: accounted_def)
qed

section \<open>Termination\<close>

text \<open>
  How many internal steps a state can still make, by the position of each thread, the queue and the
  outstanding notifications; \<open>k\<close> callers can be woken by a finished task.
\<close>

fun worker_weight :: "nat \<Rightarrow> 'a worker_pc \<Rightarrow> nat" where
  "worker_weight k WAsleep = 0"
| "worker_weight k WExited = 0"
| "worker_weight k WBlock = 1"
| "worker_weight k WPred = 2"
| "worker_weight k WLock = 3"
| "worker_weight k WTest = 4"
| "worker_weight k WNotify = 5 + 3 * k"
| "worker_weight k (WDone t) = 6 + 3 * k"
| "worker_weight k (WExec t) = 7 + 3 * k"

fun waiter_weight :: "waiter_pc \<Rightarrow> nat" where
  "waiter_weight WaReturned = 0"
| "waiter_weight WaAsleep = 0"
| "waiter_weight WaBlock = 1"
| "waiter_weight WaPred = 2"
| "waiter_weight WaLock = 3"

definition pool_measure :: "'a thread_pool \<Rightarrow> nat" where
  "pool_measure s =
     sum_list (map (worker_weight (length (tp_waiters s))) (tp_workers s))
     + sum_list (map waiter_weight (tp_waiters s))
     + (6 + 3 * length (tp_waiters s)) * length (tp_tasks s) + 4 * tp_notifies s"

lemma waiter_weight_wake:
  "sum_list (map waiter_weight (map wake_waiter us)) \<le> sum_list (map waiter_weight us) + 3 * length us"
proof (induction us)
  case (Cons u us)
  then show ?case by (cases u) (simp_all add: wake_waiter_def)
qed simp

lemma internal_decreases:
  assumes "pool_internal s e s'"
  shows "pool_measure s' < pool_measure s"
  using assms
proof (induction rule: pool_internal.induct)
  case (pool_worker i s e s')
  let ?f = "worker_weight (length (tp_waiters s)) :: 'a worker_pc \<Rightarrow> nat"
  note upd = sum_list_map_update_nat [OF pool_worker.hyps(1), of ?f]
    sum_list_nth_le [OF pool_worker.hyps(1), of ?f]
  show ?case using pool_worker.hyps(2)
  proof (cases rule: worker_stepE)
    case notify
    then show ?thesis using upd waiter_weight_wake [of "tp_waiters s"]
      by (simp add: pool_measure_def set_defs)
  qed (use upd in \<open>simp_all add: pool_measure_def set_defs\<close>)
next
  case (pool_waiter j s e s')
  note upd = sum_list_map_update_nat [OF pool_waiter.hyps(1), of waiter_weight]
    sum_list_nth_le [OF pool_waiter.hyps(1), of waiter_weight]
  show ?case using pool_waiter.hyps(2)
    by (cases rule: waiter_stepE) (use upd in \<open>simp_all add: pool_measure_def set_defs\<close>)
next
  case (pool_notify_one s i)
  let ?f = "worker_weight (length (tp_waiters s)) :: 'a worker_pc \<Rightarrow> nat"
  show ?case using pool_notify_one sum_list_map_update_nat [OF pool_notify_one.hyps(2), of ?f]
    by (simp add: pool_measure_def set_defs)
qed (simp add: pool_measure_def)

inductive pool_internals :: "'a thread_pool \<Rightarrow> 'a pool_event list \<Rightarrow> 'a thread_pool \<Rightarrow> bool" where
  internals_done: "pool_internals s [] s"
| internals_step: "pool_internals s es s' \<Longrightarrow> pool_internal s' e s''
    \<Longrightarrow> pool_internals s (es @ [e]) s''"

lemma pool_internals_measure:
  "pool_internals s es s' \<Longrightarrow> length es + pool_measure s' \<le> pool_measure s"
  by (induction rule: pool_internals.induct) (auto dest: internal_decreases)

lemma pool_internals_exec:
  "pool_internals s es s' \<Longrightarrow> pool_exec n k tr s \<Longrightarrow> pool_exec n k (tr @ es) s'"
  by (induction rule: pool_internals.induct)
     (simp_all add: exec_step pool_int flip: append_assoc)

lemma pool_internals_stop: "pool_internals s es s' \<Longrightarrow> tp_stop s' = tp_stop s"
  by (induction rule: pool_internals.induct) (auto dest: internal_lengths)

lemma internals_no_submit: "pool_internals s es s' \<Longrightarrow> submitted es = []"
proof (induction rule: pool_internals.induct)
  case (internals_step s es s' e s'')
  then show ?case
    by (auto elim!: pool_internal.cases worker_stepE waiter_stepE)
qed simp

text \<open>A state in which no internal step is possible, the pool not being destroyed.\<close>

definition stuck :: "'a thread_pool \<Rightarrow> bool" where
  "stuck s \<longleftrightarrow> (\<forall>e s'. \<not> pool_internal s e s')"

lemma stuck_worker: "stuck s \<Longrightarrow> i < length (tp_workers s) \<Longrightarrow> worker_step i s = None"
  using pool_worker unfolding stuck_def by (metis option.exhaust surj_pair)

lemma stuck_waiter: "stuck s \<Longrightarrow> j < length (tp_waiters s) \<Longrightarrow> waiter_step j s = None"
  using pool_waiter unfolding stuck_def by (metis option.exhaust surj_pair)

lemma holders_pos: "0 < holders ws \<longleftrightarrow> (\<exists>pc \<in> set ws. holds_mutex pc)"
  by (induction ws) (auto simp: holders_def)

lemma waiter_holders_pos: "0 < waiter_holders us \<longleftrightarrow> (\<exists>u \<in> set us. waiter_holds u)"
  by (induction us) (auto simp: waiter_holders_def)

lemma worker_step_None:
  assumes "worker_step i s = None"
  shows "tp_workers s ! i = WAsleep \<or> tp_workers s ! i = WExited
         \<or> tp_mutex s \<and> \<not> holds_mutex (tp_workers s ! i)"
  using assms
  by (cases "tp_workers s ! i") (simp_all add: worker_step_def split: if_splits list.splits)

lemma waiter_step_None:
  assumes "waiter_step j s = None"
  shows "tp_waiters s ! j = WaAsleep \<or> tp_waiters s ! j = WaReturned
         \<or> tp_mutex s \<and> \<not> waiter_holds (tp_waiters s ! j)"
  using assms
  by (cases "tp_waiters s ! j") (simp_all add: waiter_step_def split: if_splits)

lemma stuck_threads:
  assumes "stuck s"
  shows "pc \<in> set (tp_workers s)
         \<Longrightarrow> pc = WAsleep \<or> pc = WExited \<or> tp_mutex s \<and> \<not> holds_mutex pc"
    and "u \<in> set (tp_waiters s)
         \<Longrightarrow> u = WaAsleep \<or> u = WaReturned \<or> tp_mutex s \<and> \<not> waiter_holds u"
  using worker_step_None [OF stuck_worker [OF assms]] waiter_step_None [OF stuck_waiter [OF assms]]
  by (auto simp only: in_set_conv_nth)

lemma stuck_mutex_free:
  assumes "stuck s" "pool_ok s"
  shows "\<not> tp_mutex s"
proof
  assume "tp_mutex s"
  then have "0 < holders (tp_workers s) \<or> 0 < waiter_holders (tp_waiters s)"
    using assms(2) by (auto simp: pool_ok_def mutex_ok_def)
  then show False using stuck_threads [OF assms(1)]
    unfolding holders_pos waiter_holders_pos by (metis holds_mutex.simps waiter_holds.simps)
qed

lemma stuck_workers:
  "stuck s \<Longrightarrow> pool_ok s \<Longrightarrow> pc \<in> set (tp_workers s) \<Longrightarrow> pc = WAsleep \<or> pc = WExited"
  using stuck_threads(1) stuck_mutex_free by blast

lemma stuck_waiters:
  "stuck s \<Longrightarrow> pool_ok s \<Longrightarrow> u \<in> set (tp_waiters s) \<Longrightarrow> u = WaAsleep \<or> u = WaReturned"
  using stuck_threads(2) stuck_mutex_free by blast

lemma stuck_quiet:
  assumes "stuck s" "pool_ok s" "\<not> tp_stop s" "tp_workers s \<noteq> []"
  shows "quiet s \<and> set (tp_workers s) = {WAsleep} \<and> set (tp_waiters s) \<subseteq> {WaReturned}"
proof -
  have wak: "wakeups_ok s" and act: "active_ok s" using assms(2) by (auto simp: pool_ok_def)
  have asleep: "set (tp_workers s) = {WAsleep}"
    using stuck_workers [OF assms(1,2)] wak assms(3,4) unfolding wakeups_ok_def
    by (cases "tp_workers s") auto
  then obtain i where i: "i < length (tp_workers s)" "tp_workers s ! i = WAsleep"
    by (metis in_set_conv_nth singletonI)
  have "tp_notifies s = 0"
    using pool_notify_one [OF _ i] assms(1) unfolding stuck_def by blast
  with wak asleep assms(4) have "tp_tasks s = []" by (auto simp: wakeups_ok_def)
  moreover have "actives (tp_workers s) = 0"
    using asleep by (auto simp: actives_def)
  ultimately have q: "quiet s" using act by (simp add: quiet_def active_ok_def)
  have "WaAsleep \<notin> set (tp_waiters s)" using wak q asleep by (auto simp: wakeups_ok_def)
  with stuck_waiters [OF assms(1,2)] q asleep show ?thesis by blast
qed

text \<open>
  Property C20. The pool drains. From any reachable state of a pool with at least one worker that is not
  being destroyed, when no more tasks are submitted and no thread is woken without cause, the
  workers and the callers of \<open>WaitAll\<close> make at most \<open>pool_measure s\<close> further steps, whatever the
  scheduling; and when none can move, every submitted task has finished, the queue is empty, all
  workers sleep and every call of \<open>WaitAll\<close> has returned. So no wake-up is lost and no thread is
  deadlocked.
\<close>

theorem ThreadPool_drains:
  assumes "pool_exec num_threads callers tr s" "0 < num_threads" "\<not> tp_stop s"
    and "pool_internals s es s'"
  shows "length es \<le> pool_measure s
         \<and> (stuck s' \<longrightarrow>
              mset (finished (tr @ es)) = mset (submitted tr) \<and> tp_tasks s' = []
              \<and> set (tp_workers s') = {WAsleep} \<and> set (tp_waiters s') \<subseteq> {WaReturned})"
proof (rule conjI)
  show "length es \<le> pool_measure s" using pool_internals_measure [OF assms(4)] by simp
  show "stuck s' \<longrightarrow>
          mset (finished (tr @ es)) = mset (submitted tr) \<and> tp_tasks s' = []
          \<and> set (tp_workers s') = {WAsleep} \<and> set (tp_waiters s') \<subseteq> {WaReturned}"
  proof
    assume st: "stuck s'"
    note ok = pool_exec_ok [OF pool_internals_exec [OF assms(4,1)]]
    have "tp_workers s' \<noteq> []" using ok assms(2) by auto
    with stuck_quiet [OF st] ok pool_internals_stop [OF assms(4)] assms(3)
    have q: "quiet s'" "set (tp_workers s') = {WAsleep}" "set (tp_waiters s') \<subseteq> {WaReturned}"
      by auto
    then have "tp_tasks s' = []" "actives (tp_workers s') = 0"
      using ok by (auto simp: quiet_def pool_ok_def active_ok_def)
    with ok actives_zero_executing [of "tp_workers s'"] internals_no_submit [OF assms(4)] q
    show "mset (finished (tr @ es)) = mset (submitted tr) \<and> tp_tasks s' = []
          \<and> set (tp_workers s') = {WAsleep} \<and> set (tp_waiters s') \<subseteq> {WaReturned}"
      by (simp add: accounted_def)
  qed
qed

section \<open>The destructor\<close>

text \<open>Executions as a chain of steps, for concrete ones.\<close>

lemma exec_snoc:
  "pool_exec n k tr s \<Longrightarrow> pool_step s e s' \<Longrightarrow> tr' = tr @ [e] \<Longrightarrow> pool_exec n k tr' s'"
  by (simp add: exec_step)

lemma worker_exec:
  "pool_exec n k tr s \<Longrightarrow> worker_step i s = Some (e, s') \<Longrightarrow> i < length (tp_workers s)
   \<Longrightarrow> pool_exec n k (tr @ [e]) s'"
  by (blast intro: exec_step pool_int pool_worker)

lemma dtor_exec: "pool_exec n k tr s \<Longrightarrow> dtor_step s = Some s' \<Longrightarrow> pool_exec n k (tr @ [Tau]) s'"
  by (blast intro: exec_step pool_dtor)

definition one_worker :: "'a worker_pc \<Rightarrow> 'a list \<Rightarrow> bool \<Rightarrow> dtor_pc \<Rightarrow> 'a thread_pool" where
  "one_worker pc tasks locked d =
     \<lparr>tp_workers = [pc], tp_tasks = tasks, tp_mutex = locked, tp_stop = (d \<noteq> DtorIdle),
      tp_active_tasks = 0, tp_notifies = length tasks, tp_waiters = [], tp_dtor = d\<rparr>"

lemma one_worker_new: "ThreadPool_new 1 0 = one_worker WTest [] False DtorIdle"
  by (simp add: ThreadPool_new_def one_worker_def)

lemma one_worker_length [simp]: "length (tp_workers (one_worker pc ts l d)) = 1"
  by (simp add: one_worker_def)

lemma one_worker_steps:
  "worker_step 0 (one_worker WTest ts l DtorIdle) = Some (Tau, one_worker WLock ts l DtorIdle)"
  "worker_step 0 (one_worker WTest ts l DtorStopped) = Some (Tau, one_worker WExited ts l DtorStopped)"
  "worker_step 0 (one_worker WLock ts False d) = Some (Tau, one_worker WPred ts True d)"
  "worker_step 0 (one_worker WPred [] True DtorIdle) = Some (Tau, one_worker WBlock [] True DtorIdle)"
  "worker_step 0 (one_worker WBlock ts True d) = Some (Tau, one_worker WAsleep ts False d)"
  "dtor_step (one_worker pc ts l DtorIdle) = Some (one_worker pc ts l DtorStopped)"
  "dtor_step (one_worker WBlock ts l DtorStopped) = Some (one_worker WBlock ts l DtorJoining)"
  "dtor_step (one_worker WExited ts l DtorStopped) = Some (one_worker WExited ts l DtorJoining)"
  "dtor_step (one_worker WExited ts l DtorJoining) = Some (one_worker WExited ts l DtorDone)"
  "pool_push t (one_worker pc [] False d) = Some (one_worker pc [t] False d)"
  by (simp_all add: one_worker_def worker_step_def dtor_step_def set_worker_def pool_push_def
      wake_worker_def)

lemma lost_stop_exec:
  "\<exists>tr. pool_exec 1 0 tr (one_worker WAsleep [] False DtorJoining)"
proof -
  note e0 = exec_new [of 1 0, unfolded one_worker_new]
  note e1 = worker_exec [OF e0 one_worker_steps(1), unfolded one_worker_length, OF zero_less_one]
  note e2 = worker_exec [OF e1 one_worker_steps(3), unfolded one_worker_length, OF zero_less_one]
  note e3 = worker_exec [OF e2 one_worker_steps(4), unfolded one_worker_length, OF zero_less_one]
  note e4 = dtor_exec [OF e3 one_worker_steps(6)]
  note e5 = dtor_exec [OF e4 one_worker_steps(7)]
  from worker_exec [OF e5 one_worker_steps(5), unfolded one_worker_length, OF zero_less_one]
  show ?thesis by blast
qed

lemma dropped_task_exec:
  "pool_exec 1 0 [Submitted t, Tau, Tau, Tau, Tau] (one_worker WExited [t] False DtorDone)"
proof -
  note e0 = exec_new [of 1 0, unfolded one_worker_new]
  have p: "pool_step (one_worker WTest [] False DtorIdle) (Submitted t)
             (one_worker WTest [t] False DtorIdle)"
    by (rule pool_submit) (rule one_worker_steps)
  note e1 = exec_step [OF e0 p]
  note e2 = dtor_exec [OF e1 one_worker_steps(6)]
  note e3 = worker_exec [OF e2 one_worker_steps(2), unfolded one_worker_length, OF zero_less_one]
  note e4 = dtor_exec [OF e3 one_worker_steps(8)]
  from dtor_exec [OF e4 one_worker_steps(9)] show ?thesis by simp
qed

lemma lost_stop_stuck:
  assumes "pool_step (one_worker WAsleep [] False DtorJoining) e s'"
  shows "(\<exists>t. e = Submitted t) \<or> (\<exists>i. e = Spurious i)"
  using assms
  by (auto elim!: pool_step.cases pool_internal.cases
      simp: one_worker_def worker_step_def dtor_step_def)

text \<open>
  Property C34. What the destructor does not guarantee, because it sets \<open>stop_\<close> and notifies without the
  mutex. It may hang: there is an execution in which the only worker has found the queue empty and
  blocks after the notification, and then nothing but a wake-up without cause can ever happen while
  the destructor waits for that worker. And it drops tasks: there is an execution in which the
  destructor ends although a submitted task was never started.
\<close>

theorem ThreadPool_destructor_flaws:
  "(\<exists>tr s. pool_exec 1 0 (tr :: 'a pool_event list) s \<and> tp_dtor s = DtorJoining
      \<and> (\<forall>e s'. pool_step s e s' \<longrightarrow> (\<exists>t. e = Submitted t) \<or> (\<exists>i. e = Spurious i)))
   \<and> (\<exists>tr s. pool_exec 1 0 tr s \<and> tp_dtor s = DtorDone
      \<and> (t :: 'a) \<in> set (submitted tr) \<and> t \<notin> set (started tr))"
proof (rule conjI)
  obtain tr where "pool_exec 1 0 (tr :: 'a pool_event list) (one_worker WAsleep [] False DtorJoining)"
    using lost_stop_exec by blast
  moreover have "tp_dtor (one_worker WAsleep [] False DtorJoining) = DtorJoining"
    by (simp add: one_worker_def)
  ultimately show "\<exists>tr s. pool_exec 1 0 (tr :: 'a pool_event list) s \<and> tp_dtor s = DtorJoining
      \<and> (\<forall>e s'. pool_step s e s' \<longrightarrow> (\<exists>t. e = Submitted t) \<or> (\<exists>i. e = Spurious i))"
    using lost_stop_stuck by blast
  show "\<exists>tr s. pool_exec 1 0 tr s \<and> tp_dtor s = DtorDone
      \<and> (t :: 'a) \<in> set (submitted tr) \<and> t \<notin> set (started tr)"
    using dropped_task_exec [of t] by (intro exI conjI) (assumption | simp add: one_worker_def)+
qed

section \<open>A schedule as a program, and witnesses\<close>

text \<open>An internal step named by the thread that makes it, so that a schedule can be run.\<close>

datatype move = WorkerMove nat | WaiterMove nat | NotifyMove nat | IdleNotify

definition internal_move :: "move \<Rightarrow> 'a thread_pool \<Rightarrow> ('a pool_event \<times> 'a thread_pool) option" where
  "internal_move mv s =
     (case mv of
        WorkerMove i \<Rightarrow> if i < length (tp_workers s) then worker_step i s else None
      | WaiterMove j \<Rightarrow> if j < length (tp_waiters s) then waiter_step j s else None
      | NotifyMove i \<Rightarrow>
          if 0 < tp_notifies s \<and> i < length (tp_workers s) \<and> tp_workers s ! i = WAsleep
          then Some (Tau, set_worker i WLock (s\<lparr>tp_notifies := tp_notifies s - 1\<rparr>)) else None
      | IdleNotify \<Rightarrow>
          if 0 < tp_notifies s \<and> WAsleep \<notin> set (tp_workers s)
          then Some (Tau, s\<lparr>tp_notifies := tp_notifies s - 1\<rparr>) else None)"

text \<open>The moves are exactly the internal steps.\<close>

lemma internal_iff_move: "pool_internal s e s' \<longleftrightarrow> (\<exists>mv. internal_move mv s = Some (e, s'))"
proof
  show "pool_internal s e s' \<Longrightarrow> \<exists>mv. internal_move mv s = Some (e, s')"
  proof (induction rule: pool_internal.induct)
    case (pool_worker i s e s')
    then show ?case by (intro exI [of _ "WorkerMove i"]) (simp add: internal_move_def)
  next
    case (pool_waiter j s e s')
    then show ?case by (intro exI [of _ "WaiterMove j"]) (simp add: internal_move_def)
  next
    case (pool_notify_one s i)
    then show ?case by (intro exI [of _ "NotifyMove i"]) (simp add: internal_move_def)
  next
    case (pool_notify_none s)
    then show ?case by (intro exI [of _ IdleNotify]) (simp add: internal_move_def)
  qed
next
  assume "\<exists>mv. internal_move mv s = Some (e, s')"
  then obtain mv where "internal_move mv s = Some (e, s')" by blast
  then show "pool_internal s e s'"
    by (cases mv) (auto simp: internal_move_def split: if_splits
        intro: pool_worker pool_waiter pool_notify_one [simplified] pool_notify_none [simplified])
qed

fun run_moves :: "move list \<Rightarrow> 'a thread_pool \<Rightarrow> ('a pool_event list \<times> 'a thread_pool) option" where
  "run_moves [] s = Some ([], s)"
| "run_moves (mv # mvs) s =
     (case internal_move mv s of
        None \<Rightarrow> None
      | Some (e, s') \<Rightarrow> map_option (\<lambda>(es, s''). (e # es, s'')) (run_moves mvs s'))"

lemma internals_first:
  assumes "pool_internals s' es s''" "pool_internal s e s'"
  shows "pool_internals s (e # es) s''"
  using assms
proof (induction rule: pool_internals.induct)
  case (internals_done s')
  from internals_step [OF pool_internals.internals_done internals_done] show ?case by simp
next
  case (internals_step s' es t e' t')
  from pool_internals.internals_step [OF internals_step.IH [OF internals_step.prems]
      internals_step.hyps(2)]
  show ?case by simp
qed

lemma run_moves_internals: "run_moves mvs s = Some (es, s') \<Longrightarrow> pool_internals s es s'"
proof (induction mvs arbitrary: s es)
  case (Cons mv mvs)
  then obtain e t es' where "internal_move mv s = Some (e, t)" "run_moves mvs t = Some (es', s')"
    "es = e # es'" by (auto split: option.splits)
  with Cons.IH internals_first internal_iff_move show ?case by metis
qed (simp add: internals_done)

definition small_pool :: "nat worker_pc \<Rightarrow> waiter_pc \<Rightarrow> nat list \<Rightarrow> bool \<Rightarrow> nat \<Rightarrow> nat \<Rightarrow> nat thread_pool" where
  "small_pool pc u tasks locked active n =
     \<lparr>tp_workers = [pc], tp_tasks = tasks, tp_mutex = locked, tp_stop = False,
      tp_active_tasks = active, tp_notifies = n, tp_waiters = [u], tp_dtor = DtorIdle\<rparr>"

lemma small_exec: "pool_exec 1 1 [Submitted 5, WaitCalled 0] (small_pool WTest WaLock [5] False 0 1)"
proof -
  have e0: "pool_exec 1 1 [] (small_pool WTest WaReturned [] False 0 0)"
    using exec_new [of 1 1] by (simp add: ThreadPool_new_def small_pool_def)
  have "pool_step (small_pool WTest WaReturned [] False 0 0) (Submitted 5)
          (small_pool WTest WaReturned [5] False 0 1)"
    by (rule pool_submit) (simp add: pool_push_def small_pool_def)
  from exec_step [OF e0 this]
  have e1: "pool_exec 1 1 [Submitted 5] (small_pool WTest WaReturned [5] False 0 1)" by simp
  have "pool_step (small_pool WTest WaReturned [5] False 0 1) (WaitCalled 0)
          (small_pool WTest WaLock [5] False 0 1)"
    using pool_wait [of 0 "small_pool WTest WaReturned [5] False 0 1"]
    by (simp add: small_pool_def set_waiter_def)
  from exec_step [OF e1 this] show ?thesis by simp
qed

text \<open>The caller blocks first; the worker runs the task and wakes it; then the worker goes to sleep.\<close>

definition small_moves :: "move list" where
  "small_moves =
     [IdleNotify, WaiterMove 0, WaiterMove 0, WaiterMove 0] @ replicate 6 (WorkerMove 0)
     @ [WaiterMove 0]"

lemma small_run:
  "run_moves small_moves (small_pool WTest WaLock [5] False 0 1) =
     Some ([Tau, Tau, Tau, Tau, Tau, Tau, Started 0 5, Finished 0 5, Tau, Tau, Tau],
           small_pool WTest WaPred [] True 0 0)"
  by (simp add: small_moves_def numeral_eq_Suc internal_move_def worker_step_def waiter_step_def
      set_worker_def set_waiter_def small_pool_def wake_waiter_def)

lemma small_run_end:
  "run_moves (WaiterMove 0 # replicate 4 (WorkerMove 0)) (small_pool WTest WaPred [] True 0 0) =
     Some ([WaitDone 0, Tau, Tau, Tau, Tau], small_pool WAsleep WaReturned [] False 0 0)"
  by (simp add: numeral_eq_Suc internal_move_def worker_step_def waiter_step_def
      set_worker_def set_waiter_def small_pool_def)

lemma small_exec_waited:
  "pool_exec 1 1 [Submitted 5, WaitCalled 0, Tau, Tau, Tau, Tau, Tau, Tau, Started 0 5, Finished 0 5,
                  Tau, Tau, Tau] (small_pool WTest WaPred [] True 0 0)"
  using pool_internals_exec [OF run_moves_internals [OF small_run] small_exec] by simp

lemma ThreadPool_runs_tasks_once_witness:
  "\<exists>tr. pool_exec 1 1 tr (small_pool WTest WaPred [] True 0 0) \<and> submitted tr = [5]
        \<and> submitted tr = started tr"
  using small_exec_waited ThreadPool_runs_tasks_once [OF small_exec_waited]
  by (intro exI conjI) (assumption | simp add: small_pool_def)+

lemma WaitAll_waits_for_all_witness:
  "let tr = [Submitted 5, WaitCalled 0, Tau, Tau, Tau, Tau, Tau, Tau, Started 0 5, Finished 0 (5 :: nat),
             Tau, Tau, Tau]
   in pool_exec 1 1 tr (small_pool WTest WaPred [] True 0 0)
      \<and> pool_step (small_pool WTest WaPred [] True 0 0) (WaitDone 0)
          (small_pool WTest WaReturned [] False 0 0)
      \<and> mset (finished tr) = mset (submitted tr)"
proof -
  have "pool_step (small_pool WTest WaPred [] True 0 0) (WaitDone 0)
          (small_pool WTest WaReturned [] False 0 0)"
    by (rule pool_int, rule pool_waiter [of 0])
       (simp_all add: small_pool_def waiter_step_def set_waiter_def)
  from this WaitAll_waits_for_all [OF small_exec_waited this] small_exec_waited show ?thesis
    unfolding Let_def by blast
qed

lemma small_stuck: "stuck (small_pool WAsleep WaReturned [] False 0 0)"
  by (auto simp: stuck_def small_pool_def worker_step_def waiter_step_def elim!: pool_internal.cases)

lemma ThreadPool_drains_witness:
  "\<exists>es. pool_internals (small_pool WTest WaPred [] True 0 0) es
           (small_pool WAsleep WaReturned [] False 0 0)
        \<and> length es = 5 \<and> 5 \<le> pool_measure (small_pool WTest WaPred [] True 0 0)
        \<and> stuck (small_pool WAsleep WaReturned [] False 0 0)"
proof -
  have "\<not> tp_stop (small_pool WTest WaPred [] True 0 0)" by (simp add: small_pool_def)
  note d = ThreadPool_drains [OF small_exec_waited zero_less_one this
      run_moves_internals [OF small_run_end]]
  show ?thesis
    using run_moves_internals [OF small_run_end] d small_stuck
    by (intro exI conjI) (assumption | simp)+
qed

theorem ThreadPool_destructor_flaws_witness:
  "(\<exists>tr s. pool_exec 1 0 (tr :: nat pool_event list) s \<and> tp_dtor s = DtorJoining
      \<and> {e. \<exists>s'. pool_step s e s'} \<subseteq> range Submitted \<union> range Spurious)
   \<and> (\<exists>tr s. pool_exec 1 0 tr s \<and> tp_dtor s = DtorDone
      \<and> (7 :: nat) \<in> set (submitted tr) \<and> 7 \<notin> set (started tr))"
proof (rule conjI)
  show "\<exists>tr s. pool_exec 1 0 (tr :: nat pool_event list) s \<and> tp_dtor s = DtorJoining
      \<and> {e. \<exists>s'. pool_step s e s'} \<subseteq> range Submitted \<union> range Spurious"
    using ThreadPool_destructor_flaws [of 7, THEN conjunct1] by blast
  show "\<exists>tr s. pool_exec 1 0 tr s \<and> tp_dtor s = DtorDone
      \<and> (7 :: nat) \<in> set (submitted tr) \<and> 7 \<notin> set (started tr)"
    by (rule ThreadPool_destructor_flaws [THEN conjunct2])
qed

end
