(* ===== verification/Media_Codec.thy ===== *)
theory Media_Codec
  imports Rtcom_Types
begin

text \<open>
  The FFmpeg wrappers that encode and decode media (\<open>media/media_encoder.h\<close>, \<open>media_encoder.cpp\<close>,
  \<open>media_decoder.h\<close>, \<open>media_decoder.cpp\<close>). FFmpeg is not modelled: what its functions answer, and the
  buffers it allocates, are arguments of the operations. What the wrappers do themselves is: the
  ownership of context, frame and packet, the guards, and every copy between the caller's buffers and
  the planes of a frame, with an access out of bounds or through a null pointer as \<open>None\<close>. The allocations of the frame and the packet objects
  themselves are taken to succeed, and line sizes to be non-negative.
\<close>

section \<open>Frames\<close>

text \<open>
  An \<open>AVFrame\<close>: \<open>None\<close> is a null data pointer. \<open>av_frame_unref\<close> releases the buffers and resets the
  fields, so afterwards the frame has no planes.
\<close>

record av_frame =
  av_planes :: "bytes option list"
  av_pts :: u64
  av_nb_samples :: int

definition av_frame_empty :: av_frame where
  "av_frame_empty = \<lparr>av_planes = [None, None, None], av_pts = 0, av_nb_samples = 0\<rparr>"

text \<open>\<open>memcpy\<close> of the given bytes to the start of plane \<open>i\<close>.\<close>

definition copy_to_plane :: "nat \<Rightarrow> bytes \<Rightarrow> av_frame \<Rightarrow> av_frame option" where
  "copy_to_plane i bs f =
     (case av_planes f ! i of
        None \<Rightarrow> None
      | Some p \<Rightarrow>
          map_option (\<lambda>p'. f\<lparr>av_planes := (av_planes f)[i := Some p']\<rparr>) (wr_block p 0 bs))"

definition int_mult :: "int \<Rightarrow> int \<Rightarrow> int option" where
  "int_mult a b = (if - (2 ^ 31) \<le> a * b \<and> a * b < 2 ^ 31 then Some (a * b) else None)"

definition to_size :: "int \<Rightarrow> nat" where
  "to_size x = nat (x mod 2 ^ 64)"

definition is_audio :: "codec_type \<Rightarrow> bool" where
  "is_audio c \<longleftrightarrow> c = kAudioAAC \<or> c = kAudioPCMU \<or> c = kAudioPCMA"

section \<open>The encoder\<close>

record media_encoder =
  me_codec_type :: codec_type
  me_ctx :: bool
  me_frame :: "av_frame option"
  me_pkt :: bool
  me_sample_rate :: int
  me_channels :: int
  me_width :: int
  me_height :: int
  me_fps :: int
  me_pts :: u64

definition MediaEncoder_new :: "codec_type \<Rightarrow> media_encoder" where
  "MediaEncoder_new c =
     \<lparr>me_codec_type = c, me_ctx = False, me_frame = None, me_pkt = False, me_sample_rate = 44100,
      me_channels = 1, me_width = 640, me_height = 480, me_fps = 30, me_pts = 0\<rparr>"

definition MediaEncoder_Close :: "media_encoder \<Rightarrow> media_encoder" where
  "MediaEncoder_Close e = e\<lparr>me_pkt := False, me_frame := None, me_ctx := False\<rparr>"

text \<open>
  What FFmpeg answers to \<open>Initialize\<close>: whether the codec is found and the context allocated, the result
  of \<open>avcodec_open2\<close>, and the three planes \<open>av_frame_get_buffer\<close> allocates for a video frame (null
  when it fails, which is not checked).
\<close>

record codec_setup =
  cs_found :: bool
  cs_allocated :: bool
  cs_open :: int
  cs_planes :: "bytes option list"

definition MediaEncoder_Initialize ::
  "codec_setup \<Rightarrow> int \<Rightarrow> int \<Rightarrow> int \<Rightarrow> int \<Rightarrow> int \<Rightarrow> media_encoder \<Rightarrow> bool \<times> media_encoder" where
  "MediaEncoder_Initialize av sample_rate channels width height fps e =
     (let e1 = e\<lparr>me_sample_rate := sample_rate, me_channels := channels, me_width := width,
                 me_height := height, me_fps := fps\<rparr> in
      if \<not> cs_found av then (False, e1)
      else if \<not> cs_allocated av then (False, e1\<lparr>me_ctx := False\<rparr>)
      else if cs_open av < 0 then (False, MediaEncoder_Close e1)
      else (True,
            e1\<lparr>me_ctx := True,
               me_frame := Some (if is_audio (me_codec_type e) then av_frame_empty
                                 else av_frame_empty\<lparr>av_planes := cs_planes av\<rparr>),
               me_pkt := True, me_pts := 0\<rparr>))"

text \<open>
  The common end of the encoding operations: \<open>send\<close> is what \<open>avcodec_send_frame\<close> answers and
  \<open>received\<close> the packet of \<open>avcodec_receive_packet\<close>, if any. The result has the answer of the
  operation, the bytes assigned to \<open>encoded\<close>, and the encoder.
\<close>

definition submit_frame ::
  "int \<Rightarrow> bytes option \<Rightarrow> av_frame \<Rightarrow> media_encoder \<Rightarrow> bool \<times> bytes \<times> media_encoder" where
  "submit_frame send received f e =
     (if send < 0 then (False, [], e\<lparr>me_frame := Some f\<rparr>)
      else let e1 = e\<lparr>me_frame := Some av_frame_empty\<rparr> in
           (case received of
              Some data \<Rightarrow> (True, data, e1)
            | None \<Rightarrow> (False, [], e1)))"

text \<open>
  \<open>EncodeAudio\<close>: \<open>buf\<close> is the data pointer after \<open>av_frame_get_buffer\<close>; the caller's samples are
  given as the bytes of its array.
\<close>

definition EncodeAudio ::
  "bytes option \<Rightarrow> int \<Rightarrow> bytes option \<Rightarrow> bytes \<Rightarrow> nat \<Rightarrow> media_encoder
   \<Rightarrow> (bool \<times> bytes \<times> media_encoder) option" where
  "EncodeAudio buf send received pcm sample_count e =
     (if \<not> me_ctx e \<or> \<not> me_pkt e then Some (False, [], e)
      else (case me_frame e of
              None \<Rightarrow> Some (False, [], e)
            | Some f \<Rightarrow>
                do {
                  data \<leftarrow> rd_block pcm 0 (sample_count * to_size (me_channels e) * 2 mod 2 ^ 64);
                  f1 \<leftarrow> copy_to_plane 0 data (f\<lparr>av_nb_samples := sint (of_nat sample_count :: u32),
                                               av_planes := [buf, None, None]\<rparr>);
                  Some (submit_frame send received (f1\<lparr>av_pts := me_pts e\<rparr>)
                          (e\<lparr>me_pts := me_pts e + 1\<rparr>))
                }))"

text \<open>
  \<open>EncodeVideo\<close>: the copies of the luminance and, as far as the input reaches, of the two chrominance
  planes, then the common end.
\<close>

definition fill_video_planes :: "nat \<Rightarrow> nat \<Rightarrow> bytes \<Rightarrow> av_frame \<Rightarrow> av_frame option" where
  "fill_video_planes y_size uv_size yuv f =
     do {
       y \<leftarrow> rd_block yuv 0 (min y_size (length yuv));
       f1 \<leftarrow> copy_to_plane 0 y f;
       (if y_size < length yuv
        then do {
          u \<leftarrow> rd_block yuv y_size (min uv_size (length yuv - y_size));
          f2 \<leftarrow> copy_to_plane 1 u f1;
          (if y_size + uv_size < length yuv
           then do {
             v \<leftarrow> rd_block yuv (y_size + uv_size) (min uv_size (length yuv - y_size - uv_size));
             copy_to_plane 2 v f2
           }
           else Some f2)
        }
        else Some f1)
     }"

definition video_frame :: "bytes \<Rightarrow> media_encoder \<Rightarrow> av_frame \<Rightarrow> av_frame option" where
  "video_frame yuv e f =
     do {
       y_size \<leftarrow> int_mult (me_width e) (me_height e);
       f1 \<leftarrow> fill_video_planes (to_size y_size) (to_size (y_size sdiv 4)) yuv f;
       Some (f1\<lparr>av_pts := me_pts e\<rparr>)
     }"

definition EncodeVideo ::
  "int \<Rightarrow> bytes option \<Rightarrow> bytes \<Rightarrow> media_encoder \<Rightarrow> (bool \<times> bytes \<times> media_encoder) option" where
  "EncodeVideo send received yuv e =
     (if \<not> me_ctx e \<or> \<not> me_pkt e then Some (False, [], e)
      else (case me_frame e of
              None \<Rightarrow> Some (False, [], e)
            | Some f \<Rightarrow>
                map_option (\<lambda>f1. submit_frame send received f1 (e\<lparr>me_pts := me_pts e + 1\<rparr>))
                  (video_frame yuv e f)))"

definition MediaEncoder_Flush ::
  "int \<Rightarrow> bytes option \<Rightarrow> media_encoder \<Rightarrow> bool \<times> bytes" where
  "MediaEncoder_Flush send received e =
     (if \<not> me_ctx e \<or> \<not> me_pkt e then (False, [])
      else if send < 0 then (False, [])
      else (case received of Some data \<Rightarrow> (True, data) | None \<Rightarrow> (False, [])))"

section \<open>The decoder\<close>

record media_decoder =
  md_codec_type :: codec_type
  md_ctx :: bool
  md_frame :: bool
  md_pkt :: bool
  md_initialized :: bool

definition MediaDecoder_new :: "codec_type \<Rightarrow> media_decoder" where
  "MediaDecoder_new c =
     \<lparr>md_codec_type = c, md_ctx = False, md_frame = False, md_pkt = False, md_initialized = False\<rparr>"

definition MediaDecoder_Close :: "media_decoder \<Rightarrow> media_decoder" where
  "MediaDecoder_Close d =
     d\<lparr>md_pkt := False, md_frame := False, md_ctx := False, md_initialized := False\<rparr>"

definition MediaDecoder_Initialize :: "codec_setup \<Rightarrow> media_decoder \<Rightarrow> bool \<times> media_decoder" where
  "MediaDecoder_Initialize av d =
     (if \<not> cs_found av then (False, d)
      else if \<not> cs_allocated av \<or> cs_open av < 0 then (False, MediaDecoder_Close d)
      else (True, d\<lparr>md_ctx := True, md_frame := True, md_pkt := True, md_initialized := True\<rparr>))"

text \<open>A decoded picture: its size, and for each plane its memory and the distance between two lines.\<close>

record av_picture =
  pic_width :: int
  pic_height :: int
  pic_planes :: "(bytes \<times> nat) list"

text \<open>The copy loops: \<open>n\<close> lines of \<open>w\<close> bytes, from line \<open>i\<close> on, into \<open>dst\<close> after \<open>off\<close>.\<close>

fun copy_lines :: "nat \<Rightarrow> nat \<Rightarrow> nat \<Rightarrow> nat \<Rightarrow> bytes \<times> nat \<Rightarrow> bytes \<Rightarrow> bytes option" where
  "copy_lines 0 i off w plane dst = Some dst"
| "copy_lines (Suc n) i off w plane dst =
     do {
       line \<leftarrow> rd_block (fst plane) (i * snd plane) w;
       dst' \<leftarrow> wr_block dst (off + i * w) line;
       copy_lines n (Suc i) off w plane dst'
     }"

definition resize :: "nat \<Rightarrow> bytes \<Rightarrow> bytes" where
  "resize n xs = take n xs @ replicate (n - length xs) 0"

definition pack_picture :: "bytes \<Rightarrow> av_picture \<Rightarrow> bytes option" where
  "pack_picture raw pic =
     do {
       y \<leftarrow> int_mult (pic_width pic) (pic_height pic);
       (if y < 0 \<or> 2 ^ 31 \<le> y + 2 * (y sdiv 4) then None
        else let w = nat (pic_width pic); h = nat (pic_height pic); uv = nat (y sdiv 4) in
        do {
          r1 \<leftarrow> copy_lines h 0 0 w (pic_planes pic ! 0) (resize (nat y + 2 * uv) raw);
          r2 \<leftarrow> copy_lines (h div 2) 0 (nat y) (w div 2) (pic_planes pic ! 1) r1;
          copy_lines (h div 2) 0 (nat y + uv) (w div 2) (pic_planes pic ! 2) r2
        })
     }"

text \<open>
  \<open>Decode\<close>: the answer of \<open>avcodec_send_packet\<close> and the picture of \<open>avcodec_receive_frame\<close>, if any;
  the result has the answer, the contents of \<open>raw_data\<close> and the two output sizes.
\<close>

definition Decode ::
  "int \<Rightarrow> av_picture option \<Rightarrow> bytes \<Rightarrow> bytes \<times> int \<times> int \<Rightarrow> media_decoder
   \<Rightarrow> (bool \<times> bytes \<times> int \<times> int) option" where
  "Decode send received encoded outs d =
     (if \<not> md_initialized d \<or> encoded = [] then Some (False, outs)
      else if send < 0 then Some (False, outs)
      else (case received of
              None \<Rightarrow> Some (False, outs)
            | Some pic \<Rightarrow>
                map_option (\<lambda>raw. (True, raw, pic_width pic, pic_height pic))
                  (pack_picture (fst outs) pic)))"

text \<open>\<open>DecodeAudio\<close>: a decoded frame is its samples per channel, its channels and the data of plane 0.\<close>

definition DecodeAudio ::
  "int \<Rightarrow> (nat \<times> nat \<times> bytes) option \<Rightarrow> bytes \<Rightarrow> bytes \<Rightarrow> media_decoder \<Rightarrow> (bool \<times> bytes) option" where
  "DecodeAudio send received encoded pcm d =
     (if \<not> md_initialized d \<or> encoded = [] then Some (False, pcm)
      else if send < 0 then Some (False, pcm)
      else (case received of
              None \<Rightarrow> Some (False, pcm)
            | Some (samples, channels, data) \<Rightarrow>
                map_option (Pair True) (rd_block data 0 (samples * channels * 2))))"

section \<open>The layout of pictures\<close>

text \<open>The lines \<open>i ..< j\<close> of a plane, each cut to \<open>w\<close> bytes.\<close>

definition plane_lines :: "nat \<Rightarrow> nat \<Rightarrow> nat \<Rightarrow> bytes \<times> nat \<Rightarrow> bytes" where
  "plane_lines i j w plane = concat (map (\<lambda>k. take w (drop (k * snd plane) (fst plane))) [i..<j])"

text \<open>A plane has the memory of \<open>h\<close> lines of \<open>w\<close> bytes.\<close>

definition plane_ok :: "nat \<Rightarrow> nat \<Rightarrow> bytes \<times> nat \<Rightarrow> bool" where
  "plane_ok h w plane \<longleftrightarrow> (\<forall>k < h. k * snd plane + w \<le> length (fst plane))"

lemma plane_okD:
  assumes "plane_ok h w plane" "k < h"
  shows "k * snd plane + w \<le> length (fst plane)"
    and "length (take w (drop (k * snd plane) (fst plane))) = w"
proof -
  show le: "k * snd plane + w \<le> length (fst plane)" using assms by (simp add: plane_ok_def)
  then have "w \<le> length (fst plane) - k * snd plane" by linarith
  then show "length (take w (drop (k * snd plane) (fst plane))) = w" by simp
qed

lemma length_plane_lines:
  "plane_ok h w plane \<Longrightarrow> j \<le> h \<Longrightarrow> length (plane_lines i j w plane) = (j - i) * w"
proof -
  assume ok: "plane_ok h w plane" and j: "j \<le> h"
  have "\<forall>k \<in> set [i..<j]. length (take w (drop (k * snd plane) (fst plane))) = w"
    using plane_okD(2) [OF ok] j by simp
  then have "map (\<lambda>k. length (take w (drop (k * snd plane) (fst plane)))) [i..<j]
             = map (\<lambda>k. w) [i..<j]" by (intro map_cong) auto
  then show ?thesis
    unfolding plane_lines_def length_concat map_map comp_def by (simp only: sum_list_triv) simp
qed

lemma copy_lines_spec:
  "plane_ok (i + n) w plane \<Longrightarrow> off + (i + n) * w \<le> length dst
   \<Longrightarrow> copy_lines n i off w plane dst =
       Some (take (off + i * w) dst @ plane_lines i (i + n) w plane @ drop (off + (i + n) * w) dst)"
proof (induction n arbitrary: i dst)
  case 0
  then show ?case by (simp add: plane_lines_def)
next
  case (Suc n)
  let ?line = "take w (drop (i * snd plane) (fst plane))"
  have rd: "rd_block (fst plane) (i * snd plane) w = Some ?line"
    using plane_okD(1) [OF Suc.prems(1), of i] by (simp add: mem_simps)
  have len: "length ?line = w" using plane_okD(2) [OF Suc.prems(1), of i] by simp
  have fits: "off + i * w + w \<le> length dst" using Suc.prems(2) by (simp add: algebra_simps)
  let ?dst = "take (off + i * w) dst @ ?line @ drop (off + i * w + w) dst"
  have wr: "wr_block dst (off + i * w) ?line = Some ?dst"
    using fits len by (simp add: mem_simps)
  have dst: "length ?dst = length dst" using fits len by simp
  have upt: "plane_lines i (i + Suc n) w plane = ?line @ plane_lines (Suc i) (Suc i + n) w plane"
    by (simp add: plane_lines_def upt_conv_Cons del: upt_Suc)
  have "copy_lines (Suc n) i off w plane dst = copy_lines n (Suc i) off w plane ?dst"
    by (simp only: copy_lines.simps rd wr Option.bind.simps)
  also have "\<dots> = Some (take (off + Suc i * w) ?dst @ plane_lines (Suc i) (Suc i + n) w plane
                         @ drop (off + (Suc i + n) * w) ?dst)"
    using Suc.prems dst by (intro Suc.IH) (auto simp: algebra_simps)
  also have "take (off + Suc i * w) ?dst = take (off + i * w) dst @ ?line"
    using fits len by (simp add: algebra_simps)
  also have "drop (off + (Suc i + n) * w) ?dst = drop (off + (i + Suc n) * w) dst"
    using fits len by (simp add: algebra_simps)
  finally show ?case by (simp add: upt [simplified])
qed

lemma quarter_area: "(h div 2) * (w div 2) \<le> w * h div (4 :: nat)"
proof -
  have "4 * ((h div 2) * (w div 2)) = (2 * (h div 2)) * (2 * (w div 2))" by simp
  also have "\<dots> \<le> h * w" by (intro mult_le_mono) auto
  finally show ?thesis by (simp add: mult.commute)
qed

text \<open>
  The packed picture: the lines of the three planes, the chrominance planes each padded to a quarter
  of the luminance area. No copy leaves its buffers.
\<close>

lemma pack_picture_planar:
  assumes pic: "pic = \<lparr>pic_width = int w, pic_height = int h, pic_planes = [yp, up, vp]\<rparr>"
    and ok: "plane_ok h w yp" "plane_ok (h div 2) (w div 2) up" "plane_ok (h div 2) (w div 2) vp"
    and small: "w * h + 2 * (w * h div 4) < 2 ^ 31"
  shows "pack_picture [] pic =
           (let pad = replicate (w * h div 4 - (h div 2) * (w div 2)) 0 in
            Some (plane_lines 0 h w yp @ plane_lines 0 (h div 2) (w div 2) up @ pad
                  @ plane_lines 0 (h div 2) (w div 2) vp @ pad))"
proof -
  let ?y = "w * h" and ?uv = "w * h div 4" and ?c = "(h div 2) * (w div 2)"
  let ?Y = "plane_lines 0 h w yp" and ?U = "plane_lines 0 (h div 2) (w div 2) up"
    and ?V = "plane_lines 0 (h div 2) (w div 2) vp"
  have c: "?c \<le> ?uv" by (rule quarter_area)
  have len: "length ?Y = ?y" "length ?U = ?c" "length ?V = ?c"
    using length_plane_lines [OF ok(1), of h 0] length_plane_lines [OF ok(2), of "h div 2" 0]
      length_plane_lines [OF ok(3), of "h div 2" 0] by (simp_all add: mult.commute)
  have mult: "int_mult (int w) (int h) = Some (int ?y)"
  proof -
    have "?y < 2 ^ 31" using small by linarith
    then have "int ?y < int (2 ^ 31)" by (simp only: of_nat_less_iff)
    then have "int ?y < 2 ^ 31" by simp
    moreover have "- (2 ^ 31) \<le> int ?y" by (rule order_trans [of _ 0]) simp_all
    ultimately show ?thesis unfolding int_mult_def of_nat_mult by simp
  qed
  have sdiv: "int ?y sdiv 4 = int ?uv"
    by (cases "w = 0 \<or> h = 0") (auto simp: signed_divide_int_def zdiv_int sgn_mult)
  have r1: "copy_lines h 0 0 w yp (replicate (?y + 2 * ?uv) 0) = Some (?Y @ replicate (2 * ?uv) 0)"
    using copy_lines_spec [of 0 h w yp 0 "replicate (?y + 2 * ?uv) 0"] ok(1)
    by (simp add: mult.commute)
  have r2: "copy_lines (h div 2) 0 ?y (w div 2) up (?Y @ replicate (2 * ?uv) 0) =
            Some (?Y @ ?U @ replicate (2 * ?uv - ?c) 0)"
    using copy_lines_spec [of 0 "h div 2" "w div 2" up ?y "?Y @ replicate (2 * ?uv) 0"] ok(2) c len
    by simp
  have r3: "copy_lines (h div 2) 0 (?y + ?uv) (w div 2) vp (?Y @ ?U @ replicate (2 * ?uv - ?c) 0) =
            Some (?Y @ ?U @ replicate (?uv - ?c) 0 @ ?V @ replicate (?uv - ?c) 0)"
    using copy_lines_spec [of 0 "h div 2" "w div 2" vp "?y + ?uv" "?Y @ ?U @ replicate (2 * ?uv - ?c) 0"]
      ok(3) c len min_absorb1 [OF diff_le_mono, of ?uv "2 * ?uv" ?c] by simp
  have "int (?y + 2 * ?uv) < int (2 ^ 31)" using small by (simp only: of_nat_less_iff)
  moreover have "int (?y + 2 * ?uv) = int ?y + 2 * int ?uv" "int (2 ^ 31) = 2 ^ 31" by simp_all
  ultimately have lt: "int ?y + 2 * int ?uv < 2 ^ 31" by (simp only:)
  have "\<not> int ?y < 0" by (simp only: of_nat_less_0_iff not_False_eq_True)
  with lt have bound: "\<not> (int ?y < 0 \<or> 2 ^ 31 \<le> int ?y + 2 * int ?uv)" by (metis not_le)
  show ?thesis
    unfolding pack_picture_def pic av_picture.simps mult Option.bind.simps sdiv Let_def resize_def
      if_not_P [OF bound] nat_int
    using r1 r2 r3 by simp
qed

lemma plane_lines_contiguous: "n * w \<le> length p \<Longrightarrow> plane_lines 0 n w (p, w) = take (n * w) p"
proof (induction n)
  case (Suc n)
  then have "plane_lines 0 (Suc n) w (p, w) = take (n * w) p @ take w (drop (n * w) p)"
    by (simp add: plane_lines_def)
  also have "\<dots> = take (Suc n * w) p" by (simp add: take_add add.commute [of w])
  finally show ?case .
qed (simp add: plane_lines_def)

lemma plane_ok_contiguous: "length p = h * w \<Longrightarrow> plane_ok h w (p, w)"
  unfolding plane_ok_def
proof (intro allI impI)
  fix k assume "length p = h * w" "k < h"
  then have "Suc k * w \<le> h * w" by (intro mult_le_mono1) simp
  then show "k * snd (p, w) + w \<le> length (fst (p, w))" using \<open>length p = h * w\<close> by simp
qed

lemma fill_video_planes_full:
  assumes f: "av_planes f = [Some p0, Some p1, Some p2]"
    and len: "length p0 = y" "length p1 = uv" "length p2 = uv" "length yuv = y + 2 * uv" "0 < uv"
  shows "fill_video_planes y uv yuv f =
           Some (f\<lparr>av_planes := [Some (take y yuv), Some (take uv (drop y yuv)),
                                 Some (drop (y + uv) yuv)]\<rparr>)"
  using assms
  by (simp add: fill_video_planes_def copy_to_plane_def mem_simps)


section \<open>Reuse of the encoder's frame\<close>

text \<open>
  Property C33. The buffers of the encoder's video frame are allocated once, in \<open>Initialize\<close>, and released
  after the first frame that FFmpeg accepts. From then on every call of \<open>EncodeVideo\<close> writes through
  a null pointer: after a call that produced a packet, no later call is defined.
\<close>

theorem EncodeVideo_second_frame_faults:
  assumes "EncodeVideo send received yuv e = Some (True, encoded, e')"
  shows "EncodeVideo send' received' yuv' e' = None"
proof -
  from assms obtain f f1 where f: "me_ctx e" "me_pkt e" "me_frame e = Some f" "video_frame yuv e f = Some f1"
      and s: "submit_frame send received f1 (e\<lparr>me_pts := me_pts e + 1\<rparr>) = (True, encoded, e')"
    by (auto simp: EncodeVideo_def split: if_splits option.splits)
  from s have e': "e' = e\<lparr>me_pts := me_pts e + 1, me_frame := Some av_frame_empty\<rparr>"
    by (auto simp: submit_frame_def Let_def split: if_splits option.splits)
  have "fill_video_planes n k yuv' av_frame_empty = None" for n k
    by (simp add: fill_video_planes_def copy_to_plane_def av_frame_empty_def mem_simps)
  then have "video_frame yuv' e' av_frame_empty = None"
    by (auto simp: video_frame_def intro!: bind_NoneI)
  then show ?thesis using f by (simp add: EncodeVideo_def e')
qed

lemma EncodeAudio_closed: "\<not> me_ctx e \<Longrightarrow> EncodeAudio buf send received pcm n e = Some (False, [], e)"
  by (simp add: EncodeAudio_def)

text \<open>An encoder that could not be opened never encodes.\<close>

lemma Initialize_failed:
  assumes "MediaEncoder_Initialize av rate ch w h fps (MediaEncoder_new c) = (False, e)"
  shows "\<not> me_ctx e \<and> EncodeAudio buf send received pcm n e = Some (False, [], e)
         \<and> EncodeVideo send received pcm e = Some (False, [], e)"
  using assms
  by (auto simp: MediaEncoder_Initialize_def MediaEncoder_new_def MediaEncoder_Close_def Let_def
      EncodeAudio_def EncodeVideo_def split: if_splits)

section \<open>Witnesses\<close>

definition tiny_encoder :: media_encoder where
  "tiny_encoder = (MediaEncoder_new kVideoH264)\<lparr>me_ctx := True, me_pkt := True, me_width := 2,
     me_height := 2, me_frame := Some (av_frame_empty\<lparr>av_planes :=
       [Some [0, 0, 0, 0], Some [0], Some [0]]\<rparr>)\<rparr>"


lemma EncodeVideo_second_frame_faults_witness:
  "\<exists>e'. EncodeVideo 0 (Some [9]) [1, 2, 3, 4, 5, 6] tiny_encoder = Some (True, [9], e')
        \<and> EncodeVideo 0 (Some [9]) [1, 2, 3, 4, 5, 6] e' = None"
proof -
  have "\<exists>e'. EncodeVideo 0 (Some [9]) [1, 2, 3, 4, 5, 6] tiny_encoder = Some (True, [9], e')"
    by (simp add: EncodeVideo_def tiny_encoder_def MediaEncoder_new_def av_frame_empty_def
        video_frame_def int_mult_def to_size_def signed_divide_int_def fill_video_planes_def
        copy_to_plane_def rd_block_def wr_block_def submit_frame_def Let_def)
  then obtain e' where
    e: "EncodeVideo 0 (Some [9]) [1, 2, 3, 4, 5, 6] tiny_encoder = Some (True, [9], e')" by blast
  show ?thesis by (intro exI conjI, rule e, rule EncodeVideo_second_frame_faults [OF e])
qed

end
