(* ===== verification/Media_Capture.thy ===== *)
theory Media_Capture
  imports Rtcom_Types
begin

text \<open>
  The demultiplexer wrapper (\<open>media/media_capture.h\<close>, \<open>media/media_capture.cpp\<close>). What FFmpeg answers
  (the streams of an opened container, the results of its calls, the packets it reads) are arguments
  of the operations. A frame rate is kept as the fraction that \<open>av_q2d\<close> divides, and the conversion
  of the duration through a \<open>double\<close> is an argument. An access to a stream that the container does
  not have is \<open>None\<close>.
\<close>

datatype stream_kind = StreamAudio | StreamVideo | StreamOther

record stream_info =
  si_kind :: stream_kind
  si_sample_rate :: int
  si_channels :: int
  si_width :: int
  si_height :: int
  si_frame_rate :: "int \<times> int"

record media_capture =
  cap_fmt :: "stream_info list option"
  cap_audio_ctx :: bool
  cap_video_ctx :: bool
  cap_audio_idx :: int
  cap_video_idx :: int
  cap_has_audio :: bool
  cap_has_video :: bool
  cap_duration_ms :: int
  cap_sample_rate :: int
  cap_channels :: int
  cap_width :: int
  cap_height :: int
  cap_fps :: "int \<times> int"

definition MediaCapture_new :: media_capture where
  "MediaCapture_new =
     \<lparr>cap_fmt = None, cap_audio_ctx = False, cap_video_ctx = False, cap_audio_idx = -1,
      cap_video_idx = -1, cap_has_audio = False, cap_has_video = False, cap_duration_ms = 0,
      cap_sample_rate = 0, cap_channels = 0, cap_width = 0, cap_height = 0, cap_fps = (0, 1)\<rparr>"

text \<open>\<open>FindStreams\<close>: the loop over the streams from index \<open>i\<close> on.\<close>

definition note_stream :: "int \<Rightarrow> stream_info \<Rightarrow> media_capture \<Rightarrow> media_capture" where
  "note_stream i s c =
     (if si_kind s = StreamAudio \<and> cap_audio_idx c < 0
      then c\<lparr>cap_audio_idx := i, cap_has_audio := True, cap_sample_rate := si_sample_rate s,
             cap_channels := si_channels s\<rparr>
      else if si_kind s = StreamVideo \<and> cap_video_idx c < 0
      then c\<lparr>cap_video_idx := i, cap_has_video := True, cap_width := si_width s,
             cap_height := si_height s,
             cap_fps := (if snd (si_frame_rate s) \<noteq> 0 then si_frame_rate s else (30, 1))\<rparr>
      else c)"

fun find_streams_from :: "int \<Rightarrow> stream_info list \<Rightarrow> media_capture \<Rightarrow> media_capture" where
  "find_streams_from i [] c = c"
| "find_streams_from i (s # ss) c = find_streams_from (i + 1) ss (note_stream i s c)"

definition FindStreams :: "stream_info list \<Rightarrow> media_capture \<Rightarrow> media_capture" where
  "FindStreams streams c = find_streams_from 0 streams c"

text \<open>
  \<open>OpenCodec\<close>: whether the decoder is found and its context allocated, and the results of
  \<open>avcodec_parameters_to_context\<close> and \<open>avcodec_open2\<close>. The result: the answer, and whether the
  context pointer is set afterwards.
\<close>

record capture_codec =
  cc_found :: bool
  cc_allocated :: bool
  cc_params :: int
  cc_open :: int

definition OpenCodec ::
  "capture_codec \<Rightarrow> stream_info list \<Rightarrow> int \<Rightarrow> bool \<Rightarrow> (bool \<times> bool) option" where
  "OpenCodec av streams stream_idx ctx =
     (if stream_idx < 0 \<or> int (length streams) \<le> stream_idx then None
      else if \<not> cc_found av then Some (False, ctx)
      else if \<not> cc_allocated av then Some (False, False)
      else if cc_params av < 0 then Some (False, True)
      else Some (0 \<le> cc_open av, True))"

definition MediaCapture_Close :: "media_capture \<Rightarrow> media_capture" where
  "MediaCapture_Close c =
     c\<lparr>cap_audio_ctx := False, cap_video_ctx := False, cap_fmt := None, cap_has_audio := False,
       cap_has_video := False\<rparr>"

text \<open>The part \<open>OpenFile\<close> and \<open>OpenDevice\<close> share: the streams are found and their codecs opened.\<close>

definition open_codecs ::
  "capture_codec \<Rightarrow> capture_codec \<Rightarrow> stream_info list \<Rightarrow> media_capture \<Rightarrow> media_capture option" where
  "open_codecs av_audio av_video streams c =
     do {
       c1 \<leftarrow> Some (FindStreams streams c);
       c2 \<leftarrow> (if 0 \<le> cap_audio_idx c1
             then map_option (\<lambda>(r, ctx). c1\<lparr>cap_audio_ctx := ctx\<rparr>)
                    (OpenCodec av_audio streams (cap_audio_idx c1) (cap_audio_ctx c1))
             else Some c1);
       (if 0 \<le> cap_video_idx c2
        then map_option (\<lambda>(r, ctx). c2\<lparr>cap_video_ctx := ctx\<rparr>)
               (OpenCodec av_video streams (cap_video_idx c2) (cap_video_ctx c2))
        else Some c2)
     }"

text \<open>
  \<open>opened\<close> is the container when \<open>avformat_open_input\<close> succeeds (on failure it leaves a null
  pointer), \<open>info\<close> the result of \<open>avformat_find_stream_info\<close>.
\<close>

definition OpenFile ::
  "(int \<Rightarrow> int) \<Rightarrow> stream_info list option \<Rightarrow> int \<Rightarrow> int \<Rightarrow> capture_codec \<Rightarrow> capture_codec
   \<Rightarrow> media_capture \<Rightarrow> (bool \<times> media_capture) option" where
  "OpenFile to_ms_double opened info duration av_audio av_video c =
     (case opened of
        None \<Rightarrow> Some (False, c\<lparr>cap_fmt := None\<rparr>)
      | Some streams \<Rightarrow>
          (let c0 = c\<lparr>cap_fmt := Some streams\<rparr> in
           if info < 0 then Some (False, MediaCapture_Close c0)
           else map_option
                  (\<lambda>c1. (True, if 0 < duration then c1\<lparr>cap_duration_ms := to_ms_double duration\<rparr> else c1))
                  (open_codecs av_audio av_video streams c0)))"

definition OpenDevice ::
  "stream_info list option \<Rightarrow> capture_codec \<Rightarrow> capture_codec
   \<Rightarrow> media_capture \<Rightarrow> (bool \<times> media_capture) option" where
  "OpenDevice opened av_audio av_video c =
     (case opened of
        None \<Rightarrow> Some (False, c\<lparr>cap_fmt := None\<rparr>)
      | Some streams \<Rightarrow>
          map_option (Pair True) (open_codecs av_audio av_video streams (c\<lparr>cap_fmt := Some streams\<rparr>)))"

text \<open>
  \<open>ReadPacket\<close>: \<open>packets\<close> are what successive calls of \<open>av_read_frame\<close> give, each with its stream
  index, until one fails. The result: the codec type and the data of the packet, if any, and the
  packets not read yet.
\<close>

fun read_packet ::
  "int \<Rightarrow> int \<Rightarrow> (int \<times> bytes) list \<Rightarrow> (codec_type \<times> bytes) option \<times> (int \<times> bytes) list" where
  "read_packet audio video [] = (None, [])"
| "read_packet audio video ((i, data) # packets) =
     (if i = audio then (Some (kAudioAAC, data), packets)
      else if i = video then (Some (kVideoH264, data), packets)
      else read_packet audio video packets)"

definition ReadPacket ::
  "(int \<times> bytes) list \<Rightarrow> media_capture \<Rightarrow> (codec_type \<times> bytes) option \<times> (int \<times> bytes) list" where
  "ReadPacket packets c =
     (if cap_fmt c = None then (None, packets)
      else read_packet (cap_audio_idx c) (cap_video_idx c) packets)"

section \<open>Which streams and packets are read\<close>

text \<open>A stream index that is set is never changed again.\<close>

lemma find_streams_audio_set:
  "0 \<le> cap_audio_idx c
   \<Longrightarrow> cap_audio_idx (find_streams_from i ss c) = cap_audio_idx c
       \<and> cap_has_audio (find_streams_from i ss c) = cap_has_audio c"
proof (induction ss arbitrary: i c)
  case (Cons s ss)
  have "cap_audio_idx (note_stream i s c) = cap_audio_idx c"
    "cap_has_audio (note_stream i s c) = cap_has_audio c"
    using Cons.prems by (simp_all add: note_stream_def)
  with Cons show ?case by simp
qed simp

text \<open>The first audio stream of the container is the one chosen by an object that has none yet.\<close>

lemma find_streams_first_audio:
  "cap_audio_idx c < 0 \<Longrightarrow> 0 \<le> i
   \<Longrightarrow> cap_audio_idx (find_streams_from i ss c) =
       (if \<exists>s \<in> set ss. si_kind s = StreamAudio
        then i + int (length (takeWhile (\<lambda>s. si_kind s \<noteq> StreamAudio) ss))
        else cap_audio_idx c)"
proof (induction ss arbitrary: i c)
  case (Cons s ss)
  show ?case
  proof (cases "si_kind s = StreamAudio")
    case True
    then have "cap_audio_idx (note_stream i s c) = i" using Cons.prems by (simp add: note_stream_def)
    with find_streams_audio_set [of "note_stream i s c"] True Cons.prems show ?thesis by simp
  next
    case False
    then have "cap_audio_idx (note_stream i s c) = cap_audio_idx c"
      by (simp add: note_stream_def)
    with Cons.IH [of "note_stream i s c" "i + 1"] False Cons.prems show ?thesis by simp
  qed
qed simp

text \<open>\<open>ReadPacket\<close> gives the first packet of a chosen stream and skips the others.\<close>

lemma read_packet_first:
  "read_packet audio video packets =
     (case dropWhile (\<lambda>p. fst p \<noteq> audio \<and> fst p \<noteq> video) packets of
        [] \<Rightarrow> (None, [])
      | (i, data) # rest \<Rightarrow> (Some (if i = audio then kAudioAAC else kVideoH264, data), rest))"
  by (induction audio video packets rule: read_packet.induct) auto

text \<open>
  A capture object cannot be reused. \<open>Close\<close> clears the flags but keeps the stream
  indices, and \<open>FindStreams\<close> only fills an index that is negative: after an open with an audio
  stream and a \<open>Close\<close>, whatever file is opened next, the object says it has no audio and keeps the
  old index; and when the new file has fewer streams, opening it reads past the end of its stream
  array.
\<close>

theorem MediaCapture_reopen_stale:
  assumes "0 \<le> cap_audio_idx c" "0 \<le> info"
  shows "(\<forall>c'. OpenFile dur (Some streams) info duration ca cv (MediaCapture_Close c) = Some (True, c')
            \<longrightarrow> \<not> cap_has_audio c' \<and> cap_audio_idx c' = cap_audio_idx c)
         \<and> (int (length streams) \<le> cap_audio_idx c
            \<longrightarrow> OpenFile dur (Some streams) info duration ca cv (MediaCapture_Close c) = None)"
proof -
  let ?c0 = "(MediaCapture_Close c)\<lparr>cap_fmt := Some streams\<rparr>"
  have set: "cap_audio_idx (FindStreams streams ?c0) = cap_audio_idx c"
    "\<not> cap_has_audio (FindStreams streams ?c0)"
    using find_streams_audio_set [of ?c0 0 streams] assms(1)
    by (simp_all add: FindStreams_def MediaCapture_Close_def)
  then show ?thesis using assms
    by (auto simp: OpenFile_def open_codecs_def OpenCodec_def Let_def
        split: if_splits prod.splits option.splits elim!: bind_eq_Some_conv [THEN iffD1, elim_format])
qed

definition audio_stream :: stream_info where
  "audio_stream = \<lparr>si_kind = StreamAudio, si_sample_rate = 44100, si_channels = 1, si_width = 0,
     si_height = 0, si_frame_rate = (0, 1)\<rparr>"

definition good_codec :: capture_codec where
  "good_codec = \<lparr>cc_found = True, cc_allocated = True, cc_params = 0, cc_open = 0\<rparr>"

lemma MediaCapture_reopen_stale_witness:
  "\<exists>c c'. OpenFile id (Some [audio_stream]) 0 0 good_codec good_codec MediaCapture_new = Some (True, c)
     \<and> OpenFile id (Some [audio_stream]) 0 0 good_codec good_codec (MediaCapture_Close c) = Some (True, c')
     \<and> cap_has_audio c \<and> \<not> cap_has_audio c'"
proof -
  have "\<exists>c. OpenFile id (Some [audio_stream]) 0 0 good_codec good_codec MediaCapture_new = Some (True, c)
          \<and> cap_has_audio c \<and> cap_audio_idx c = 0 \<and> cap_video_idx c = -1"
    by (simp add: OpenFile_def open_codecs_def OpenCodec_def FindStreams_def note_stream_def
        audio_stream_def good_codec_def MediaCapture_new_def)
  then obtain c where c: "OpenFile id (Some [audio_stream]) 0 0 good_codec good_codec MediaCapture_new
      = Some (True, c)" "cap_has_audio c" "cap_audio_idx c = 0" "cap_video_idx c = -1" by blast
  then have "\<exists>c'. OpenFile id (Some [audio_stream]) 0 0 good_codec good_codec (MediaCapture_Close c)
      = Some (True, c')"
    by (simp add: OpenFile_def open_codecs_def OpenCodec_def FindStreams_def note_stream_def
        audio_stream_def good_codec_def MediaCapture_Close_def)
  then obtain c' where c': "OpenFile id (Some [audio_stream]) 0 0 good_codec good_codec
      (MediaCapture_Close c) = Some (True, c')" by blast
  have "\<not> cap_has_audio c'"
    using MediaCapture_reopen_stale [of c 0 id "[audio_stream]" 0 good_codec good_codec] c c' by simp
  with c c' show ?thesis by blast
qed

end
