(* ===== verification/Sip_Moves.thy ===== *)
theory Sip_Moves
  imports Sip_Manager
begin

text \<open>
  Every operation of the SIP manager as a run of small moves. A move does one thing to the manager: it
  uses counters and caches headers, restarts a timer, takes in a session description, files a new call
  and tells the client, changes the state of a call and tells the client, or forgets a call that has no
  media. An invariant of the manager and its client is then proved per move, once, and holds after every
  operation.
\<close>

section \<open>Moves\<close>

text \<open>A call has media from its connection until it is gone, also while it is being hung up.\<close>

definition live :: "sip_call_state option \<Rightarrow> bool" where
  "live v \<longleftrightarrow> v = Some kConnected \<or> v = Some kDisconnecting"

text \<open>What a move does; the call's states before and after it are part of the label.\<close>

datatype call_event = Silent | Timed string | Negotiated string sip_call_state
  | Created string sip_call_state | Changed string sip_call_state sip_call_state
  | Gone string | Reported sip_call_state

text \<open>The session information is the same, apart from the state and the start time in it.\<close>

definition same_media :: "sip_call \<Rightarrow> sip_call \<Rightarrow> bool" where
  "same_media c c' \<longleftrightarrow>
     (\<exists>st t. call_session_info c' = (call_session_info c)\<lparr>ci_state := st, ci_start_time := t\<rparr>)"

fun call_change :: "sip_call_state \<Rightarrow> sip_call_state \<Rightarrow> bool" where
  "call_change old new \<longleftrightarrow> new \<in> {kConnected, kDisconnected, kFailed} \<or> old = kConnected \<and> new = kDisconnecting"

inductive sip_move :: "'w sip_callback \<Rightarrow> 'w sip_state \<Rightarrow> call_event \<Rightarrow> 'w sip_state \<Rightarrow> bool"
  for cb :: "'w sip_callback" where
  silent: "sm_calls m' = sm_calls m \<Longrightarrow> sm_config m' = sm_config m \<Longrightarrow> sip_move cb (w, m) Silent (w, m')"
| timed: "sm_calls m cid = Some c \<Longrightarrow> call_state c' = call_state c \<Longrightarrow> same_media c c'
    \<Longrightarrow> sip_move cb (w, m) (Timed cid) (w, put_call cid c' m)"
| negotiated: "sm_calls m cid = Some c
    \<Longrightarrow> sip_move cb (w, m) (Negotiated cid (call_state c))
          (w, put_call cid (c\<lparr>call_session_info := sdp_to_info desc (call_session_info c)\<rparr>) m)"
| created: "\<not> live (call_view m cid) \<Longrightarrow> call_state c \<in> {kCalling, kRinging}
    \<Longrightarrow> call_session_info c = init_call_session_info\<lparr>ci_state := call_state c\<rparr>
    \<Longrightarrow> cb cid (call_state c) (w, put_call cid c m) = s' \<Longrightarrow> sip_move cb (w, m) (Created cid (call_state c)) s'"
| changed: "sm_calls m cid = Some c \<Longrightarrow> call_change (call_state c) (call_state c') \<Longrightarrow> same_media c c'
    \<Longrightarrow> cb cid (call_state c') (w, put_call cid c' m) = s'
    \<Longrightarrow> sip_move cb (w, m) (Changed cid (call_state c) (call_state c')) s'"
| gone: "\<not> live (call_view m cid) \<Longrightarrow> sip_move cb (w, m) (Gone cid) (w, erase_call cid m)"
| reported: "st \<in> {kRegistered, kUnregistered} \<Longrightarrow> cb cid st s = s' \<Longrightarrow> sip_move cb s (Reported st) s'"

inductive sip_moves :: "'w sip_callback \<Rightarrow> 'w sip_state \<Rightarrow> call_event list \<Rightarrow> 'w sip_state \<Rightarrow> bool"
  for cb :: "'w sip_callback" where
  stay: "sip_moves cb s [] s"
| move: "sip_move cb s e s' \<Longrightarrow> sip_moves cb s' es s'' \<Longrightarrow> sip_moves cb s (e # es) s''"

lemma sip_moves_one: "sip_move cb s e s' \<Longrightarrow> sip_moves cb s [e] s'"
  by (rule move [OF _ stay])

lemma sip_moves_append: "sip_moves cb s es s' \<Longrightarrow> sip_moves cb s' fs s'' \<Longrightarrow> sip_moves cb s (es @ fs) s''"
  by (induction rule: sip_moves.induct) (auto intro: sip_moves.intros)

text \<open>An invariant of the moves whose labels satisfy \<open>P\<close> is one of their runs.\<close>

lemma sip_moves_invariant:
  assumes "sip_moves cb s es s'" "keep s" "list_all P es"
    and "\<And>s e s'. sip_move cb s e s' \<Longrightarrow> P e \<Longrightarrow> keep s \<Longrightarrow> keep s'"
  shows "keep s'"
  using assms(1,2,3)
  by (induction rule: sip_moves.induct) (auto intro: assms(4))

lemma same_media_refl [simp]: "same_media c c"
proof -
  have "call_session_info c = (call_session_info c)
      \<lparr>ci_state := ci_state (call_session_info c), ci_start_time := ci_start_time (call_session_info c)\<rparr>"
    by simp
  then show ?thesis unfolding same_media_def by blast
qed

lemma same_media_ops [simp]:
  "same_media c (SetState st d) = same_media c d" "same_media c (SetError e d) = same_media c d"
  "same_media c (StartTimer t n d) = same_media c d" "same_media c (IncrementRetransmit d) = same_media c d"
  "same_media c (d\<lparr>call_session_info := (call_session_info d)\<lparr>ci_start_time := x\<rparr>\<rparr>) = same_media c d"
proof -
  have set: "(\<exists>s t. i\<lparr>ci_state := st\<rparr> = j\<lparr>ci_state := s, ci_start_time := t\<rparr>)
      \<longleftrightarrow> (\<exists>s t. i = j\<lparr>ci_state := s, ci_start_time := t\<rparr>)" for i j :: call_session_info and st
    by (cases i; cases j) auto
  have start: "(\<exists>s t. i\<lparr>ci_start_time := x\<rparr> = j\<lparr>ci_state := s, ci_start_time := t\<rparr>)
      \<longleftrightarrow> (\<exists>s t. i = j\<lparr>ci_state := s, ci_start_time := t\<rparr>)" for i j :: call_session_info
    by (cases i; cases j) auto
  show "same_media c (SetState st d) = same_media c d"
    using set [where i = "call_session_info d"] by (simp add: same_media_def SetState_def)
  show "same_media c (d\<lparr>call_session_info := (call_session_info d)\<lparr>ci_start_time := x\<rparr>\<rparr>) = same_media c d"
    using start [where i = "call_session_info d"] by (simp add: same_media_def)
qed (simp_all add: same_media_def SetError_def IncrementRetransmit_def)

lemma same_media_fields:
  assumes "same_media c c'"
  shows "ci_audio_local_port (call_session_info c') = ci_audio_local_port (call_session_info c)"
    "ci_video_local_port (call_session_info c') = ci_video_local_port (call_session_info c)"
    "ci_remote_rtp_addr (call_session_info c') = ci_remote_rtp_addr (call_session_info c)"
    "ci_audio_remote_port (call_session_info c') = ci_audio_remote_port (call_session_info c)"
    "ci_video_remote_port (call_session_info c') = ci_video_remote_port (call_session_info c)"
    "ci_callee_uri (call_session_info c') = ci_callee_uri (call_session_info c)"
  using assms by (auto simp: same_media_def)

lemma sdp_to_info_fields [simp]:
  "ci_audio_local_port (sdp_to_info desc i) = ci_audio_local_port i"
  "ci_video_local_port (sdp_to_info desc i) = ci_video_local_port i"
  "ci_callee_uri (sdp_to_info desc i) = ci_callee_uri i"
  by (simp_all add: sdp_to_info_def Let_def split: option.splits)

lemma silent_counters: "same_but_counters m m' \<Longrightarrow> sip_move cb (w, m) Silent (w, m')"
  using same_but_counters_fields [of m m'] by (intro silent) simp_all

section \<open>Labels\<close>

text \<open>
  The labels of what happens without the local user: nobody is called or hung up, only a call that was
  not connected before is connected, a ringing call goes nowhere else, and no description is taken in for
  a call that is not connected yet.
\<close>

fun unprompted :: "call_event \<Rightarrow> bool" where
  "unprompted (Created cid st) \<longleftrightarrow> st = kRinging"
| "unprompted (Changed cid old new) \<longleftrightarrow>
     (new = kConnected \<longrightarrow> old \<in> {kCalling, kRinging}) \<and> (old = kRinging \<longrightarrow> new = kConnected) \<and> new \<noteq> kDisconnecting"
| "unprompted (Negotiated cid st) \<longleftrightarrow> st \<notin> {kCalling, kRinging}"
| "unprompted _ \<longleftrightarrow> True"

definition unprompted_moves :: "'w sip_callback \<Rightarrow> 'w sip_state \<Rightarrow> 'w sip_state \<Rightarrow> bool" where
  "unprompted_moves cb s s' \<longleftrightarrow> (\<exists>es. sip_moves cb s es s' \<and> list_all unprompted es)"

lemma unprompted_stay [simp]: "unprompted_moves cb s s"
  unfolding unprompted_moves_def by (intro exI [of _ "[]"]) (simp add: stay)

lemma unprompted_run: "sip_moves cb s es s' \<Longrightarrow> list_all unprompted es \<Longrightarrow> unprompted_moves cb s s'"
  by (auto simp: unprompted_moves_def)

lemma unprompted_one: "sip_move cb s e s' \<Longrightarrow> unprompted e \<Longrightarrow> unprompted_moves cb s s'"
  by (rule unprompted_run [OF sip_moves_one]) simp_all

lemma unprompted_trans:
  assumes "unprompted_moves cb s s'" "unprompted_moves cb s' s''"
  shows "unprompted_moves cb s s''"
proof -
  obtain es fs where "sip_moves cb s es s'" "sip_moves cb s' fs s''" "list_all unprompted (es @ fs)"
    using assms by (auto simp: unprompted_moves_def)
  then show ?thesis using sip_moves_append unprompted_run by blast
qed

section \<open>The operations as moves\<close>

context sip_client
begin

lemma drop_call_moves:
  assumes "drop_call cb cid c (w, m) = s'" "sm_calls m cid = Some c"
  shows "sip_moves cb (w, m) [Changed cid (call_state c) kDisconnected, Gone cid] s'"
proof -
  obtain w1 m1 where n: "cb cid kDisconnected (w, put_call cid (SetState kDisconnected c) m) = (w1, m1)"
    by fastforce
  have s': "s' = (w1, erase_call cid m1)" using assms(1) by (simp add: drop_call_def NotifyStateChange_def n)
  have "sip_move cb (w, m) (Changed cid (call_state c) (call_state (SetState kDisconnected c))) (w1, m1)"
    by (rule changed [OF assms(2)]) (simp_all add: n)
  moreover have "\<not> live (call_view m1 cid)" using notify(1) [OF n] by (simp add: live_def)
  ultimately show ?thesis unfolding s' by (auto intro: sip_moves.intros gone)
qed

lemma changed_after:
  assumes "same_but_counters m m1" "sm_calls m cid = Some c" "call_change (call_state c) (call_state c')"
    "same_media c c'" "cb cid (call_state c') (w, put_call cid c' m1) = s'"
  shows "sip_moves cb (w, m) [Silent, Changed cid (call_state c) (call_state c')] s'"
proof -
  have "sm_calls m1 cid = Some c" using same_but_counters_fields(2) [OF assms(1)] assms(2) by simp
  then have "sip_move cb (w, m1) (Changed cid (call_state c) (call_state c')) s'"
    using assms(3-5) by (rule changed)
  then show ?thesis by (rule move [OF silent_counters [OF assms(1)] sip_moves_one])
qed

lemma MakeCall_moves:
  assumes "MakeCall cb now uri (w, m) = (r, s')" "\<not> live (call_view m r)"
  shows "\<exists>es. sip_moves cb (w, m) es s'"
proof (cases "sm_initialized m")
  case True
  obtain cid m1 where g: "GenerateCallId m = (cid, m1)" by fastforce
  obtain msg m2 where b: "BuildInviteRequest cid uri m1 = (msg, m2)" by fastforce
  let ?c = "StartTimer now (sc_retry_t1_ms (sm_config m1)) (SetState kCalling
     (SipCall_new cid (sc_username (sm_config m1) @ ''@'' @ sc_domain (sm_config m1)) uri))"
  have s: "same_but_counters m m2"
    using GenerateCallId_same [OF g] BuildInviteRequest_same [OF b] same_but_counters_trans by blast
  have e: "cb cid (call_state ?c) (w, put_call cid ?c m2) = s'" "r = cid"
    using assms(1) True by (auto simp: MakeCall_def g b NotifyStateChange_def)
  have "sip_move cb (w, m2) (Created cid (call_state ?c)) s'"
    by (rule created)
      (use assms(2) e same_counters_view(1) [OF s] in \<open>simp_all add: SetState_def\<close>)
  then have "sip_moves cb (w, m) [Silent, Created cid (call_state ?c)] s'"
    by (rule move [OF silent_counters [OF s] sip_moves_one])
  then show ?thesis ..
qed (use assms in \<open>auto simp: MakeCall_def intro: stay\<close>)

lemma AnswerCall_moves:
  assumes "AnswerCall cb now cid accept (w, m) = (r, s')"
  shows "\<exists>es. sip_moves cb (w, m) es s'"
proof (cases "sm_calls m cid")
  case (Some c)
  obtain tag m1 where g: "GenerateTag m = (tag, m1)" by fastforce
  obtain msg m2 where b: "BuildResponse (if accept then 200 else 486)
      (if accept then ''OK'' else ''Busy Here'') tag m1 = (msg, m2)" by fastforce
  have s: "same_but_counters m m2"
    using GenerateTag_same [OF g] BuildResponse_same [OF b] same_but_counters_trans by blast
  show ?thesis
  proof (cases accept)
    case True
    let ?d = "(SetState kConnected c)\<lparr>call_session_info :=
      (call_session_info (SetState kConnected c))\<lparr>ci_start_time := now\<rparr>\<rparr>"
    have "cb cid (call_state ?d) (w, put_call cid ?d m2) = s'"
      using assms b True by (auto simp: AnswerCall_def Some g NotifyStateChange_def Let_def)
    from changed_after [OF s Some _ _ this] show ?thesis by fastforce
  next
    case False
    then have "drop_call cb cid c (w, m2) = s'"
      using assms b by (auto simp: AnswerCall_def Some g drop_call_def Let_def split: prod.splits)
    from drop_call_moves [OF this] same_but_counters_fields(2) [OF s] Some
    have "sip_moves cb (w, m2) [Changed cid (call_state c) kDisconnected, Gone cid] s'" by simp
    from move [OF silent_counters [OF s] this] show ?thesis ..
  qed
qed (use assms in \<open>auto simp: AnswerCall_def intro: stay\<close>)

lemma HangUp_moves:
  assumes "HangUp cb cid (w, m) = (r, s')" "sip_wf m"
  shows "\<exists>es. sip_moves cb (w, m) es s'"
proof (cases "call_view m cid = Some kConnected")
  case True
  then obtain c where c: "sm_calls m cid = Some c" "call_state c = kConnected"
    by (auto simp: call_view_def)
  let ?d = "SetState kDisconnecting c"
  obtain msg m1 where b: "BuildByeRequest cid (put_call cid ?d m) = (msg, m1)" by fastforce
  then have s: "same_but_counters (put_call cid ?d m) m1"
    using in_dialog_request_same by (simp add: BuildByeRequest_def)
  define m2 where "m2 = m1\<lparr>sm_calls := sm_calls m\<rparr>"
  have "same_but_counters m m2" "put_call cid ?d m2 = m1"
    using s by (cases m; cases m1; simp add: m2_def same_but_counters_def put_call_def)+
  moreover have "cb cid kDisconnecting (w, m1) = s'"
    using assms(1) b c by (auto simp: HangUp_def NotifyStateChange_def)
  ultimately show ?thesis using changed_after [of m m2 cid c ?d w s'] c by auto
next
  case False
  moreover have "call_view m cid \<noteq> Some kInProgress"
    using assms(2) by (auto simp: sip_wf_def settled_def)
  ultimately have "s' = (w, m)"
    using assms(1) by (auto simp: HangUp_def call_view_def split: option.splits if_splits)
  then show ?thesis using stay by blast
qed

lemma CancelCall_moves:
  assumes "CancelCall cb cid (w, m) = (r, s')"
  shows "\<exists>es. sip_moves cb (w, m) es s'"
  using assms drop_call_moves [of cid _ w m s']
  by (cases "sm_calls m cid") (auto simp: CancelCall_def intro: stay)

text \<open>What the handlers of messages and the timers do is unprompted.\<close>

lemma HandleInvite_moves:
  assumes "HandleInvite cb now msg (w, m) = s'"
  shows "unprompted_moves cb (w, m) s'"
proof -
  define cid where "cid = value_or [] (om_call_id msg)"
  let ?m = "cache_headers msg cid m"
  have cache: "sip_move cb (w, m) Silent (w, ?m)" by (rule silent) simp_all
  consider (none) "s' = (w, m)" | (cached) "s' = (w, ?m)" | (taken) "cid \<noteq> []" "sm_calls m cid = None"
    using assms by (auto simp: HandleInvite_def cid_def Let_def split: if_splits)
  then show ?thesis
  proof cases
    case taken
    let ?c = "StartTimer (fst now) (sc_retry_t1_ms (sm_config m)) (SetState kRinging (SipCall_new cid
       (sc_username (sm_config m) @ ''@'' @ sc_domain (sm_config m)) (''sip:'' @ remote_of msg)))"
    obtain w1 m1 where n: "cb cid kRinging (w, put_call cid ?c ?m) = (w1, m1)" by fastforce
    have "sip_move cb (w, ?m) (Created cid (call_state ?c)) (w1, m1)"
      by (rule created) (use taken n in \<open>simp_all add: live_def SetState_def call_view_def\<close>)
    with cache have 1: "unprompted_moves cb (w, m) (w1, m1)"
      by (intro unprompted_run [OF move [OF _ sip_moves_one]]) auto
    obtain tag m2 where g: "GenerateTag m1 = (tag, m2)" by fastforce
    obtain resp m3 where b: "BuildResponse 200 ''OK'' tag m2 = (resp, m3)" by fastforce
    have s: "same_but_counters m1 m3"
      using GenerateTag_same [OF g] BuildResponse_same [OF b] same_but_counters_trans by blast
    have "call_view m1 cid = Some kRinging" using notify(1) [OF n] by simp
    then obtain d where d: "sm_calls m1 cid = Some d" "call_state d = kRinging" by (auto simp: call_view_def)
    let ?e = "(SetState kConnected d)\<lparr>call_session_info :=
      (call_session_info (SetState kConnected d))\<lparr>ci_start_time := snd now\<rparr>\<rparr>"
    have "cb cid (call_state ?e) (w1, put_call cid ?e m3) = s'"
      using assms taken n b d same_but_counters_fields(2) [OF s]
      by (simp add: HandleInvite_def cid_def [symmetric] NotifyStateChange_def g Let_def)
    from changed_after [OF s d(1) _ _ this] have "unprompted_moves cb (w1, m1) s'"
      by (intro unprompted_run) (auto simp: d(2))
    with 1 show ?thesis by (rule unprompted_trans)
  qed (use unprompted_one [OF cache] in simp_all)
qed

text \<open>A call at rest is not ringing.\<close>

lemma not_ringing: "sip_wf m \<Longrightarrow> sm_calls m cid = Some c \<Longrightarrow> call_state c \<noteq> kRinging"
  using view_Some by (fastforce simp: sip_wf_def settled_def)

lemma drop_or_stay_moves:
  assumes "(case sm_calls m cid of None \<Rightarrow> (w, m) | Some c \<Rightarrow> drop_call cb cid c (w, m)) = s'" "sip_wf m"
  shows "unprompted_moves cb (w, m) s'"
proof (cases "sm_calls m cid")
  case (Some c)
  with assms drop_call_moves [of cid c w m s'] not_ringing [OF assms(2) Some] show ?thesis
    by (intro unprompted_run) auto
qed (use assms in auto)

lemma HandleBye_moves:
  assumes "HandleBye cb msg (w, m) = s'" "sip_wf m"
  shows "unprompted_moves cb (w, m) s'"
proof -
  let ?cid = "value_or [] (om_call_id msg)"
  obtain w1 m1 where d: "(case sm_calls m ?cid of None \<Rightarrow> (w, m) | Some c \<Rightarrow> drop_call cb ?cid c (w, m)) = (w1, m1)"
    by (rule prod.exhaust)
  obtain resp m2 where b: "BuildResponse 200 ''OK'' [] m1 = (resp, m2)" by fastforce
  have "s' = (w1, m2)" using assms(1) d b by (simp add: HandleBye_def Let_def)
  moreover have "unprompted_moves cb (w1, m1) (w1, m2)"
    by (rule unprompted_one [OF silent_counters [OF BuildResponse_same [OF b]]]) simp
  ultimately show ?thesis using unprompted_trans drop_or_stay_moves [OF d assms(2)] by metis
qed

lemma HandleCancel_moves:
  assumes "HandleCancel cb msg (w, m) = s'" "sip_wf m"
  shows "unprompted_moves cb (w, m) s'"
  using assms by (intro drop_or_stay_moves) (simp add: HandleCancel_def Let_def)

lemma HandleResponse_moves:
  assumes "HandleResponse cb msg (w, m) = s'" "sip_wf m"
  shows "unprompted_moves cb (w, m) s'"
proof -
  define cid where "cid = value_or [] (om_call_id msg)"
  let ?st = "om_status_code msg"
  consider (same) "s' = (w, m)"
    | (connect) c where "sm_calls m cid = Some c" "200 \<le> ?st" "?st < 300" "call_state c = kCalling"
    | (drop) c where "sm_calls m cid = Some c" "drop_call cb cid c (w, m) = s'"
    | (fail) c where "sm_calls m cid = Some c" "300 \<le> ?st"
    using assms(1) by (cases "sm_calls m cid") (auto simp: HandleResponse_def cid_def Let_def split: if_splits)
  then show ?thesis
  proof cases
    case connect
    obtain ack m1 where a: "BuildAckRequest cid m = (ack, m1)" by fastforce
    have s: "same_but_counters m m1" using a in_dialog_request_same by (simp add: BuildAckRequest_def)
    have "cb cid (call_state (SetState kConnected c)) (w, put_call cid (SetState kConnected c) m1) = s'"
      using assms(1) connect a by (simp add: HandleResponse_def cid_def [symmetric] NotifyStateChange_def)
    from changed_after [OF s connect(1) _ _ this] connect(4) show ?thesis by (intro unprompted_run) auto
  next
    case drop
    then show ?thesis using drop_or_stay_moves [of w m cid s'] assms(2) by simp
  next
    case fail
    let ?d = "SetError (''SIP '' @ show_int ?st) (SetState kFailed c)"
    have e: "cb cid (call_state ?d) (w, put_call cid ?d m) = s'"
      using assms(1) fail by (simp add: HandleResponse_def cid_def [symmetric] NotifyStateChange_def)
    have "sip_move cb (w, m) (Changed cid (call_state c) (call_state ?d)) s'"
      by (rule changed [OF fail(1)]) (use e in simp_all)
    then show ?thesis by (rule unprompted_one) (simp add: not_ringing [OF assms(2) fail(1)])
  qed simp
qed

lemma message_moves:
  assumes "ProcessIncomingMessage parse cb now raw (w, m) = s'" "sip_wf m"
  shows "unprompted_moves cb (w, m) s'"
proof -
  consider (same) "s' = (w, m)" | (response) msg where "HandleResponse cb msg (w, m) = s'"
    | (invite) msg where "HandleInvite cb now msg (w, m) = s'" | (bye) msg where "HandleBye cb msg (w, m) = s'"
    | (cancel) msg where "HandleCancel cb msg (w, m) = s'"
    using assms(1) by (auto simp: ProcessIncomingMessage_def HandleAck_def split: option.splits if_splits)
  then show ?thesis
    using assms(2) HandleResponse_moves HandleInvite_moves HandleBye_moves HandleCancel_moves
    by cases (simp, blast+)
qed

lemma timer_step_wf:
  assumes "timer_step cb t cid (w, m) = (w', m')" "sip_wf m"
  shows "sip_wf m'"
proof -
  obtain t1 t2 t3 where t: "t = (t1, t2, t3)" by (cases t)
  have "settled kFailed" by (simp add: settled_def)
  with timer_step_effect(1,3) [OF assms(1) [unfolded t]] assms(2) show ?thesis
    unfolding sip_wf_def by (metis fun_upd_apply option.inject)
qed

lemma timer_step_moves:
  assumes "timer_step cb t cid (w, m) = s'" "sip_wf m"
  shows "unprompted_moves cb (w, m) s'"
proof (cases "sm_calls m cid")
  case (Some c)
  obtain t1 t2 t3 where t: "t = (t1, t2, t3)" by (cases t)
  have id: "call_id c = cid" using calls_wfD [OF _ Some] assms(2) by (simp add: call_wf_def sip_wf_def)
  consider (same) "s' = (w, m)" | (again) n where "s' = (w, put_call cid (StartTimer t3 n (IncrementRetransmit c)) m)"
    | (fail) "cb cid kFailed (w, put_call cid (SetState kFailed c) m) = s'"
    using assms(1) by (auto simp: timer_step_def t Some Let_def NotifyStateChange_def id split: if_splits)
  then show ?thesis
  proof cases
    case (again n)
    have "sip_move cb (w, m) (Timed cid) s'" unfolding again by (rule timed [OF Some]) simp_all
    then show ?thesis by (rule unprompted_one) simp
  next
    case fail
    have "sip_move cb (w, m) (Changed cid (call_state c) (call_state (SetState kFailed c))) s'"
      by (rule changed [OF Some]) (simp_all add: fail)
    then show ?thesis by (rule unprompted_one) (simp add: not_ringing [OF assms(2) Some])
  qed simp
qed (use assms in \<open>auto simp: timer_step_def split: prod.splits\<close>)

lemma timers_moves:
  "ProcessTimers cb clk ids (w, m) = s' \<Longrightarrow> sip_wf m \<Longrightarrow> unprompted_moves cb (w, m) s'"
proof (induction ids arbitrary: w m)
  case (Cons cid ids)
  obtain w1 m1 where t: "timer_step cb (clk cid) cid (w, m) = (w1, m1)" by (rule prod.exhaust)
  have "ProcessTimers cb clk ids (w1, m1) = s'" using Cons.prems(1) t by (simp add: ProcessTimers_def)
  from unprompted_trans [OF timer_step_moves [OF t Cons.prems(2)] Cons.IH [OF this timer_step_wf [OF t Cons.prems(2)]]]
  show ?case .
qed (auto simp: ProcessTimers_def)

lemma sdp_moves:
  assumes "ProcessIncomingSdp cid body m = (ok, m')"
  shows "\<exists>es. sip_moves cb (w, m) es (w, m')
     \<and> (\<forall>e \<in> set es. \<exists>c. sm_calls m cid = Some c \<and> e = Negotiated cid (call_state c))"
proof -
  obtain b desc where p: "SdpBuilder_Parse body SdpSession_new = (b, desc)" by (rule prod.exhaust)
  show ?thesis
  proof (cases "b \<and> sm_calls m cid \<noteq> None")
    case True
    then obtain c where c: "sm_calls m cid = Some c" by auto
    then have "m' = put_call cid (c\<lparr>call_session_info := sdp_to_info desc (call_session_info c)\<rparr>) m"
      using assms True by (simp add: ProcessIncomingSdp_def p)
    with sip_moves_one [OF negotiated [OF c, of cb w desc]] c show ?thesis
      by (intro exI [of _ "[Negotiated cid (call_state c)]"]) simp
  next
    case False
    then have "m' = m" using assms by (auto simp: ProcessIncomingSdp_def p split: bool.splits option.splits)
    then show ?thesis by (intro exI [of _ "[]"]) (simp add: stay)
  qed
qed

lemma registration_moves:
  "Register cb (w, m) = (ok, s') \<Longrightarrow> unprompted_moves cb (w, m) s'"
  "Unregister cb (w, m) = (ok, s') \<Longrightarrow> unprompted_moves cb (w, m) s'"
proof -
  have go: "unprompted_moves cb (w, m) s'"
    if "cb [] st (w, m\<lparr>sm_registered := b\<rparr>) = s'" "st \<in> {kRegistered, kUnregistered}" for st b
  proof -
    have "sip_move cb (w, m) Silent (w, m\<lparr>sm_registered := b\<rparr>)" by (rule silent) simp_all
    moreover have "sip_move cb (w, m\<lparr>sm_registered := b\<rparr>) (Reported st) s'"
      by (rule reported) (use that in simp_all)
    ultimately show ?thesis by (intro unprompted_run [OF move [OF _ sip_moves_one]]) auto
  qed
  show "Register cb (w, m) = (ok, s') \<Longrightarrow> unprompted_moves cb (w, m) s'"
    using go [of kRegistered True] by (auto simp: Register_def split: if_splits)
  show "Unregister cb (w, m) = (ok, s') \<Longrightarrow> unprompted_moves cb (w, m) s'"
    using go [of kUnregistered False] by (auto simp: Unregister_def split: if_splits)
qed

end

end
