(* ===== verification/Session_Manager.thy ===== *)
theory Session_Manager
  imports Sip_Manager Rtp_Session Rtcp_Handler Jitter_Buffer H264_Fragmenter Aac_Packetizer
    Media_Codec Io_Multiplexer "HOL-Library.AList"
begin

text \<open>
  The session manager (\<open>session/session_manager.h\<close>, \<open>session/session_manager.cpp\<close>), which ties the
  signalling to the media: a context per connected call, with its RTP sessions, jitter buffers and
  codecs, the callbacks of the event loop, and the RTCP timer. The manager owns the SIP manager and
  the event loop; the state here is the rest of it, and the operations work on the three together.
  Random draws, system calls, clocks and FFmpeg's answers are arguments, gathered in environments.
\<close>

section \<open>State\<close>

text \<open>
  A call's context. Encoders and decoders are tested for null by the code and are options; the other
  parts are set once, at creation, and never reset, so the tests for them always succeed.
\<close>

record call_context =
  cx_audio_rtp :: rtp_session
  cx_video_rtp :: rtp_session
  cx_rtcp :: rtcp_handler
  cx_audio_jitter :: jitter_buffer
  cx_video_jitter :: jitter_buffer
  cx_audio_encoder :: "media_encoder option"
  cx_video_encoder :: "media_encoder option"
  cx_audio_decoder :: "media_decoder option"
  cx_video_decoder :: "media_decoder option"
  cx_info :: call_session_info
  cx_call_id :: string

text \<open>What the closures registered with the event loop capture, and its timer.\<close>

datatype rtp_callback = AudioData string | VideoData string | RtcpTimer

text \<open>Which function the SIP manager calls on an event.\<close>

datatype event_target = NoTarget | SessionTarget | UserTarget

text \<open>
  \<open>sess_created\<close> and \<open>sess_received\<close> count the contexts made and the receive callbacks run, and index
  the environment; \<open>sess_sent\<close> and \<open>sess_delivered\<close> record the datagrams handed to \<open>sendto\<close> and the
  calls of the packet callback. \<open>sess_blocked\<close> is the fault of a SIP event that could not return.
\<close>

record session_manager =
  sess_config :: server_config
  sess_contexts :: "(string \<times> call_context) list"
  sess_thread_pool :: "nat option"
  sess_rtp_thread :: bool
  sess_rtp_running :: bool
  sess_event_target :: event_target
  sess_packet_callback :: bool
  sess_created :: nat
  sess_received :: nat
  sess_sent :: "datagram_out list"
  sess_delivered :: "(string \<times> bytes \<times> rtp_payload_type) list"
  sess_blocked :: "io_fault option"

type_synonym session_io = "(session_manager, rtp_callback) io_state"
type_synonym session_state = "session_io sip_state"

definition SessionManager_new :: "server_config \<Rightarrow> session_manager" where
  "SessionManager_new config =
     \<lparr>sess_config = config, sess_contexts = [], sess_thread_pool = None, sess_rtp_thread = False,
      sess_rtp_running = False, sess_event_target = NoTarget, sess_packet_callback = False,
      sess_created = 0, sess_received = 0, sess_sent = [], sess_delivered = [],
      sess_blocked = None\<rparr>"

definition find_context :: "string \<Rightarrow> session_manager \<Rightarrow> call_context option" where
  "find_context cid s = map_of (sess_contexts s) cid"

definition put_context :: "string \<Rightarrow> call_context \<Rightarrow> session_manager \<Rightarrow> session_manager" where
  "put_context cid c s = s\<lparr>sess_contexts := AList.update cid c (sess_contexts s)\<rparr>"

section \<open>Creating and removing contexts\<close>

text \<open>
  What the outside answers while one context is made: the two SSRCs drawn, the draws of the two RTP
  session constructors, the results of opening the four sockets, \<open>getsockname\<close> on the two senders,
  the clock in the RTCP handler, the codecs, and \<open>epoll_ctl\<close> for the two receive sockets.
\<close>

record context_env =
  ce_ssrc :: "u32 \<times> u32"
  ce_audio_rnd :: "u32 \<times> u32"
  ce_video_rnd :: "u32 \<times> u32"
  ce_audio_open :: "open_results \<times> open_results"
  ce_video_open :: "open_results \<times> open_results"
  ce_names :: "(int \<times> sockaddr_in) \<times> (int \<times> sockaddr_in)"
  ce_now :: time_ns
  ce_audio_codecs :: "codec_setup \<times> codec_setup"
  ce_video_codecs :: "codec_setup \<times> codec_setup"
  ce_epoll_add :: "int \<times> int"

text \<open>
  What one receive callback meets: the answer of \<open>recvfrom\<close>, the clock, and what the decoder answers:
  \<open>avcodec_send_packet\<close>, the samples of an audio frame, the picture of a video frame.
\<close>

record rx_env =
  rx_outcome :: recv_outcome
  rx_now :: time_ns
  rx_send :: int
  rx_pcm :: "(nat \<times> nat \<times> bytes) option"
  rx_picture :: "av_picture option"

text \<open>
  The environment of a session manager: the library functions it relies on, the answers above by the
  count of their use, and the answers of \<open>epoll_ctl\<close> when a context's sockets are removed.
\<close>

record session_env =
  se_inet_addr :: "string \<Rightarrow> u32"
  se_inet_ntop :: "u32 \<Rightarrow> string"
  se_inet_pton :: "string \<Rightarrow> u32"
  se_sort :: "buffer_item list \<Rightarrow> buffer_item list"
  se_context :: "nat \<Rightarrow> context_env"
  se_epoll_del :: "string \<Rightarrow> int \<times> int"
  se_rx :: "nat \<Rightarrow> rx_env"

definition EPOLLIN :: u32 where "EPOLLIN = 1"

text \<open>Two RTP sockets are opened on a port and on that port plus two.\<close>

definition open_rtp ::
  "session_env \<Rightarrow> open_results \<times> open_results \<Rightarrow> u16 \<Rightarrow> rtp_session \<Rightarrow> rtp_session" where
  "open_rtp env r port rs =
     snd (OpenRecvSocket (se_inet_addr env) (snd r) (port + 2)
            (snd (OpenSendSocket (se_inet_addr env) (fst r) port rs)))"

definition session_jitter_config :: "server_config \<Rightarrow> jitter_buffer_config" where
  "session_jitter_config config =
     default_jitter_config\<lparr>jc_sample_rate := mc_audio_sample_rate (cfg_media config),
                           jc_initial_delay_ms := 0\<rparr>"

definition new_context ::
  "session_env \<Rightarrow> context_env \<Rightarrow> server_config \<Rightarrow> string \<Rightarrow> call_session_info \<Rightarrow> call_context" where
  "new_context env ce config cid info =
     (let media = cfg_media config;
          audio_ssrc = fst (ce_ssrc ce);
          audio_rtp = open_rtp env (ce_audio_open ce) (mc_audio_port media)
            (RtpSession_new (fst (ce_audio_rnd ce)) (snd (ce_audio_rnd ce)) audio_ssrc kAAC);
          video_rtp = open_rtp env (ce_video_open ce) (mc_video_port media)
            (RtpSession_new (fst (ce_video_rnd ce)) (snd (ce_video_rnd ce)) (snd (ce_ssrc ce)) kH264);
          rate = sint (mc_audio_sample_rate media);
          audio_encoder = snd (MediaEncoder_Initialize (fst (ce_audio_codecs ce)) rate 1 640 480 30
            (MediaEncoder_new (mc_audio_codec media)));
          video_encoder = snd (MediaEncoder_Initialize (fst (ce_video_codecs ce)) rate 1
            (sint (mc_video_width media)) (sint (mc_video_height media)) (sint (mc_video_fps media))
            (MediaEncoder_new (mc_video_codec media)));
          audio_decoder = snd (MediaDecoder_Initialize (snd (ce_audio_codecs ce))
            (MediaDecoder_new (mc_audio_codec media)));
          video_decoder = snd (MediaDecoder_Initialize (snd (ce_video_codecs ce))
            (MediaDecoder_new (mc_video_codec media)))
      in \<lparr>cx_audio_rtp = audio_rtp, cx_video_rtp = video_rtp,
          cx_rtcp = RtcpHandler_new audio_ssrc (ce_now ce),
          cx_audio_jitter = JitterBuffer_new (session_jitter_config config),
          cx_video_jitter = JitterBuffer_new (session_jitter_config config),
          cx_audio_encoder = Some audio_encoder, cx_video_encoder = Some video_encoder,
          cx_audio_decoder = Some audio_decoder, cx_video_decoder = Some video_decoder,
          cx_info = info\<lparr>ci_local_ssrc := Some audio_ssrc,
                         ci_audio_local_port := Some (LocalSendPort (fst (ce_names ce)) audio_rtp),
                         ci_video_local_port := Some (LocalSendPort (snd (ce_names ce)) video_rtp)\<rparr>,
          cx_call_id = cid\<rparr>)"

text \<open>One descriptor, if the socket has one, is registered under the given closure.\<close>

definition register_fd ::
  "int \<Rightarrow> int \<Rightarrow> rtp_callback \<Rightarrow> rtp_callback io_multiplexer \<Rightarrow> io_fault + rtp_callback io_multiplexer" where
  "register_fd ret fd callback mx =
     (if 0 \<le> fd then map_sum id snd (AddFd ret fd EPOLLIN (Some callback) mx) else Inr mx)"

definition RegisterRtpFds ::
  "int \<times> int \<Rightarrow> call_context \<Rightarrow> rtp_callback io_multiplexer \<Rightarrow> io_fault + rtp_callback io_multiplexer" where
  "RegisterRtpFds ret ctx mx =
     (case register_fd (fst ret) (RecvFd (cx_audio_rtp ctx)) (AudioData (cx_call_id ctx)) mx of
        Inl f \<Rightarrow> Inl f
      | Inr mx' \<Rightarrow> register_fd (snd ret) (RecvFd (cx_video_rtp ctx)) (VideoData (cx_call_id ctx)) mx')"

definition unregister_fd ::
  "int \<Rightarrow> int \<Rightarrow> rtp_callback io_multiplexer \<Rightarrow> io_fault + rtp_callback io_multiplexer" where
  "unregister_fd ret fd mx = (if 0 \<le> fd then map_sum id snd (DelFd ret fd mx) else Inr mx)"

definition UnregisterRtpFds ::
  "int \<times> int \<Rightarrow> call_context \<Rightarrow> rtp_callback io_multiplexer \<Rightarrow> io_fault + rtp_callback io_multiplexer" where
  "UnregisterRtpFds ret ctx mx =
     (case unregister_fd (fst ret) (RecvFd (cx_audio_rtp ctx)) mx of
        Inl f \<Rightarrow> Inl f
      | Inr mx' \<Rightarrow> unregister_fd (snd ret) (RecvFd (cx_video_rtp ctx)) mx')"

text \<open>An operation on the event loop inside a SIP event: its fault is recorded.\<close>

definition with_epoll ::
  "io_fault + rtp_callback io_multiplexer \<Rightarrow> session_io \<Rightarrow> session_io" where
  "with_epoll r io =
     (case r of Inl f \<Rightarrow> ((fst io)\<lparr>sess_blocked := Some f\<rparr>, snd io) | Inr mx \<Rightarrow> (fst io, mx))"

definition GetOrCreateContext ::
  "session_env \<Rightarrow> string \<Rightarrow> call_session_info \<Rightarrow> session_io \<Rightarrow> call_context \<times> session_io" where
  "GetOrCreateContext env cid info io =
     (case io of (s, mx) \<Rightarrow>
        (case find_context cid s of
           Some ctx \<Rightarrow> (ctx, io)
         | None \<Rightarrow>
             let ce = se_context env (sess_created s);
                 ctx = new_context env ce (sess_config s) cid info;
                 s' = put_context cid ctx (s\<lparr>sess_created := Suc (sess_created s)\<rparr>)
             in (ctx, with_epoll (RegisterRtpFds (ce_epoll_add ce) ctx mx) (s', mx))))"

definition RemoveContext :: "session_env \<Rightarrow> string \<Rightarrow> session_io \<Rightarrow> session_io" where
  "RemoveContext env cid io =
     (case io of (s, mx) \<Rightarrow>
        (case find_context cid s of
           None \<Rightarrow> io
         | Some ctx \<Rightarrow>
             with_epoll (UnregisterRtpFds (se_epoll_del env cid) ctx mx)
               (s\<lparr>sess_contexts := AList.delete cid (sess_contexts s)\<rparr>, mx)))"

text \<open>The handler of SIP events, and the function the SIP manager calls.\<close>

definition OnSipEvent :: "session_env \<Rightarrow> session_io sip_callback" where
  "OnSipEvent env cid st s =
     (case s of (io, sip) \<Rightarrow>
        if st = kConnected
        then (case GetCall cid sip of
                None \<Rightarrow> s
              | Some call \<Rightarrow>
                  (case GetOrCreateContext env cid (call_session_info call) io of
                     (ctx, io') \<Rightarrow>
                       (io', put_call cid
                          (call\<lparr>call_session_info := (call_session_info call)
                             \<lparr>ci_audio_local_port := ci_audio_local_port (cx_info ctx),
                              ci_video_local_port := ci_video_local_port (cx_info ctx)\<rparr>\<rparr>) sip)))
        else if st = kDisconnected \<or> st = kFailed then (RemoveContext env cid io, sip)
        else s)"

text \<open>
  The event target at the time of the event. A user's callback is taken to leave the manager alone:
  the one of the server program only logs.
\<close>

definition SipEvent :: "session_env \<Rightarrow> session_io sip_callback" where
  "SipEvent env cid st s =
     (if sess_event_target (fst (fst s)) = SessionTarget then OnSipEvent env cid st s else s)"

section \<open>Starting, stopping, call control\<close>

text \<open>
  \<open>Start\<close>; \<open>None\<close> is the assignment to a thread object that is still running, which ends the process.
\<close>

definition SessionManager_Start :: "bool \<Rightarrow> session_state \<Rightarrow> (bool \<times> session_state) option" where
  "SessionManager_Start osip_ok s =
     (case s of ((sess, mx), sip) \<Rightarrow>
        (case Initialize osip_ok (cfg_sip (sess_config sess)) sip of
           (False, sip') \<Rightarrow> Some (False, ((sess, mx), sip'))
         | (True, sip') \<Rightarrow>
             if sess_rtp_thread sess then None
             else Some (True, ((sess\<lparr>sess_event_target := SessionTarget,
                                     sess_thread_pool := Some (unat (cfg_worker_threads (sess_config sess))),
                                     sess_rtp_running := True, sess_rtp_thread := True\<rparr>, mx), sip'))))"

text \<open>\<open>Stop\<close>, from the point where the joined thread has returned.\<close>

definition SessionManager_Stop :: "session_env \<Rightarrow> session_state \<Rightarrow> session_state" where
  "SessionManager_Stop env s =
     (case s of ((sess, mx), sip) \<Rightarrow>
        let sess1 = sess\<lparr>sess_rtp_running := False, sess_rtp_thread := False, sess_thread_pool := None\<rparr>
        in (case Shutdown (SipEvent env) ((sess1, IoMultiplexer_Stop mx), sip) of
              ((sess2, mx2), sip2) \<Rightarrow> ((sess2\<lparr>sess_contexts := []\<rparr>, mx2), sip2)))"

definition SessionManager_MakeCall ::
  "session_env \<Rightarrow> time_ns \<Rightarrow> string \<Rightarrow> session_state \<Rightarrow> string \<times> session_state" where
  "SessionManager_MakeCall env now callee_uri s =
     (if unat (cfg_max_sessions (sess_config (fst (fst s)))) \<le> length (sess_contexts (fst (fst s)))
      then ([], s) else MakeCall (SipEvent env) now callee_uri s)"

definition SessionManager_HangUp ::
  "session_env \<Rightarrow> string \<Rightarrow> session_state \<Rightarrow> bool \<times> session_state" where
  "SessionManager_HangUp env cid s = HangUp (SipEvent env) cid s"

definition AcceptCall ::
  "session_env \<Rightarrow> time_ns \<Rightarrow> string \<Rightarrow> session_state \<Rightarrow> bool \<times> session_state" where
  "AcceptCall env now cid s = AnswerCall (SipEvent env) now cid True s"

definition GetCallInfo :: "string \<Rightarrow> session_manager \<Rightarrow> call_session_info option" where
  "GetCallInfo cid s = map_option cx_info (find_context cid s)"

definition SetSipEventCallback :: "session_manager \<Rightarrow> session_manager" where
  "SetSipEventCallback s = s\<lparr>sess_event_target := UserTarget\<rparr>"

definition SetRtpPacketCallback :: "session_manager \<Rightarrow> session_manager" where
  "SetRtpPacketCallback s = s\<lparr>sess_packet_callback := True\<rparr>"

end
