(* ===== verification/Session_Media.thy ===== *)
theory Session_Media
  imports Session_Manager
begin

text \<open>
  The media side of the session manager (\<open>session/session_manager.cpp\<close>): sending encoded frames,
  the receive callbacks of the event loop with the jitter buffer and the decoders behind them, the
  RTCP timer, and the loop itself. \<open>None\<close> is undefined behaviour: an access out of bounds, a read of
  a port that was never set, or a division by zero.
\<close>

section \<open>Sending\<close>

definition record_sent :: "datagram_out option \<Rightarrow> session_manager \<Rightarrow> session_manager" where
  "record_sent d s = (case d of None \<Rightarrow> s | Some x \<Rightarrow> s\<lparr>sess_sent := sess_sent s @ [x]\<rparr>)"

text \<open>
  What one audio send meets: the buffer of \<open>av_frame_get_buffer\<close>, the results of
  \<open>avcodec_send_frame\<close> and \<open>avcodec_receive_packet\<close>, and of \<open>sendto\<close>. The samples are given as the
  bytes of the caller's array.
\<close>

record tx_env =
  tx_buffer :: "bytes option"
  tx_send :: int
  tx_packet :: "bytes option"
  tx_sendto :: "nat \<Rightarrow> int"

definition send_audio_payload ::
  "session_env \<Rightarrow> int \<Rightarrow> string \<Rightarrow> bytes \<Rightarrow> call_context \<Rightarrow> session_manager
   \<Rightarrow> (bool \<times> session_manager) option" where
  "send_audio_payload env ret cid payload ctx s =
     do {
       port \<leftarrow> ci_audio_remote_port (cx_info ctx);
       (case SendPacket (se_inet_addr env) ret payload (ci_remote_rtp_addr (cx_info ctx)) port False
               (cx_audio_rtp ctx) of
          (ok, rtp, d) \<Rightarrow>
            Some (ok, record_sent d (put_context cid (ctx\<lparr>cx_audio_rtp := rtp\<rparr>) s)))
     }"

definition advance_audio :: "nat \<Rightarrow> call_context \<Rightarrow> call_context" where
  "advance_audio samples ctx =
     ctx\<lparr>cx_audio_rtp := AdvanceTimestamp (of_nat samples) (cx_audio_rtp ctx)\<rparr>"

definition SendAudioFrame ::
  "session_env \<Rightarrow> tx_env \<Rightarrow> string \<Rightarrow> bytes \<Rightarrow> nat \<Rightarrow> session_manager \<Rightarrow> (bool \<times> session_manager) option" where
  "SendAudioFrame env tx cid pcm samples s =
     (case find_context cid s of
        None \<Rightarrow> Some (False, s)
      | Some ctx \<Rightarrow>
          (case cx_audio_encoder ctx of
             Some enc \<Rightarrow>
               do {
                 (ok, encoded, enc') \<leftarrow> EncodeAudio (tx_buffer tx) (tx_send tx) (tx_packet tx) pcm samples enc;
                 let ctx1 = ctx\<lparr>cx_audio_encoder := Some enc'\<rparr>;
                 (if \<not> ok then Some (False, put_context cid ctx1 s)
                  else send_audio_payload env (tx_sendto tx 0) cid (AacPacketizer_Pack encoded)
                         (advance_audio samples ctx1) s)
               }
           | None \<Rightarrow>
               do {
                 data \<leftarrow> rd_block pcm 0 (2 * samples);
                 send_audio_payload env (tx_sendto tx 0) cid data (advance_audio samples ctx) s
               }))"

text \<open>The loop over the fragments of a video frame; the results of the sends are not used.\<close>

fun send_fragments ::
  "session_env \<Rightarrow> (nat \<Rightarrow> int) \<Rightarrow> string \<Rightarrow> u16 \<Rightarrow> nat \<Rightarrow> bytes list \<Rightarrow> rtp_session
   \<Rightarrow> datagram_out list \<times> rtp_session" where
  "send_fragments env ret addr port i [] rtp = ([], rtp)"
| "send_fragments env ret addr port i (f # fs) rtp =
     (case SendPacket (se_inet_addr env) (ret i) f addr port (fs = []) rtp of
        (ok, rtp', d) \<Rightarrow>
          (case send_fragments env ret addr port (Suc i) fs rtp' of
             (ds, rtp'') \<Rightarrow> ((case d of None \<Rightarrow> [] | Some x \<Rightarrow> [x]) @ ds, rtp'')))"

definition SendVideoFrame ::
  "session_env \<Rightarrow> tx_env \<Rightarrow> string \<Rightarrow> bytes \<Rightarrow> session_manager \<Rightarrow> (bool \<times> session_manager) option" where
  "SendVideoFrame env tx cid yuv s =
     (case find_context cid s of
        None \<Rightarrow> Some (False, s)
      | Some ctx \<Rightarrow>
          (case cx_video_encoder ctx of
             None \<Rightarrow> Some (False, s)
           | Some enc \<Rightarrow>
               do {
                 (ok, encoded, enc') \<leftarrow> EncodeVideo (tx_send tx) (tx_packet tx) yuv enc;
                 let ctx1 = ctx\<lparr>cx_video_encoder := Some enc'\<rparr>;
                 (if \<not> ok then Some (False, put_context cid ctx1 s)
                  else do {
                    fragments \<leftarrow> H264Fragmenter_Fragment encoded kRtpMaxPayloadSize;
                    port \<leftarrow> (if fragments = [] then Some 0 else ci_video_remote_port (cx_info ctx));
                    let fps = mc_video_fps (cfg_media (sess_config s));
                    (if fps = 0 then None
                     else (case send_fragments env (tx_sendto tx) (ci_remote_rtp_addr (cx_info ctx)) port 0
                                  fragments (cx_video_rtp ctx) of
                             (ds, rtp) \<Rightarrow>
                               Some (True,
                                 (put_context cid (ctx1\<lparr>cx_video_rtp := AdvanceTimestamp (90000 div fps) rtp\<rparr>) s)
                                   \<lparr>sess_sent := sess_sent s @ ds\<rparr>)))
                  })
               }))"

section \<open>Receiving\<close>

definition deliver_data ::
  "string \<Rightarrow> bytes \<Rightarrow> rtp_payload_type \<Rightarrow> session_manager \<Rightarrow> session_manager" where
  "deliver_data cid data pt s =
     (if sess_packet_callback s then s\<lparr>sess_delivered := sess_delivered s @ [(cid, data, pt)]\<rparr> else s)"

definition OnRtpData ::
  "rx_env \<Rightarrow> string \<Rightarrow> rtp_payload_type \<Rightarrow> bytes \<Rightarrow> session_manager \<Rightarrow> session_manager option" where
  "OnRtpData rx cid pt payload s =
     (if payload = [] then Some s
      else (case find_context cid s of
        None \<Rightarrow> Some s
      | Some ctx \<Rightarrow>
          if pt = kAAC \<and> cx_audio_decoder ctx \<noteq> None
          then do {
            unpacked \<leftarrow> AacPacketizer_Unpack payload;
            (case unpacked of
               Inl u \<Rightarrow> Some s
             | Inr aac \<Rightarrow>
                 do {
                   (ok, pcm) \<leftarrow> DecodeAudio (rx_send rx) (rx_pcm rx) aac [] (the (cx_audio_decoder ctx));
                   Some (if ok then deliver_data cid pcm pt s else s)
                 })
          }
          else if pt = kPCMU \<or> pt = kPCMA then Some (deliver_data cid payload pt s)
          else if pt = kH264 \<and> cx_video_decoder ctx \<noteq> None
          then do {
            (ok, yuv, w, h) \<leftarrow> Decode (rx_send rx) (rx_picture rx) payload ([], 0, 0) (the (cx_video_decoder ctx));
            Some (if ok then deliver_data cid yuv pt s else s)
          }
          else Some s))"

text \<open>
  The two receive closures. They differ in the half of the context they use and in the payload type
  handed on: the one of the packet, or H.264.
\<close>

definition on_audio_data ::
  "session_env \<Rightarrow> rx_env \<Rightarrow> string \<Rightarrow> session_manager \<Rightarrow> session_manager option" where
  "on_audio_data env rx cid s =
     (case find_context cid s of
        None \<Rightarrow> Some s
      | Some ctx \<Rightarrow>
          do {
            (n, rtp) \<leftarrow> ReceivePacket (se_inet_ntop env) (rx_outcome rx) (cx_audio_rtp ctx);
            let ctx1 = ctx\<lparr>cx_audio_rtp := rtp\<rparr>;
            (if n \<le> 0 then Some (put_context cid ctx1 s)
             else do {
               (ok, jb) \<leftarrow> JitterBuffer_Insert (se_sort env) (rx_now rx) (rs_last_packet rtp)
                              (cx_audio_jitter ctx);
               (case JitterBuffer_Extract jb of (ready, jb') \<Rightarrow>
                  let s1 = put_context cid (ctx1\<lparr>cx_audio_jitter := jb'\<rparr>) s in
                  (case ready of
                     None \<Rightarrow> Some s1
                   | Some p \<Rightarrow> OnRtpData rx cid (PayloadType p) (pkt_payload p) s1))
             })
          })"

definition on_video_data ::
  "session_env \<Rightarrow> rx_env \<Rightarrow> string \<Rightarrow> session_manager \<Rightarrow> session_manager option" where
  "on_video_data env rx cid s =
     (case find_context cid s of
        None \<Rightarrow> Some s
      | Some ctx \<Rightarrow>
          do {
            (n, rtp) \<leftarrow> ReceivePacket (se_inet_ntop env) (rx_outcome rx) (cx_video_rtp ctx);
            let ctx1 = ctx\<lparr>cx_video_rtp := rtp\<rparr>;
            (if n \<le> 0 then Some (put_context cid ctx1 s)
             else do {
               (ok, jb) \<leftarrow> JitterBuffer_Insert (se_sort env) (rx_now rx) (rs_last_packet rtp)
                              (cx_video_jitter ctx);
               (case JitterBuffer_Extract jb of (ready, jb') \<Rightarrow>
                  let s1 = put_context cid (ctx1\<lparr>cx_video_jitter := jb'\<rparr>) s in
                  (case ready of
                     None \<Rightarrow> Some s1
                   | Some p \<Rightarrow> OnRtpData rx cid kH264 (pkt_payload p) s1))
             })
          })"

section \<open>RTCP\<close>

definition rtcp_cname :: "call_context \<Rightarrow> string" where
  "rtcp_cname ctx =
     (if ci_callee_uri (cx_info ctx) = [] then ''rtcom@unknown'' else ci_callee_uri (cx_info ctx))"

text \<open>
  One context in \<open>OnRtcpTimer\<close>: the compound packet is built in any case, and sent when a remote
  address is known, to the port after the remote audio port.
\<close>

definition rtcp_for ::
  "session_env \<Rightarrow> nat \<Rightarrow> call_context \<Rightarrow> datagram_out list option" where
  "rtcp_for env now_ns ctx =
     do {
       compound \<leftarrow> BuildCompound (cx_rtcp ctx) (rtcp_cname ctx) (NowNtp now_ns)
                     (rs_current_timestamp (cx_audio_rtp ctx)) (rs_packets_sent (cx_audio_rtp ctx))
                     (ucast (rs_bytes_sent (cx_audio_rtp ctx)));
       (if ci_remote_rtp_addr (cx_info ctx) = [] \<or> SendFd (cx_audio_rtp ctx) < 0 then Some []
        else do {
          port \<leftarrow> ci_audio_remote_port (cx_info ctx);
          Some [(SendFd (cx_audio_rtp ctx), compound,
                 \<lparr>sin_family = AF_INET, sin_port = htons (port + 1),
                  sin_addr = se_inet_pton env (ci_remote_rtp_addr (cx_info ctx))\<rparr>)]
        })
     }"

fun rtcp_loop ::
  "session_env \<Rightarrow> (string \<Rightarrow> nat) \<Rightarrow> (string \<times> call_context) list \<Rightarrow> datagram_out list option" where
  "rtcp_loop env now_ns [] = Some []"
| "rtcp_loop env now_ns ((cid, ctx) # cs) =
     do {
       d \<leftarrow> rtcp_for env (now_ns cid) ctx;
       ds \<leftarrow> rtcp_loop env now_ns cs;
       Some (d @ ds)
     }"

text \<open>The wall clock is read for each context. The list is the map in its iteration order.\<close>

definition OnRtcpTimer :: "session_env \<Rightarrow> (string \<Rightarrow> nat) \<Rightarrow> session_manager \<Rightarrow> session_manager option" where
  "OnRtcpTimer env now_ns s =
     map_option (\<lambda>ds. s\<lparr>sess_sent := sess_sent s @ ds\<rparr>) (rtcp_loop env now_ns (sess_contexts s))"

section \<open>The event loop\<close>

definition or_undefined :: "'a option \<Rightarrow> 'b \<Rightarrow> io_fault + 'a \<times> 'b" where
  "or_undefined r x = (case r of None \<Rightarrow> Inl UndefinedBehaviour | Some a \<Rightarrow> Inr (a, x))"

text \<open>The closures as the event loop's callbacks: descriptors, then timers.\<close>

definition RtpEvent :: "session_env \<Rightarrow> (session_manager, rtp_callback) event_callback" where
  "RtpEvent env c fd revents io =
     (case io of (s, mx) \<Rightarrow>
        let rx = se_rx env (sess_received s); s1 = s\<lparr>sess_received := Suc (sess_received s)\<rparr> in
        (case c of
           AudioData cid \<Rightarrow> or_undefined (on_audio_data env rx cid s1) mx
         | VideoData cid \<Rightarrow> or_undefined (on_video_data env rx cid s1) mx
         | RtcpTimer \<Rightarrow> Inr io))"

definition RtpTimer ::
  "session_env \<Rightarrow> (string \<Rightarrow> nat) \<Rightarrow> (session_manager, rtp_callback) timer_callback" where
  "RtpTimer env now_ns c io =
     (case io of (s, mx) \<Rightarrow>
        (case c of RtcpTimer \<Rightarrow> or_undefined (OnRtcpTimer env now_ns s) mx | _ \<Rightarrow> Inr io))"

text \<open>\<open>RtpEventLoop\<close>: the recurring RTCP timer, then the loop with a timeout of one second.\<close>

definition RtpEventLoop ::
  "session_env \<Rightarrow> (string \<Rightarrow> nat) \<Rightarrow> u64 \<Rightarrow> loop_turn list \<Rightarrow> session_io
   \<Rightarrow> io_fault + int list \<times> bool \<times> session_io" where
  "RtpEventLoop env now_ns now turns io =
     (case io of (s, mx) \<Rightarrow>
        (case AddTimer now 5000 True (Some RtcpTimer) mx of
           Inl f \<Rightarrow> Inl f
         | Inr (i, mx') \<Rightarrow> IoMultiplexer_Run (RtpEvent env) (RtpTimer env now_ns) 1000 turns (s, mx')))"

lemma or_undefined_snd: "or_undefined r x = Inr (a, y) \<Longrightarrow> y = x"
  by (auto simp: or_undefined_def split: option.splits)

text \<open>The session manager's callbacks keep the contract of the event loop: they do not touch it.\<close>

interpretation rtp_loop: io_client "RtpEvent env" "RtpTimer env now_ns"
proof
  show "\<exists>k. api_steps k m m'" if "RtpEvent env c fd revents (w, m) = Inr (w', m')" for c fd revents w m w' m'
    using that by (auto simp: RtpEvent_def Let_def dest: or_undefined_snd intro: api_done
        split: rtp_callback.splits)
  show "\<exists>k. api_steps k m m'" if "RtpTimer env now_ns c (w, m) = Inr (w', m')" for c w m w' m'
    using that by (auto simp: RtpTimer_def dest: or_undefined_snd intro: api_done
        split: rtp_callback.splits)
qed

end
