(* ===== verification/Session_Calls.thy ===== *)
theory Session_Calls
  imports Session_Media Sip_Moves
begin

text \<open>
  The link between signalling and media: which calls have a context. The first part is the interface a
  media client offers to the signalling, as a locale that extends the contract of the callback, with
  the lemma, for every move of the SIP manager, that the client's set of calls follows the call table.
  The second part is its interpretation on the session manager. The third part says what the media side
  leaves of the contexts when it sends and receives.
\<close>

section \<open>A client that follows the calls\<close>

text \<open>
  \<open>has\<close> is the set of calls the client serves, \<open>ready\<close> that it listens to the events. It takes a call
  on when it is connected, drops it when it is disconnected or failed, and ignores the other events.
\<close>

definition client_links ::
  "('w \<Rightarrow> string set) \<Rightarrow> ('w \<Rightarrow> bool) \<Rightarrow> 'w \<Rightarrow> (string \<Rightarrow> sip_call_state option) \<Rightarrow> bool" where
  "client_links has ready w v \<longleftrightarrow> ready w \<and> (\<forall>d. d \<in> has w \<longleftrightarrow> live (v d))"

locale media_client = sip_client cb
  for cb :: "'w sip_callback" +
  fixes has :: "'w \<Rightarrow> string set" and ready :: "'w \<Rightarrow> bool"
  assumes ready_kept: "cb cid st (w, m) = (w', m') \<Longrightarrow> ready w \<Longrightarrow> ready w'"
    and takes_on: "cb cid kConnected (w, m) = (w', m') \<Longrightarrow> ready w \<Longrightarrow> sm_calls m cid \<noteq> None
        \<Longrightarrow> has w' = insert cid (has w)"
    and drops: "cb cid st (w, m) = (w', m') \<Longrightarrow> ready w \<Longrightarrow> st = kDisconnected \<or> st = kFailed
        \<Longrightarrow> has w' = has w - {cid}"
    and ignores: "cb cid st (w, m) = (w', m') \<Longrightarrow> ready w
        \<Longrightarrow> st \<notin> {kConnected, kDisconnected, kFailed} \<Longrightarrow> has w' = has w"
begin

abbreviation links where "links \<equiv> client_links has ready"

lemmas links_def = client_links_def

lemma links_connected:
  assumes "cb cid kConnected (w, m) = (w', m')" "links w (v(cid := y))" "sm_calls m cid \<noteq> None"
  shows "links w' (v(cid \<mapsto> kConnected))"
  using assms takes_on [OF assms(1)] ready_kept [OF assms(1)]
  by (auto simp: links_def live_def split: if_splits)

lemma links_gone:
  assumes "cb cid st (w, m) = (w', m')" "links w (v(cid := y))" "st = kDisconnected \<or> st = kFailed"
    "\<not> live x"
  shows "links w' (v(cid := x))"
  using assms drops [OF assms(1)] ready_kept [OF assms(1)]
  by (auto simp: links_def split: if_splits)

lemma links_other:
  assumes "cb cid st (w, m) = (w', m')" "links w v" "st \<notin> {kConnected, kDisconnected, kFailed}"
    "live x = live (v cid)"
  shows "links w' (v(cid := x))"
  using assms ignores [OF assms(1)] ready_kept [OF assms(1)] by (auto simp: links_def)

text \<open>Every move keeps the link, so every run of moves does.\<close>

lemma move_links:
  assumes "sip_move cb s e s'" "links (fst s) (call_view (snd s))"
  shows "links (fst s') (call_view (snd s'))"
  using assms(1)
proof cases
  case (silent m' m w)
  then show ?thesis using assms(2) by (simp add: call_view_def [abs_def])
next
  case (timed m cid c c' w)
  then show ?thesis using assms(2) view_Some [OF timed(4)] by (simp add: fun_upd_idem)
next
  case (negotiated m cid c w desc)
  then show ?thesis using assms(2) view_Some [OF negotiated(4)] by (simp add: fun_upd_idem)
next
  case (created m cid c w)
  obtain w' m' where s': "s' = (w', m')" by (cases s')
  have e: "cb cid (call_state c) (w, put_call cid c m) = (w', m')" using created s' by simp
  have "live (Some (call_state c)) = live (call_view m cid)"
    using created(3,4) by (auto simp: live_def)
  with links_other [OF e, of "call_view m" "Some (call_state c)"] notify(1) [OF e] created assms(2)
  show ?thesis by (auto simp: s')
next
  case (changed m cid c c' w)
  obtain w' m' where s': "s' = (w', m')" by (cases s')
  have e: "cb cid (call_state c') (w, put_call cid c' m) = (w', m')" using changed s' by simp
  have l: "links w (call_view m)" and v: "call_view m' = (call_view m)(cid \<mapsto> call_state c')"
    using assms(2) changed(1) notify(1) [OF e] by simp_all
  consider "call_state c' = kConnected" | "call_state c' = kDisconnected \<or> call_state c' = kFailed"
    | "call_state c = kConnected" "call_state c' = kDisconnecting" using changed(4) by auto
  then have "links w' ((call_view m)(cid \<mapsto> call_state c'))"
  proof cases
    case 1
    then show ?thesis
      using links_connected [of cid w "put_call cid c' m" w' m' "call_view m" "call_view m cid"] e l by simp
  next
    case 2
    then have "\<not> live (Some (call_state c'))" by (auto simp: live_def)
    with links_gone [OF e, of "call_view m" "call_view m cid"] l 2 show ?thesis by simp
  next
    case 3
    with links_other [OF e l, of "Some kDisconnecting"] view_Some [OF changed(3)] show ?thesis
      by (simp add: live_def)
  qed
  then show ?thesis by (simp add: s' v)
next
  case (gone m cid w)
  then show ?thesis using assms(2) by (auto simp: links_def live_def)
next
  case (reported st cid)
  obtain w m w' m' where s: "s = (w, m)" "s' = (w', m')" by (cases s; cases s')
  with reported have e: "cb cid st (w, m) = (w', m')" by simp
  have "st \<notin> {kConnected, kDisconnected, kFailed}" using reported by auto
  with links_other [OF e, of "call_view m" "call_view m cid"] notify(1) [OF e] assms(2) show ?thesis
    by (simp add: s)
qed

lemma moves_links:
  "sip_moves cb s es s' \<Longrightarrow> links (fst s) (call_view (snd s)) \<Longrightarrow> links (fst s') (call_view (snd s'))"
  by (rule sip_moves_invariant [where P = "\<lambda>_. True"]) (auto intro: move_links simp: list_all_iff)

end

section \<open>The session manager as a media client\<close>

definition context_ids :: "session_io \<Rightarrow> string set" where
  "context_ids io = dom (map_of (sess_contexts (fst io)))"

text \<open>
  The manager listens, its contexts are stored under different identifiers, no event got stuck, and the
  thread that handles SIP events does not hold the mutexes of the event loop.
\<close>

definition listening :: "session_io \<Rightarrow> bool" where
  "listening io \<longleftrightarrow>
     sess_event_target (fst io) = SessionTarget \<and> distinct (map fst (sess_contexts (fst io)))
     \<and> sess_blocked (fst io) = None \<and> \<not> im_fd_mutex (snd io) \<and> \<not> im_timer_mutex (snd io)"

lemma register_fds:
  assumes "\<not> im_fd_mutex mx"
  shows "\<exists>mx'. RegisterRtpFds ret ctx mx = Inr mx' \<and> \<not> im_fd_mutex mx'
           \<and> im_timer_mutex mx' = im_timer_mutex mx"
    and "\<exists>mx'. UnregisterRtpFds ret ctx mx = Inr mx' \<and> \<not> im_fd_mutex mx'
           \<and> im_timer_mutex mx' = im_timer_mutex mx"
  using assms
  by (auto simp: RegisterRtpFds_def register_fd_def UnregisterRtpFds_def unregister_fd_def fd_op_defs)

lemma GetOrCreateContext_io:
  assumes "GetOrCreateContext env cid info io = (ctx, io')" "listening io"
  shows "listening io' \<and> context_ids io' = insert cid (context_ids io)
         \<and> sess_config (fst io') = sess_config (fst io)"
proof -
  obtain s mx where io: "io = (s, mx)" by (cases io)
  show ?thesis
  proof (cases "find_context cid s")
    case (Some c)
    then show ?thesis using assms
      by (auto simp: GetOrCreateContext_def io context_ids_def find_context_def)
  next
    case None
    let ?ce = "se_context env (sess_created s)"
    let ?ctx = "new_context env ?ce (sess_config s) cid info"
    from register_fds (1) [of mx "ce_epoll_add ?ce" ?ctx] assms(2) obtain mx' where
      mx': "RegisterRtpFds (ce_epoll_add ?ce) ?ctx mx = Inr mx'" "\<not> im_fd_mutex mx'"
        "im_timer_mutex mx' = im_timer_mutex mx"
      by (auto simp: io listening_def)
    have "io' = (put_context cid ?ctx (s\<lparr>sess_created := Suc (sess_created s)\<rparr>), mx')"
      using assms(1) None mx'(1) by (auto simp: GetOrCreateContext_def io Let_def with_epoll_def)
    then show ?thesis using assms(2) mx'(2,3)
      by (simp add: io listening_def context_ids_def put_context_def update_conv' distinct_update)
  qed
qed

lemma RemoveContext_io:
  assumes "listening io"
  shows "listening (RemoveContext env cid io)
         \<and> context_ids (RemoveContext env cid io) = context_ids io - {cid}
         \<and> sess_config (fst (RemoveContext env cid io)) = sess_config (fst io)"
proof -
  obtain s mx where io: "io = (s, mx)" by (cases io)
  show ?thesis
  proof (cases "find_context cid s")
    case None
    then show ?thesis using assms
      by (auto simp: RemoveContext_def io context_ids_def find_context_def)
  next
    case (Some ctx)
    from register_fds (2) [of mx "se_epoll_del env cid" ctx] assms obtain mx' where
      mx': "UnregisterRtpFds (se_epoll_del env cid) ctx mx = Inr mx'" "\<not> im_fd_mutex mx'"
        "im_timer_mutex mx' = im_timer_mutex mx"
      by (auto simp: io listening_def)
    then show ?thesis using assms Some
      by (simp add: RemoveContext_def io listening_def context_ids_def with_epoll_def delete_conv'
          distinct_delete)
  qed
qed

lemma ports_same_but_info:
  assumes "sm_calls m cid = Some c" "ci_state info = ci_state (call_session_info c)"
  shows "same_but_info m (put_call cid (c\<lparr>call_session_info := info\<rparr>) m)"
proof -
  have "same_call c (c\<lparr>call_session_info := info\<rparr>)" using assms(2) by (simp add: same_call_def)
  then show ?thesis using assms(1) by (auto simp: same_but_info_def put_call_def option.rel_refl)
qed

lemma OnSipEvent_client:
  assumes "OnSipEvent env cid st (w, m) = (w', m')"
  shows "same_but_info m m'"
  using assms ports_same_but_info
  by (auto simp: OnSipEvent_def GetCall_def split: if_splits option.splits prod.splits)

text \<open>
  The interpretation: the session manager keeps the contract of the SIP manager's callback, and its
  contexts follow the calls.
\<close>

interpretation session: media_client "SipEvent env" context_ids listening
proof
  fix cid st and w w' :: session_io and m m'
  assume e: "SipEvent env cid st (w, m) = (w', m')"
  show "same_but_info m m'" using e OnSipEvent_client by (auto simp: SipEvent_def split: if_splits)
  assume l: "listening w"
  then have on: "OnSipEvent env cid st (w, m) = (w', m')" using e
    by (simp add: SipEvent_def listening_def)
  have gone: "listening w' \<and> context_ids w' = context_ids w - {cid}"
    if "st = kDisconnected \<or> st = kFailed"
  proof -
    have "w' = RemoveContext env cid w" using on that by (auto simp: OnSipEvent_def)
    then show ?thesis using RemoveContext_io [OF l] by simp
  qed
  show "context_ids w' = context_ids w - {cid}" if "st = kDisconnected \<or> st = kFailed"
    using gone [OF that] ..
  show "context_ids w' = context_ids w" if "st \<notin> {kConnected, kDisconnected, kFailed}"
    using on that by (auto simp: OnSipEvent_def)
  show "listening w'"
  proof (cases "st = kConnected")
    case True
    show ?thesis
    proof (cases "sm_calls m cid")
      case (Some c)
      obtain ctx io' where g: "GetOrCreateContext env cid (call_session_info c) w = (ctx, io')"
        by (rule prod.exhaust)
      then have "w' = io'" using on True Some by (simp add: OnSipEvent_def GetCall_def)
      then show ?thesis using GetOrCreateContext_io [OF g l] by simp
    qed (use on l True in \<open>simp add: OnSipEvent_def GetCall_def\<close>)
  next
    case False
    then show ?thesis using gone on l by (auto simp: OnSipEvent_def split: if_splits)
  qed
next
  fix cid and w w' :: session_io and m m'
  assume e: "SipEvent env cid kConnected (w, m) = (w', m')" and l: "listening w"
    and c: "sm_calls m cid \<noteq> None"
  then have "OnSipEvent env cid kConnected (w, m) = (w', m')"
    by (simp add: SipEvent_def listening_def)
  moreover obtain d where d: "sm_calls m cid = Some d" using c by auto
  moreover obtain ctx io' where g: "GetOrCreateContext env cid (call_session_info d) w = (ctx, io')"
    by (rule prod.exhaust)
  ultimately have "w' = io'" by (simp add: OnSipEvent_def GetCall_def)
  then show "context_ids w' = insert cid (context_ids w)" using GetOrCreateContext_io [OF g l] by simp
qed

section \<open>The media side keeps the contexts\<close>

text \<open>
  What sending and receiving leave of a context: the call's information, the identifier and the receive
  sockets. The map keeps its keys in their order.
\<close>

definition same_frame :: "call_context \<Rightarrow> call_context \<Rightarrow> bool" where
  "same_frame c c' \<longleftrightarrow> cx_info c' = cx_info c \<and> cx_call_id c' = cx_call_id c
     \<and> rs_recv_socket (cx_audio_rtp c') = rs_recv_socket (cx_audio_rtp c)
     \<and> rs_recv_socket (cx_video_rtp c') = rs_recv_socket (cx_video_rtp c)"

definition same_contexts :: "session_manager \<Rightarrow> session_manager \<Rightarrow> bool" where
  "same_contexts s s' \<longleftrightarrow>
     list_all2 (\<lambda>x y. fst y = fst x \<and> same_frame (snd x) (snd y)) (sess_contexts s) (sess_contexts s')
     \<and> sess_event_target s' = sess_event_target s \<and> sess_blocked s' = sess_blocked s
     \<and> sess_config s' = sess_config s"

lemma same_frame_refl [simp]: "same_frame c c"
  by (simp add: same_frame_def)

lemma same_frame_trans: "same_frame c d \<Longrightarrow> same_frame d e \<Longrightarrow> same_frame c e"
  by (simp add: same_frame_def)

lemma same_contexts_refl [simp]: "same_contexts s s"
  by (simp add: same_contexts_def list_all2_refl)

lemma same_contexts_trans: "same_contexts s s' \<Longrightarrow> same_contexts s' s'' \<Longrightarrow> same_contexts s s''"
  using list_all2_trans [of "\<lambda>x y. fst y = fst x \<and> same_frame (snd x) (snd y)"
      "\<lambda>x y. fst y = fst x \<and> same_frame (snd x) (snd y)" "\<lambda>x y. fst y = fst x \<and> same_frame (snd x) (snd y)"
      "sess_contexts s" "sess_contexts s'" "sess_contexts s''"] same_frame_trans
  by (simp add: same_contexts_def) blast

lemma same_contexts_keys: "same_contexts s s' \<Longrightarrow> map fst (sess_contexts s') = map fst (sess_contexts s)"
  unfolding same_contexts_def by (auto simp: list_all2_conv_all_nth intro!: nth_equalityI)

lemma same_contexts_find:
  assumes "same_contexts s s'"
  shows "rel_option same_frame (find_context cid s) (find_context cid s')"
proof -
  have "rel_option same_frame (map_of xs cid) (map_of ys cid)"
    if "list_all2 (\<lambda>x y. fst y = fst x \<and> same_frame (snd x) (snd y)) xs ys" for xs ys
    using that by (induction rule: list_all2_induct) auto
  then show ?thesis using assms by (simp add: same_contexts_def find_context_def)
qed

lemma same_contexts_put:
  assumes "find_context cid s = Some c" "same_frame c ctx"
  shows "same_contexts s (put_context cid ctx s)"
proof -
  have "list_all2 (\<lambda>x y. fst y = fst x \<and> same_frame (snd x) (snd y)) xs (AList.update cid ctx xs)"
    if "map_of xs cid = Some c" for xs
    using that assms(2) by (induction xs) (auto simp: list_all2_refl split: if_splits)
  then show ?thesis using assms(1) by (simp add: same_contexts_def put_context_def find_context_def)
qed

lemma RtpSession_sockets:
  "SendPacket f ret payload addr port mk rs = (ok, rs', d) \<Longrightarrow> rs_recv_socket rs' = rs_recv_socket rs"
  "ReceivePacket g outcome rs = Some (n, rs') \<Longrightarrow> rs_recv_socket rs' = rs_recv_socket rs"
  "rs_recv_socket (AdvanceTimestamp k rs) = rs_recv_socket rs"
proof -
  show "SendPacket f ret payload addr port mk rs = (ok, rs', d) \<Longrightarrow> rs_recv_socket rs' = rs_recv_socket rs"
    by (auto simp: SendPacket_cases after_send_def split: if_splits)
  show "ReceivePacket g outcome rs = Some (n, rs') \<Longrightarrow> rs_recv_socket rs' = rs_recv_socket rs"
    by (auto simp: ReceivePacket_def Let_def bind_eq_Some_conv split_beta split: if_splits)
qed (simp add: AdvanceTimestamp_def)

lemma sockets_simps [simp]:
  "rs_recv_socket (fst (snd (SendPacket f ret payload addr port mk rs))) = rs_recv_socket rs"
  "rs_recv_socket (snd (send_fragments env rets addr port i fs rs)) = rs_recv_socket rs"
  "rs_recv_socket (AdvanceTimestamp k rs) = rs_recv_socket rs"
proof -
  have send: "rs_recv_socket (fst (snd (SendPacket f ret payload addr port mk rs))) = rs_recv_socket rs"
    for f ret payload addr port mk rs using RtpSession_sockets(1) by (metis prod.collapse)
  then show "rs_recv_socket (fst (snd (SendPacket f ret payload addr port mk rs))) = rs_recv_socket rs" .
  show "rs_recv_socket (snd (send_fragments env rets addr port i fs rs)) = rs_recv_socket rs"
    by (induction fs arbitrary: i rs) (simp_all add: split_beta send)
qed (rule RtpSession_sockets(3))

lemma same_contexts_log [simp]:
  "same_contexts s (s'\<lparr>sess_sent := x\<rparr>) = same_contexts s s'"
  "same_contexts s (record_sent d s') = same_contexts s s'"
  "same_contexts s (deliver_data cid data pt s') = same_contexts s s'"
  "same_contexts s (s'\<lparr>sess_received := n\<rparr>) = same_contexts s s'"
  "same_contexts (s\<lparr>sess_received := n\<rparr>) s' = same_contexts s s'"
  by (auto simp: same_contexts_def record_sent_def deliver_data_def split: option.splits)

lemma find_put_context [simp]: "find_context cid (put_context cid ctx s) = Some ctx"
  by (simp add: find_context_def put_context_def update_conv)

lemma send_audio_payload_same:
  "send_audio_payload env ret cid payload ctx s = Some (ok, s') \<Longrightarrow> find_context cid s = Some c
   \<Longrightarrow> same_frame c ctx \<Longrightarrow> same_contexts s s'"
  by (auto simp: send_audio_payload_def bind_eq_Some_conv split_beta same_frame_def intro!: same_contexts_put)

lemma SendAudioFrame_same:
  "SendAudioFrame env tx cid pcm samples s = Some (ok, s') \<Longrightarrow> same_contexts s s'"
  by (auto simp: SendAudioFrame_def Let_def bind_eq_Some_conv split_beta same_frame_def advance_audio_def
      intro!: same_contexts_put elim!: send_audio_payload_same split: option.splits if_splits)

lemma SendVideoFrame_same:
  assumes "SendVideoFrame env tx cid yuv s = Some (ok, s')"
  shows "same_contexts s s'"
proof (cases "find_context cid s")
  case (Some ctx)
  have put: "same_contexts s (put_context cid (ctx\<lparr>cx_video_encoder := e\<rparr>) s)"
    "rs_recv_socket rtp = rs_recv_socket (cx_video_rtp ctx)
      \<Longrightarrow> same_contexts s ((put_context cid (ctx\<lparr>cx_video_encoder := e, cx_video_rtp := rtp\<rparr>) s)\<lparr>sess_sent := x\<rparr>)"
    for e rtp x using same_contexts_put [OF Some] by (simp_all add: same_frame_def)
  show ?thesis
  proof (cases "cx_video_encoder ctx")
    case (Some enc)
    then obtain r e enc' where e: "EncodeVideo (tx_send tx) (tx_packet tx) yuv enc = Some (r, e, enc')"
      using assms \<open>find_context cid s = Some ctx\<close>
      by (cases "EncodeVideo (tx_send tx) (tx_packet tx) yuv enc") (auto simp: SendVideoFrame_def)
    note simps = \<open>find_context cid s = Some ctx\<close> \<open>cx_video_encoder ctx = Some enc\<close> e
    show ?thesis
    proof (cases r)
      case True
      then show ?thesis using assms put
        by (cases "H264Fragmenter_Fragment e kRtpMaxPayloadSize")
           (auto simp: SendVideoFrame_def simps Let_def bind_eq_Some_conv split_beta split: if_splits)
    qed (use assms put in \<open>auto simp: SendVideoFrame_def simps Let_def\<close>)
  qed (use assms Some in \<open>simp add: SendVideoFrame_def\<close>)
qed (use assms in \<open>simp add: SendVideoFrame_def\<close>)

text \<open>What becomes of received data: nothing, or one call of the packet callback for the same call.\<close>

definition passed_on :: "string \<Rightarrow> session_manager \<Rightarrow> session_manager \<Rightarrow> bool" where
  "passed_on cid s s' \<longleftrightarrow> s' = s \<or> (\<exists>data pt. s' = deliver_data cid data pt s)"

lemma OnRtpData_passed_on:
  assumes "OnRtpData rx cid pt payload s = Some s'"
  shows "passed_on cid s s'"
proof (cases "payload = [] \<or> find_context cid s = None")
  case True
  then show ?thesis using assms by (auto simp: OnRtpData_def passed_on_def split: if_splits)
next
  case False
  then obtain ctx where ctx: "find_context cid s = Some ctx" "payload \<noteq> []" by auto
  consider (aac) "pt = kAAC" "cx_audio_decoder ctx \<noteq> None"
    | (raw) "\<not> (pt = kAAC \<and> cx_audio_decoder ctx \<noteq> None)" "pt = kPCMU \<or> pt = kPCMA"
    | (video) "\<not> (pt = kAAC \<and> cx_audio_decoder ctx \<noteq> None)" "\<not> (pt = kPCMU \<or> pt = kPCMA)"
    by blast
  then show ?thesis
  proof cases
    case aac
    then obtain u where u: "AacPacketizer_Unpack payload = Some u"
      using assms ctx by (auto simp: OnRtpData_def bind_eq_Some_conv)
    show ?thesis
    proof (cases u)
      case (Inl x)
      then show ?thesis using assms ctx aac u by (simp add: OnRtpData_def passed_on_def)
    next
      case (Inr x)
      then show ?thesis using assms ctx aac u
        by (auto simp: OnRtpData_def passed_on_def bind_eq_Some_conv split: if_splits)
    qed
  next
    case raw
    then have "s' = deliver_data cid payload pt s" using assms ctx
      unfolding OnRtpData_def if_not_P [OF raw(1)] by (auto simp: if_not_P [OF raw(1)])
    then show ?thesis by (auto simp: passed_on_def)
  next
    case video
    then show ?thesis using assms ctx
      by (cases "pt = kH264 \<and> cx_video_decoder ctx \<noteq> None")
        (auto simp: OnRtpData_def passed_on_def bind_eq_Some_conv split: if_splits)
  qed
qed

lemma passed_on_simps [simp]:
  "passed_on cid s s" "passed_on cid s s' \<Longrightarrow> same_contexts s'' s' = same_contexts s'' s"
  by (auto simp: passed_on_def)

lemma on_audio_data_passed_on:
  assumes "on_audio_data env rx cid s = Some s'" "find_context cid s = Some ctx"
  obtains ctx' where "same_frame ctx ctx'" "passed_on cid (put_context cid ctx' s) s'"
proof -
  obtain n rtp where r: "ReceivePacket (se_inet_ntop env) (rx_outcome rx) (cx_audio_rtp ctx) = Some (n, rtp)"
    using assms by (auto simp: on_audio_data_def bind_eq_Some_conv)
  note f = RtpSession_sockets(2) [OF r]
  show thesis
  proof (cases "n \<le> 0")
    case True
    then show thesis using assms r f that [of "ctx\<lparr>cx_audio_rtp := rtp\<rparr>"]
      by (simp add: on_audio_data_def same_frame_def)
  next
    case False
    then obtain ok jb ready jb' where j: "JitterBuffer_Insert (se_sort env) (rx_now rx) (rs_last_packet rtp)
        (cx_audio_jitter ctx) = Some (ok, jb)" "JitterBuffer_Extract jb = (ready, jb')"
      using assms r by (auto simp: on_audio_data_def bind_eq_Some_conv) (metis prod.exhaust)
    have "passed_on cid (put_context cid (ctx\<lparr>cx_audio_rtp := rtp, cx_audio_jitter := jb'\<rparr>) s) s'"
      using assms r j False OnRtpData_passed_on by (auto simp: on_audio_data_def Let_def split: option.splits)
    with f show thesis by (intro that) (simp_all add: same_frame_def)
  qed
qed

lemma on_video_data_passed_on:
  assumes "on_video_data env rx cid s = Some s'" "find_context cid s = Some ctx"
  obtains ctx' where "same_frame ctx ctx'" "passed_on cid (put_context cid ctx' s) s'"
proof -
  obtain n rtp where r: "ReceivePacket (se_inet_ntop env) (rx_outcome rx) (cx_video_rtp ctx) = Some (n, rtp)"
    using assms by (auto simp: on_video_data_def bind_eq_Some_conv)
  note f = RtpSession_sockets(2) [OF r]
  show thesis
  proof (cases "n \<le> 0")
    case True
    then show thesis using assms r f that [of "ctx\<lparr>cx_video_rtp := rtp\<rparr>"]
      by (simp add: on_video_data_def same_frame_def)
  next
    case False
    then obtain ok jb ready jb' where j: "JitterBuffer_Insert (se_sort env) (rx_now rx) (rs_last_packet rtp)
        (cx_video_jitter ctx) = Some (ok, jb)" "JitterBuffer_Extract jb = (ready, jb')"
      using assms r by (auto simp: on_video_data_def bind_eq_Some_conv) (metis prod.exhaust)
    have "passed_on cid (put_context cid (ctx\<lparr>cx_video_rtp := rtp, cx_video_jitter := jb'\<rparr>) s) s'"
      using assms r j False OnRtpData_passed_on by (auto simp: on_video_data_def Let_def split: option.splits)
    with f show thesis by (intro that) (simp_all add: same_frame_def)
  qed
qed

lemma on_data_same:
  "on_audio_data env rx cid s = Some s' \<Longrightarrow> same_contexts s s'"
  "on_video_data env rx cid s = Some s' \<Longrightarrow> same_contexts s s'"
proof -
  show "same_contexts s s'" if d: "on_audio_data env rx cid s = Some s'"
  proof (cases "find_context cid s")
    case (Some ctx)
    with on_audio_data_passed_on [OF d this] same_contexts_put [OF Some] show ?thesis
      by (metis passed_on_simps(2))
  qed (use d in \<open>simp add: on_audio_data_def\<close>)
  show "same_contexts s s'" if d: "on_video_data env rx cid s = Some s'"
  proof (cases "find_context cid s")
    case (Some ctx)
    with on_video_data_passed_on [OF d this] same_contexts_put [OF Some] show ?thesis
      by (metis passed_on_simps(2))
  qed (use d in \<open>simp add: on_video_data_def\<close>)
qed

lemma RtpEvent_same:
  "RtpEvent env c fd revents (s, mx) = Inr (s', mx') \<Longrightarrow> same_contexts s s' \<and> mx' = mx"
  using on_data_same(1) [of env _ _ "s\<lparr>sess_received := Suc (sess_received s)\<rparr>" s']
    on_data_same(2) [of env _ _ "s\<lparr>sess_received := Suc (sess_received s)\<rparr>" s']
  by (auto simp: RtpEvent_def Let_def or_undefined_def split: rtp_callback.splits option.splits)

lemma RtpTimer_same:
  "RtpTimer env now_ns c (s, mx) = Inr (s', mx') \<Longrightarrow> same_contexts s s' \<and> mx' = mx"
  by (auto simp: RtpTimer_def OnRtcpTimer_def or_undefined_def
      split: rtp_callback.splits option.splits)

end
