(* ===== verification/Session_Steps.thy ===== *)
theory Session_Steps
  imports Session_Calls
begin

text \<open>
  The session manager as a transition system: the operations of the signalling thread and of the media
  thread as steps, the states they reach, and the invariant that ties the media contexts to the calls.
\<close>

section \<open>The two threads together\<close>

text \<open>
  One step of the running server: an operation of the session manager or of its SIP manager, in the
  SIP thread, or a response it builds; a send; or a step of the media thread, its timer's creation, an
  event or the timers. The identifier of a new
  outgoing call is random; the rule for it takes it not to be one of a live call.
\<close>

inductive session_step ::
  "session_env \<Rightarrow> (string \<Rightarrow> nat) \<Rightarrow> session_state \<Rightarrow> session_state \<Rightarrow> bool"
  for env :: session_env and now_ns :: "string \<Rightarrow> nat" where
  step_make_call: "SessionManager_MakeCall env now uri s = (r, s') \<Longrightarrow> \<not> live (call_view (snd s) r)
    \<Longrightarrow> session_step env now_ns s s'"
| step_accept: "AcceptCall env now cid s = (ok, s') \<Longrightarrow> session_step env now_ns s s'"
| step_reject: "AnswerCall (SipEvent env) now cid False s = (ok, s') \<Longrightarrow> session_step env now_ns s s'"
| step_hang_up: "SessionManager_HangUp env cid s = (ok, s') \<Longrightarrow> session_step env now_ns s s'"
| step_cancel: "CancelCall (SipEvent env) cid s = (ok, s') \<Longrightarrow> session_step env now_ns s s'"
| step_message: "ProcessIncomingMessage parse (SipEvent env) now raw s = s'
    \<Longrightarrow> session_step env now_ns s s'"
| step_timers: "ProcessTimers (SipEvent env) clk ids s = s' \<Longrightarrow> session_step env now_ns s s'"
| step_sdp: "ProcessIncomingSdp cid body m = (ok, m') \<Longrightarrow> session_step env now_ns (io, m) (io, m')"
| step_register: "Register (SipEvent env) s = (ok, s') \<Longrightarrow> session_step env now_ns s s'"
| step_unregister: "Unregister (SipEvent env) s = (ok, s') \<Longrightarrow> session_step env now_ns s s'"
| step_invite_response: "BuildInviteResponse status reason sdp m = (msg, m')
    \<Longrightarrow> session_step env now_ns (io, m) (io, m')"
| step_response: "BuildResponse status reason tag m = (msg, m')
    \<Longrightarrow> session_step env now_ns (io, m) (io, m')"
| step_audio: "SendAudioFrame env tx cid pcm samples sess = Some (ok, sess')
    \<Longrightarrow> session_step env now_ns ((sess, mx), m) ((sess', mx), m)"
| step_video: "SendVideoFrame env tx cid yuv sess = Some (ok, sess')
    \<Longrightarrow> session_step env now_ns ((sess, mx), m) ((sess', mx), m)"
| step_event: "deliver (RtpEvent env) fd revents io = Inr io'
    \<Longrightarrow> session_step env now_ns (io, m) (io', m)"
| step_timer: "FireTimers (RtpTimer env now_ns) t io = Inr io'
    \<Longrightarrow> session_step env now_ns (io, m) (io', m)"
| step_rtcp_timer: "AddTimer now 5000 True (Some RtcpTimer) mx = Inr (i, mx')
    \<Longrightarrow> session_step env now_ns ((sess, mx), m) ((sess, mx'), m)"
| step_packet_callback:
    "session_step env now_ns ((sess, mx), m) ((SetRtpPacketCallback sess, mx), m)"

text \<open>From the start of a new session manager on.\<close>

inductive session_reachable ::
  "session_env \<Rightarrow> (string \<Rightarrow> nat) \<Rightarrow> session_state \<Rightarrow> bool"
  for env :: session_env and now_ns :: "string \<Rightarrow> nat" where
  session_started:
    "IoMultiplexer_new epfd 1024 = Some mx
     \<Longrightarrow> SessionManager_Start True ((SessionManager_new config, mx), SipManager_new rng)
         = Some (True, ((sess, mx), m))
     \<Longrightarrow> session_reachable env now_ns ((sess, mx), m)"
| session_stepped:
    "session_reachable env now_ns s \<Longrightarrow> session_step env now_ns s s' \<Longrightarrow> session_reachable env now_ns s'"

definition session_ok :: "session_state \<Rightarrow> bool" where
  "session_ok s \<longleftrightarrow> sip_wf (snd s) \<and> client_links context_ids listening (fst s) (call_view (snd s))"

lemma listening_same:
  assumes "same_contexts sess sess'" "listening (sess, mx)"
    "im_fd_mutex mx' = im_fd_mutex mx" "im_timer_mutex mx' = im_timer_mutex mx"
  shows "listening (sess', mx') \<and> context_ids (sess', mx') = context_ids (sess, mx)"
proof -
  have keys: "dom (map_of (xs :: (string \<times> call_context) list)) = set (map fst xs)" for xs
    by (simp add: dom_map_of_conv_image_fst)
  show ?thesis using assms same_contexts_keys [OF assms(1)]
    by (simp add: same_contexts_def listening_def context_ids_def keys)
qed

lemma session_ok_media:
  assumes "same_contexts sess sess'" "session_ok ((sess, mx), m)"
    "im_fd_mutex mx' = im_fd_mutex mx" "im_timer_mutex mx' = im_timer_mutex mx"
  shows "session_ok ((sess', mx'), m)"
  using listening_same [OF assms(1) _ assms(3,4)] assms(2)
  by (simp add: session_ok_def client_links_def)

text \<open>The parts of a response to an INVITE, with the counters it uses.\<close>

lemma BuildInviteResponse_stages:
  assumes "BuildInviteResponse status reason sdp m = (msg, m')"
  obtains tg cid cseq where "same_but_counters m m'"
    "msg = ''SIP/2.0 '' @ show_int status @ '' '' @ reason @ crlf
          @ via_line m' @ (if sm_last_via_branch m' \<noteq> [] then '';branch='' @ sm_last_via_branch m' else []) @ crlf
          @ ''From: <sip:remote@'' @ sc_domain (sm_config m') @ ''>''
          @ (if sm_last_from_tag m' \<noteq> [] then '';tag='' @ sm_last_from_tag m' else []) @ crlf
          @ ''To: <'' @ own_uri m @ ''>'' @ tg @ crlf
          @ ''Call-ID: '' @ cid @ crlf
          @ ''CSeq: '' @ cseq @ crlf
          @ ''Contact: <'' @ own_uri m @ ''>'' @ crlf
          @ (if sdp \<noteq> []
             then ''Content-Type: application/sdp'' @ crlf
                  @ ''Content-Length: '' @ show_nat (length sdp) @ crlf @ crlf @ sdp
             else ''Content-Length: 0'' @ crlf @ crlf)"
proof -
  obtain tg m1 where 1: "(if sm_last_to_tag m \<noteq> [] then ('';tag='' @ sm_last_to_tag m, m)
      else if status = 200 then (case GenerateTag m of (t, m) \<Rightarrow> ('';tag='' @ t, m)) else ([], m)) = (tg, m1)"
    by fastforce
  obtain cid m2 where 2: "(if sm_last_call_id m1 = [] then GenerateCallId m1
      else (sm_last_call_id m1, m1)) = (cid, m2)" by fastforce
  obtain cseq m3 where 3: "(if sm_last_cseq m2 = []
      then (case GenerateCSeq m2 of (n, m) \<Rightarrow> (show_u32 n @ '' INVITE'', m)) else (sm_last_cseq m2, m2)) = (cseq, m3)"
    by fastforce
  have "same_but_counters m m1" using 1 GenerateTag_same [of m] by (auto split: if_splits prod.splits)
  moreover have "same_but_counters m1 m2" using 2 GenerateCallId_same [of m1] by (auto split: if_splits)
  moreover have "same_but_counters m2 m3" using 3 GenerateCSeq_same [of m2] by (auto split: if_splits prod.splits)
  ultimately have same: "same_but_counters m m3" using same_but_counters_trans by blast
  have eq: "msg = fst (BuildInviteResponse status reason sdp m)" "m' = snd (BuildInviteResponse status reason sdp m)"
    using assms by simp_all
  show thesis
    by (rule that [of tg cid cseq], unfold eq BuildInviteResponse_def Let_def 1 2 3 prod.case fst_conv snd_conv)
      (rule same, rule refl)
qed

lemma BuildInviteResponse_same:
  "BuildInviteResponse status reason sdp m = (msg, m') \<Longrightarrow> same_but_counters m m'"
  by (rule BuildInviteResponse_stages)

lemma session_ok_counters:
  assumes "same_but_counters m m'" "session_ok (io, m)"
  shows "session_ok (io, m')"
  using assms(2) same_counters_view [OF assms(1)] by (simp add: session_ok_def sip_wf_def)

lemma deliver_same:
  assumes "deliver (RtpEvent env) fd revents (s, mx) = Inr (s', mx')" "\<not> im_fd_mutex mx"
  shows "same_contexts s s' \<and> mx' = mx"
proof (cases "Option.bind (im_fd_map mx fd) fi_callback")
  case None
  then show ?thesis using assms by (simp add: deliver_def)
next
  case (Some c)
  with assms obtain s1 mx1 where
    e: "RtpEvent env c fd revents (s, mx\<lparr>im_fd_mutex := True\<rparr>) = Inr (s1, mx1)"
      "s' = s1" "mx' = mx1\<lparr>im_fd_mutex := False\<rparr>"
    by (auto simp: deliver_def split: sum.splits prod.splits)
  moreover have "mx\<lparr>im_fd_mutex := False\<rparr> = mx" using assms(2) by (cases mx) simp
  ultimately show ?thesis using RtpEvent_same [OF e(1)] by simp
qed

lemma run_callbacks_same:
  "run_callbacks (RtpTimer env now_ns) cs (s, mx) = Inr (s', mx') \<Longrightarrow> same_contexts s s' \<and> mx' = mx"
proof (induction cs arbitrary: s mx)
  case (Cons c cs)
  then obtain x s1 mx1 where "RtpTimer env now_ns x (s, mx) = Inr (s1, mx1)"
    "run_callbacks (RtpTimer env now_ns) cs (s1, mx1) = Inr (s', mx')"
    by (cases c) (auto split: sum.splits)
  then show ?case using Cons.IH RtpTimer_same same_contexts_trans by metis
qed simp

lemma FireTimers_same:
  assumes "FireTimers (RtpTimer env now_ns) now (s, mx) = Inr (s', mx')" "\<not> im_timer_mutex mx"
  shows "same_contexts s s' \<and> im_fd_mutex mx' = im_fd_mutex mx \<and> \<not> im_timer_mutex mx'
         \<and> im_fd_map mx' = im_fd_map mx"
proof -
  from assms obtain mx1 ts where "run_callbacks (RtpTimer env now_ns) (due_callbacks now (im_timers mx))
      (s, mx\<lparr>im_timer_mutex := True\<rparr>) = Inr (s', mx1)"
    "mx' = mx1\<lparr>im_timers := ts, im_timer_mutex := False\<rparr>"
    by (auto simp: FireTimers_def fire_loop_reference split: sum.splits prod.splits)
  with run_callbacks_same [OF this(1)] show ?thesis by simp
qed

text \<open>A step is an operation of the SIP manager, so a run of moves, or one of the media thread.\<close>

inductive media_step ::
  "session_env \<Rightarrow> (string \<Rightarrow> nat) \<Rightarrow> session_io \<Rightarrow> session_io \<Rightarrow> bool"
  for env :: session_env and now_ns :: "string \<Rightarrow> nat" where
  media_audio: "SendAudioFrame env tx cid pcm samples sess = Some (ok, sess')
    \<Longrightarrow> media_step env now_ns (sess, mx) (sess', mx)"
| media_video: "SendVideoFrame env tx cid yuv sess = Some (ok, sess')
    \<Longrightarrow> media_step env now_ns (sess, mx) (sess', mx)"
| media_event: "deliver (RtpEvent env) fd revents io = Inr io' \<Longrightarrow> media_step env now_ns io io'"
| media_timer: "FireTimers (RtpTimer env now_ns) t io = Inr io' \<Longrightarrow> media_step env now_ns io io'"
| media_rtcp_timer: "AddTimer now 5000 True (Some RtcpTimer) mx = Inr (i, mx')
    \<Longrightarrow> media_step env now_ns (sess, mx) (sess, mx')"
| media_packet_callback: "media_step env now_ns (sess, mx) (SetRtpPacketCallback sess, mx)"

lemma session_step_sip_wf:
  assumes "session_step env now_ns s s'" "sip_wf (snd s)"
  shows "sip_wf (snd s')"
proof -
  obtain io m io' m' where s: "s = (io, m)" "s' = (io', m')" by (cases s, cases s')
  note wf = session.step_wf [of env io m io' m']
  have counters: "same_but_counters m m' \<Longrightarrow> sip_wf m'"
    using same_counters_view [of m m'] assms(2) by (simp add: sip_wf_def s)
  from assms(1) have "session_step env now_ns (io, m) (io', m')" by (simp add: s)
  then have "sip_step (SipEvent env) (io, m) (io', m') \<or> same_but_counters m m'"
    by cases (auto simp: SessionManager_MakeCall_def AcceptCall_def SessionManager_HangUp_def
        intro: sip_step.intros BuildInviteResponse_same BuildResponse_same split: if_splits)
  then show ?thesis using wf counters assms(2) by (auto simp: s)
qed

lemma session_step_cases:
  assumes "session_step env now_ns (io, m) (io', m')" "sip_wf m"
  shows "(\<exists>es. sip_moves (SipEvent env) (io, m) es (io', m')) \<or> media_step env now_ns io io' \<and> m' = m"
proof -
  have counters: "\<exists>es. sip_moves (SipEvent env) (io, m) es (io, m'')" if "same_but_counters m m''" for m''
    by (rule exI, rule sip_moves_one, rule silent_counters, rule that)
  have run: "unprompted_moves (SipEvent env) (io, m) s' \<Longrightarrow> \<exists>es. sip_moves (SipEvent env) (io, m) es s'" for s'
    by (auto simp: unprompted_moves_def)
  show ?thesis
    using assms(1)
  proof (cases rule: session_step.cases)
    case (step_make_call now uri r)
    show ?thesis
    proof (cases "SessionManager_MakeCall env now uri (io, m) = ([], (io, m))")
      case True
      then have "io' = io" "m' = m" using step_make_call(1) by simp_all
      then show ?thesis using stay by blast
    next
      case False
      then have "MakeCall (SipEvent env) now uri (io, m) = (r, io', m')"
        using step_make_call by (auto simp: SessionManager_MakeCall_def split: if_splits)
      from session.MakeCall_moves [OF this] step_make_call(2) show ?thesis by simp
    qed
  next
    case (step_accept now cid ok)
    from session.AnswerCall_moves [OF this [unfolded AcceptCall_def]] show ?thesis by simp
  next
    case (step_reject now cid ok)
    from session.AnswerCall_moves [OF this] show ?thesis by simp
  next
    case (step_hang_up cid ok)
    from session.HangUp_moves [OF this [unfolded SessionManager_HangUp_def] assms(2)] show ?thesis by simp
  next
    case (step_cancel cid ok)
    from session.CancelCall_moves [OF this] show ?thesis by simp
  next
    case (step_message parse now raw)
    from run [OF session.message_moves [OF this assms(2)]] show ?thesis by simp
  next
    case (step_timers clk ids)
    from run [OF session.timers_moves [OF this assms(2)]] show ?thesis by simp
  next
    case (step_sdp cid body ok)
    from session.sdp_moves [OF step_sdp(2), of env io] step_sdp(1) show ?thesis by blast
  next
    case (step_register ok)
    from run [OF session.registration_moves(1) [OF this]] show ?thesis by simp
  next
    case (step_unregister ok)
    from run [OF session.registration_moves(2) [OF this]] show ?thesis by simp
  next
    case (step_invite_response status reason sdp msg)
    from counters [OF BuildInviteResponse_same [OF step_invite_response(2)]] step_invite_response(1)
    show ?thesis by simp
  next
    case (step_response status reason tag msg)
    from counters [OF BuildResponse_same [OF step_response(2)]] step_response(1) show ?thesis by simp
  qed (auto intro: media_step.intros)
qed

lemma media_step_frame:
  assumes "media_step env now_ns (s, mx) (s', mx')" "\<not> im_fd_mutex mx" "\<not> im_timer_mutex mx"
  shows "same_contexts s s' \<and> im_fd_mutex mx' = im_fd_mutex mx \<and> im_timer_mutex mx' = im_timer_mutex mx
     \<and> im_fd_map mx' = im_fd_map mx"
  using assms(1)
proof cases
  case (media_event fd revents)
  from deliver_same [OF this assms(2)] show ?thesis by simp
next
  case (media_timer t)
  from FireTimers_same [OF this assms(3)] assms(3) show ?thesis by simp
next
  case (media_rtcp_timer now i)
  then show ?thesis by (auto simp: AddTimer_def split: if_splits)
next
  case media_packet_callback
  then show ?thesis by (simp add: same_contexts_def SetRtpPacketCallback_def list_all2_refl)
qed (auto dest: SendAudioFrame_same SendVideoFrame_same)

lemma session_ok_media_step:
  assumes "media_step env now_ns io io'" "session_ok (io, m)"
  shows "session_ok (io', m)"
proof -
  obtain s mx s' mx' where io: "io = (s, mx)" "io' = (s', mx')" by (cases io, cases io')
  have "\<not> im_fd_mutex mx" "\<not> im_timer_mutex mx"
    using assms(2) by (simp_all add: io session_ok_def client_links_def listening_def)
  from media_step_frame [OF assms(1) [unfolded io] this] session_ok_media [OF _ assms(2) [unfolded io], of s' mx']
  show ?thesis by (simp add: io)
qed

lemma session_step_ok:
  assumes "session_step env now_ns s s'" "session_ok s"
  shows "session_ok s'"
proof -
  obtain io m io' m' where s: "s = (io, m)" "s' = (io', m')" by (cases s, cases s')
  have ok: "sip_wf m" "client_links context_ids listening io (call_view m)"
    using assms(2) by (simp_all add: session_ok_def s)
  consider es where "sip_moves (SipEvent env) (io, m) es (io', m')" | "media_step env now_ns io io'" "m' = m"
    using session_step_cases [OF assms(1) [unfolded s] ok(1)] by blast
  then show ?thesis
  proof cases
    case (1 es)
    from session.moves_links [OF this] ok(2) session_step_sip_wf [OF assms(1)] ok(1)
    show ?thesis by (simp add: session_ok_def s)
  next
    case 2
    then show ?thesis using session_ok_media_step assms(2) by (simp add: s)
  qed
qed

lemma session_reachable_ok: "session_reachable env now_ns s \<Longrightarrow> session_ok s"
proof (induction rule: session_reachable.induct)
  case (session_started epfd mx config rng sess m)
  from session_started.hyps(2) obtain r m1 where
    init: "Initialize True (cfg_sip config) (SipManager_new rng) = (r, m1)" and r: "r" "m = m1"
    and sess: "sess = SessionManager_new config\<lparr>sess_event_target := SessionTarget,
        sess_thread_pool := Some (unat (cfg_worker_threads config)), sess_rtp_running := True,
        sess_rtp_thread := True\<rparr>"
    by (auto simp: SessionManager_Start_def SessionManager_new_def split: prod.splits bool.splits)
  have none: "sm_calls m = (\<lambda>_. None)"
    using Initialize_no_calls [OF init] r by (simp add: SipManager_new_def)
  have "\<not> im_fd_mutex mx \<and> \<not> im_timer_mutex mx"
    using session_started.hyps(1) by (auto simp: IoMultiplexer_new_def split: if_splits)
  then show ?case using none
    by (simp add: session_ok_def sip_wf_def calls_wf_def call_view_def client_links_def listening_def
        context_ids_def sess SessionManager_new_def live_def)
qed (rule session_step_ok)

lemma session_ok_contexts:
  assumes "session_ok ((sess, mx), sip)"
  shows "{cid. find_context cid sess \<noteq> None} =
           {cid. \<exists>c. sm_calls sip cid = Some c \<and> call_state c \<in> {kConnected, kDisconnecting}}
         \<and> distinct (map fst (sess_contexts sess)) \<and> sess_blocked sess = None
         \<and> \<not> im_fd_mutex mx \<and> \<not> im_timer_mutex mx"
proof -
  have l: "listening (sess, mx)" "\<And>d. d \<in> context_ids (sess, mx) \<longleftrightarrow> live (call_view sip d)"
    using assms by (simp_all add: session_ok_def client_links_def)
  have "live (call_view sip d) \<longleftrightarrow>
        (\<exists>c. sm_calls sip d = Some c \<and> call_state c \<in> {kConnected, kDisconnecting})" for d
    by (auto simp: live_def call_view_def)
  moreover have "d \<in> context_ids (sess, mx) \<longleftrightarrow> find_context d sess \<noteq> None" for d
    by (auto simp: context_ids_def find_context_def)
  ultimately show ?thesis using l by (auto simp: listening_def)
qed

text \<open>
  Property C2. Signalling and media stay in step. In every state the running server can reach, whatever
  its two threads do, the calls that have a context, with its sockets, buffers and codecs, are exactly
  the calls of the SIP manager that are connected or being hung up; the contexts are stored under
  different identifiers; no SIP event has blocked on the event loop; and no mutex of the loop is held
  between steps.
\<close>

theorem session_contexts_are_live_calls:
  assumes "session_reachable env now_ns ((sess, mx), sip)"
  shows "{cid. find_context cid sess \<noteq> None} =
           {cid. \<exists>c. sm_calls sip cid = Some c \<and> call_state c \<in> {kConnected, kDisconnecting}}
         \<and> distinct (map fst (sess_contexts sess)) \<and> sess_blocked sess = None
         \<and> \<not> im_fd_mutex mx \<and> \<not> im_timer_mutex mx"
  by (rule session_ok_contexts [OF session_reachable_ok [OF assms]])

section \<open>An incoming call\<close>

lemma invite_connects:
  assumes "session_ok s" "call_view (snd s) cid = None" "cid \<noteq> []"
    "parse raw = Some (request_message ''INVITE'' cid)"
  shows "call_view (snd (ProcessIncomingMessage parse (SipEvent env) now raw s)) cid = Some kConnected"
proof -
  obtain io m where s: "s = (io, m)" by (cases s)
  obtain io' m' where h: "HandleInvite (SipEvent env) now (request_message ''INVITE'' cid) (io, m) = (io', m')"
    by fastforce
  have "calls_wf m" using assms(1) by (simp add: session_ok_def sip_wf_def s)
  from session.HandleInvite_effect [OF h this] assms(2-4) h show ?thesis
    by (simp add: ProcessIncomingMessage_def s)
qed

section \<open>A sample environment\<close>

definition sample_opens :: "int \<Rightarrow> open_results \<times> open_results" where
  "sample_opens fd = (\<lparr>or_socket = fd, or_bind = 0\<rparr>, \<lparr>or_socket = fd + 1, or_bind = 0\<rparr>)"

definition sample_name :: "u16 \<Rightarrow> int \<times> sockaddr_in" where
  "sample_name port = (0, \<lparr>sin_family = AF_INET, sin_port = htons port, sin_addr = 0\<rparr>)"

definition sample_codecs :: "bool \<Rightarrow> codec_setup \<times> codec_setup" where
  "sample_codecs found =
     (\<lparr>cs_found = found, cs_allocated = True, cs_open = 0, cs_planes = []\<rparr>,
      \<lparr>cs_found = True, cs_allocated = True, cs_open = 0, cs_planes = []\<rparr>)"

text \<open>Each context gets four fresh descriptors and the default ports; \<open>found\<close>: is the encoder there?\<close>

definition sample_context_env :: "bool \<Rightarrow> nat \<Rightarrow> context_env" where
  "sample_context_env found n =
     \<lparr>ce_ssrc = (of_nat (2 * n + 1), of_nat (2 * n + 2)), ce_audio_rnd = (0, 1000), ce_video_rnd = (0, 2000),
      ce_audio_open = sample_opens (10 + 4 * int n), ce_video_open = sample_opens (12 + 4 * int n),
      ce_names = (sample_name 5004, sample_name 5010), ce_now = 0,
      ce_audio_codecs = sample_codecs found, ce_video_codecs = sample_codecs found,
      ce_epoll_add = (0, 0)\<rparr>"

definition sample_session_env :: "bool \<Rightarrow> session_env" where
  "sample_session_env found =
     \<lparr>se_inet_addr = (\<lambda>_. 0x0A000009), se_inet_ntop = (\<lambda>_. ''10.0.0.9''), se_inet_pton = (\<lambda>_. 0x0A000009),
      se_sort = sort_key item_seq, se_context = sample_context_env found, se_epoll_del = (\<lambda>_. (0, 0)),
      se_rx = (\<lambda>_. \<lparr>rx_outcome = RecvError False, rx_now = 0, rx_send = 0, rx_pcm = None,
                     rx_picture = None\<rparr>)\<rparr>"

definition sample_mx :: "rtp_callback io_multiplexer" where
  "sample_mx = the (IoMultiplexer_new 3 1024)"

lemma Initialize_config:
  assumes "Initialize ok config m = (r, m')"
  shows "sm_config m' = config"
proof (cases ok)
  case True
  obtain b m1 where r1: "RandomHex 32 (m\<lparr>sm_config := config, sm_osip := True\<rparr>) = (b, m1)" by fastforce
  obtain p m2 where r2: "RandomHex 16 (m1\<lparr>sm_branch_id := ''z9hG4bK'' @ b\<rparr>) = (p, m2)" by fastforce
  have "sm_config m1 = config" "sm_config m2 = sm_config m1"
    using RandomHex_same [OF r1] RandomHex_same [OF r2] same_but_counters_fields by fastforce+
  then show ?thesis using assms True r1 r2 by (auto simp: Initialize_def draw_def)
qed (use assms in \<open>auto simp: Initialize_def\<close>)

lemma sample_started:
  obtains sess mx m where "session_reachable env now_ns ((sess, mx), m)" "call_view m = (\<lambda>_. None)"
    "sess_config sess = default_server_config" "sm_config m = default_sip_config"
proof -
  obtain b m where i: "Initialize True (cfg_sip default_server_config) (SipManager_new (\<lambda>_. 0)) = (b, m)"
    by fastforce
  have b: b using i by (auto simp: Initialize_def SipManager_new_def Let_def split: prod.splits)
  have new: "IoMultiplexer_new 3 1024 = Some sample_mx"
    by (simp add: sample_mx_def IoMultiplexer_new_def)
  obtain sess where st: "SessionManager_Start True ((SessionManager_new default_server_config, sample_mx),
      SipManager_new (\<lambda>_. 0)) = Some (True, ((sess, sample_mx), m))"
    "sess_config sess = default_server_config"
    using i b by (auto simp: SessionManager_Start_def SessionManager_new_def)
  have "call_view m = (\<lambda>_. None)"
    using Initialize_no_calls [OF i] by (auto simp: SipManager_new_def call_view_def)
  moreover have "sm_config m = default_sip_config"
    using Initialize_config [OF i] by (simp add: default_server_config_def)
  ultimately show thesis using session_started [OF new st(1)] st(2) that by blast
qed

theorem session_contexts_are_live_calls_witness:
  "\<exists>sess mx sip. session_reachable (sample_session_env True) (\<lambda>_. 0) ((sess, mx), sip)
     \<and> find_context ''call'' sess \<noteq> None \<and> distinct (map fst (sess_contexts sess))"
proof -
  let ?env = "sample_session_env True"
  obtain sess mx m where r: "session_reachable ?env (\<lambda>_. 0) ((sess, mx), m)" "call_view m = (\<lambda>_. None)"
    by (rule sample_started)
  let ?parse = "\<lambda>_ :: string. Some (request_message ''INVITE'' ''call'')"
  obtain sess' mx' m' where p: "ProcessIncomingMessage ?parse (SipEvent ?env) (0, 0) [] ((sess, mx), m)
      = ((sess', mx'), m')" by (cases "ProcessIncomingMessage ?parse (SipEvent ?env) (0, 0) [] ((sess, mx), m)") auto
  have r': "session_reachable ?env (\<lambda>_. 0) ((sess', mx'), m')"
    by (rule session_stepped [OF r(1) step_message [OF p]])
  have "call_view m' ''call'' = Some kConnected"
    using invite_connects [OF session_reachable_ok [OF r(1)], of "''call''" ?parse "[]" ?env "(0, 0)"] r(2) p by simp
  with session_contexts_are_live_calls [OF r'] r' show ?thesis
    by (intro exI [of _ sess'] exI [of _ mx'] exI [of _ m']) (auto simp: call_view_def)
qed

end
