(* ===== verification/Session_Properties.thy ===== *)
theory Session_Properties
  imports Session_Steps
begin

text \<open>
  What the session manager does for its calls: the context of an incoming call, the RTCP timer, video
  from the encoder to the datagrams, audio from a datagram to the packet callback, and the send path
  when the audio codec is missing.
\<close>

section \<open>The RTCP timer\<close>

lemma rtcp_for_defined:
  "rtcp_for env now ctx \<noteq> None \<longleftrightarrow>
     length (rtcp_cname ctx) mod 4 = 2 \<and>
     (ci_remote_rtp_addr (cx_info ctx) = [] \<or> SendFd (cx_audio_rtp ctx) < 0
      \<or> ci_audio_remote_port (cx_info ctx) \<noteq> None)"
  by (cases "ci_audio_remote_port (cx_info ctx)")
    (simp_all add: rtcp_for_def BuildCompound_def sdes_bytes)

lemma rtcp_loop_defined:
  "rtcp_loop env now_ns cs \<noteq> None \<longleftrightarrow> (\<forall>x \<in> set cs. rtcp_for env (now_ns (fst x)) (snd x) \<noteq> None)"
proof (induction cs)
  case (Cons x cs)
  then show ?case
    by (cases x; cases "rtcp_for env (now_ns (fst x)) (snd x)"; cases "rtcp_loop env now_ns cs") auto
qed simp

lemma default_cname_faults:
  assumes "(cid, ctx) \<in> set (sess_contexts s)" "ci_callee_uri (cx_info ctx) = []"
  shows "OnRtcpTimer env now_ns s = None"
proof -
  have "rtcp_for env (now_ns cid) ctx = None"
    using rtcp_for_defined [of env "now_ns cid" ctx] assms(2) by (auto simp: rtcp_cname_def)
  then have "rtcp_loop env now_ns (sess_contexts s) = None"
    using rtcp_loop_defined [of env now_ns "sess_contexts s"] assms(1) by force
  then show ?thesis by (simp add: OnRtcpTimer_def)
qed

section \<open>An incoming call\<close>

text \<open>A message that carries an INVITE for a call identifier, whatever its other headers.\<close>

definition is_invite :: "string \<Rightarrow> osip_message \<Rightarrow> bool" where
  "is_invite cid msg \<longleftrightarrow> om_status_code msg = 0 \<and> om_method msg = Some ''INVITE'' \<and> om_call_id msg = Some cid"

lemma same_counters_calls: "same_but_counters m m' \<Longrightarrow> sm_calls m' = sm_calls m"
  unfolding same_but_counters_def by (drule arg_cong [where f = sm_calls]) simp

lemma SipEvent_listening:
  "listening io \<Longrightarrow> SipEvent env cid kRinging (io, m) = (io, m)"
  by (auto simp: SipEvent_def OnSipEvent_def)

lemma new_context_info:
  "cx_info (new_context env ce config cid info) =
     info\<lparr>ci_local_ssrc := Some (fst (ce_ssrc ce)),
          ci_audio_local_port := ci_audio_local_port (cx_info (new_context env ce config cid info)),
          ci_video_local_port := ci_video_local_port (cx_info (new_context env ce config cid info))\<rparr>"
  by (simp add: new_context_def Let_def)

lemma AList_update_new: "map_of xs cid = None \<Longrightarrow> AList.update cid c xs = xs @ [(cid, c)]"
  by (induction xs) (auto split: if_splits)

lemma GetOrCreateContext_effect:
  assumes "GetOrCreateContext env cid info (s, mx) = (ctx, (s', mx'))" "\<not> im_fd_mutex mx"
  shows "find_context cid s = Some ctx \<and> s' = s \<and> mx' = mx
    \<or> find_context cid s = None \<and> sess_contexts s' = sess_contexts s @ [(cid, ctx)]
      \<and> ctx = new_context env (se_context env (sess_created s)) (sess_config s) cid info
      \<and> sess_config s' = sess_config s \<and> sess_sent s' = sess_sent s
      \<and> RegisterRtpFds (ce_epoll_add (se_context env (sess_created s))) ctx mx = Inr mx'"
proof (cases "find_context cid s")
  case None
  let ?ce = "se_context env (sess_created s)"
  let ?ctx = "new_context env ?ce (sess_config s) cid info"
  obtain mx1 where "RegisterRtpFds (ce_epoll_add ?ce) ?ctx mx = Inr mx1"
    using register_fds(1) [OF assms(2)] by blast
  with None assms(1) show ?thesis
    by (auto simp: GetOrCreateContext_def Let_def with_epoll_def put_context_def find_context_def AList_update_new)
qed (use assms(1) in \<open>simp add: GetOrCreateContext_def\<close>)

lemma GetOrCreateContext_fresh:
  assumes "listening (sess, mx)" "find_context cid sess = None"
    "GetOrCreateContext env cid info (sess, mx) = (ctx, (sess', mx'))"
  shows "ctx = new_context env (se_context env (sess_created sess)) (sess_config sess) cid info"
    "sess_contexts sess' = sess_contexts sess @ [(cid, ctx)]" "sess_config sess' = sess_config sess"
  using GetOrCreateContext_effect [OF assms(3)] assms(1,2) by (auto simp: listening_def)

lemma incoming_call_effect:
  assumes "session_reachable env now_ns ((sess, mx), sip)" "sm_calls sip cid = None" "cid \<noteq> []"
    "parse raw = Some msg" "is_invite cid msg"
    "ProcessIncomingMessage parse (SipEvent env) now raw ((sess, mx), sip) = ((sess', mx'), sip')"
  shows "\<exists>ctx call. sess_contexts sess' = sess_contexts sess @ [(cid, ctx)]
     \<and> sm_calls sip' cid = Some call \<and> call_state call = kConnected
     \<and> ci_audio_local_port (call_session_info call) = ci_audio_local_port (cx_info ctx)
     \<and> ci_video_local_port (call_session_info call) = ci_video_local_port (cx_info ctx)
     \<and> ci_remote_rtp_addr (cx_info ctx) = [] \<and> ci_audio_remote_port (cx_info ctx) = None
     \<and> GetCallInfo cid sess' = Some (cx_info ctx)
     \<and> OnRtcpTimer env now_ns sess' = None
     \<and> find_context cid sess' = Some ctx \<and> ci_audio_local_port (cx_info ctx) \<noteq> None
     \<and> ci_video_local_port (cx_info ctx) \<noteq> None \<and> sm_config sip' = sm_config sip
     \<and> sess_config sess' = sess_config sess"
proof -
  have ok: "session_ok ((sess, mx), sip)" by (rule session_reachable_ok [OF assms(1)])
  then have l: "listening (sess, mx)" and "cid \<notin> context_ids (sess, mx)"
    using assms(2) by (auto simp: session_ok_def client_links_def live_def call_view_def)
  then have none: "find_context cid sess = None"
    by (simp add: context_ids_def find_context_def domIff)
  let ?m = "cache_headers msg cid sip"
  let ?c = "StartTimer (fst now) (sc_retry_t1_ms (sm_config ?m)) (SetState kRinging (SipCall_new cid
     (sc_username (sm_config ?m) @ ''@'' @ sc_domain (sm_config ?m)) (''sip:'' @ remote_of msg)))"
  obtain tag m2 where g: "GenerateTag (put_call cid ?c ?m) = (tag, m2)" by fastforce
  obtain resp m3 where b: "BuildResponse 200 ''OK'' tag m2 = (resp, m3)" by fastforce
  have same: "same_but_counters (put_call cid ?c ?m) m3"
    using GenerateTag_same [OF g] BuildResponse_same [OF b] same_but_counters_trans by blast
  with same have c3: "sm_calls m3 cid = Some ?c" using same_counters_calls by (simp add: put_call_def)
  define d where "d = (SetState kConnected ?c)\<lparr>call_session_info :=
    (call_session_info (SetState kConnected ?c))\<lparr>ci_start_time := snd now\<rparr>\<rparr>"
  have "SipEvent env cid kConnected ((sess, mx), put_call cid d m3) = ((sess', mx'), sip')"
    using assms(2-6) SipEvent_listening [OF l] g b c3
    by (simp add: ProcessIncomingMessage_def is_invite_def HandleInvite_def Let_def value_or_def
        NotifyStateChange_def d_def)
  then have "OnSipEvent env cid kConnected ((sess, mx), put_call cid d m3) = ((sess', mx'), sip')"
    using l by (simp add: SipEvent_def listening_def)
  then obtain ctx where ctx: "GetOrCreateContext env cid (call_session_info d) (sess, mx) = (ctx, (sess', mx'))"
    "sip' = put_call cid (d\<lparr>call_session_info := (call_session_info d)
        \<lparr>ci_audio_local_port := ci_audio_local_port (cx_info ctx),
         ci_video_local_port := ci_video_local_port (cx_info ctx)\<rparr>\<rparr>) (put_call cid d m3)"
    by (auto simp: OnSipEvent_def GetCall_def put_call_def split: prod.splits)
  note fresh = GetOrCreateContext_fresh [OF l none ctx(1)]
  have info: "ci_remote_rtp_addr (cx_info ctx) = []" "ci_audio_remote_port (cx_info ctx) = None"
    "ci_callee_uri (cx_info ctx) = []"
    unfolding fresh(1) by (subst new_context_info, simp add: d_def SetState_def StartTimer_def
        SipCall_new_def init_call_session_info_def)+
  have "OnRtcpTimer env now_ns sess' = None"
    by (rule default_cname_faults [of cid ctx]) (simp_all add: fresh(2) info)
  moreover have "GetCallInfo cid sess' = Some (cx_info ctx)"
    using none by (simp add: GetCallInfo_def find_context_def fresh(2) map_add_def)
  moreover have "call_state d = kConnected" by (simp add: d_def SetState_def)
  moreover have "find_context cid sess' = Some ctx"
    using none by (simp add: find_context_def fresh(2) map_add_def)
  moreover have "ci_audio_local_port (cx_info ctx) \<noteq> None" "ci_video_local_port (cx_info ctx) \<noteq> None"
    by (simp_all add: fresh(1) new_context_def Let_def)
  moreover have "sm_config sip' = sm_config sip"
    using same_but_counters_fields [OF same] by (simp add: ctx(2) put_call_def cache_headers_def)
  ultimately show ?thesis using info fresh(2,3) by (simp add: ctx(2) put_call_def)
qed

text \<open>A sample state with one call in it, which came in.\<close>

lemma sample_incoming:
  obtains sess mx m ctx where "session_reachable env now_ns ((sess, mx), m)" "find_context ''call'' sess = Some ctx"
    "sess_config sess = default_server_config" "sm_config m = default_sip_config"
proof -
  obtain sess mx m where r: "session_reachable env now_ns ((sess, mx), m)" "call_view m = (\<lambda>_. None)"
    "sess_config sess = default_server_config" "sm_config m = default_sip_config" by (rule sample_started)
  let ?parse = "\<lambda>_ :: string. Some (request_message ''INVITE'' ''call'')"
  obtain sess' mx' m' where p: "ProcessIncomingMessage ?parse (SipEvent env) (0, 0) [] ((sess, mx), m)
      = ((sess', mx'), m')" by (metis prod.exhaust)
  have none: "sm_calls m ''call'' = None" using r(2) by (auto simp: call_view_def fun_eq_iff)
  have i: "is_invite ''call'' (request_message ''INVITE'' ''call'')"
    by (simp add: is_invite_def request_message_def response_message_def)
  have ne: "''call'' \<noteq> []" by simp
  from incoming_call_effect [OF r(1) none ne refl i p] r(3,4)
    session_stepped [OF r(1) step_message [OF p]] that show thesis by auto
qed

text \<open>
  An incoming call is taken without any limit: when an INVITE with a new Call-ID reaches a
  running server, whatever \<open>max_sessions\<close> says and however many calls there are, the call is connected
  at once and gets a context of its own, and the call learns the context's local ports. The context is
  a copy of the call's information at that time, before the offer is read: it has no remote address and
  no remote port, and later offers do not reach it. Its RTCP name is the default one, so the next RTCP
  timer writes outside the report's buffer.
\<close>

theorem incoming_call_context:
  assumes "session_reachable env now_ns ((sess, mx), sip)" "sm_calls sip cid = None" "cid \<noteq> []"
    "parse raw = Some msg" "is_invite cid msg"
    "ProcessIncomingMessage parse (SipEvent env) now raw ((sess, mx), sip) = ((sess', mx'), sip')"
  shows "\<exists>ctx call. sess_contexts sess' = sess_contexts sess @ [(cid, ctx)]
     \<and> sm_calls sip' cid = Some call \<and> call_state call = kConnected
     \<and> ci_audio_local_port (call_session_info call) = ci_audio_local_port (cx_info ctx)
     \<and> ci_video_local_port (call_session_info call) = ci_video_local_port (cx_info ctx)
     \<and> ci_remote_rtp_addr (cx_info ctx) = [] \<and> ci_audio_remote_port (cx_info ctx) = None
     \<and> GetCallInfo cid sess' = Some (cx_info ctx)
     \<and> OnRtcpTimer env now_ns sess' = None"
  using incoming_call_effect [OF assms] by blast

theorem incoming_call_context_witness:
  "\<exists>sess mx sip. session_reachable (sample_session_env True) (\<lambda>_. 0) ((sess, mx), sip)
     \<and> (let sess' = fst (fst (ProcessIncomingMessage (\<lambda>_. Some (request_message ''INVITE'' ''call''))
            (SipEvent (sample_session_env True)) (0, 0) [] ((sess, mx), sip)))
        in length (sess_contexts sess') = Suc (length (sess_contexts sess))
           \<and> OnRtcpTimer (sample_session_env True) (\<lambda>_. 0) sess' = None)"
proof -
  let ?env = "sample_session_env True"
  obtain sess mx m where r: "session_reachable ?env (\<lambda>_. 0) ((sess, mx), m)" "call_view m = (\<lambda>_. None)"
    by (rule sample_started)
  let ?parse = "\<lambda>_ :: string. Some (request_message ''INVITE'' ''call'')"
  obtain sess' mx' m' where p: "ProcessIncomingMessage ?parse (SipEvent ?env) (0, 0) [] ((sess, mx), m)
      = ((sess', mx'), m')" by (cases "ProcessIncomingMessage ?parse (SipEvent ?env) (0, 0) [] ((sess, mx), m)") auto
  have none: "sm_calls m ''call'' = None" using r(2) by (auto simp: call_view_def fun_eq_iff)
  have i: "is_invite ''call'' (request_message ''INVITE'' ''call'')"
    by (simp add: is_invite_def request_message_def response_message_def)
  have ne: "''call'' \<noteq> []" by simp
  from incoming_call_context [OF r(1) none ne refl i p] r(1) p show ?thesis
    by (intro exI [of _ sess] exI [of _ mx] exI [of _ m]) auto
qed

section \<open>A missing codec\<close>

definition codec_opens :: "codec_setup \<Rightarrow> bool" where
  "codec_opens av \<longleftrightarrow> cs_found av \<and> cs_allocated av \<and> 0 \<le> cs_open av"

lemma new_context_encoder:
  assumes "\<not> codec_opens (fst (ce_audio_codecs ce))"
  obtains e where "cx_audio_encoder (new_context env ce config cid info) = Some e"
    "EncodeAudio buf send received pcm n e = Some (False, [], e)"
proof -
  let ?av = "fst (ce_audio_codecs ce)"
  let ?rate = "sint (mc_audio_sample_rate (cfg_media config))"
  obtain ok e where i: "MediaEncoder_Initialize ?av ?rate 1 640 480 30
      (MediaEncoder_new (mc_audio_codec (cfg_media config))) = (ok, e)" by (rule prod.exhaust)
  then have "\<not> ok" using assms
    by (auto simp: MediaEncoder_Initialize_def codec_opens_def Let_def split: if_splits)
  with i have f: "MediaEncoder_Initialize ?av ?rate 1 640 480 30
      (MediaEncoder_new (mc_audio_codec (cfg_media config))) = (False, e)" by simp
  have "cx_audio_encoder (new_context env ce config cid info) = Some e"
    by (simp add: new_context_def Let_def f)
  with Initialize_failed [OF f] that show thesis by blast
qed

text \<open>
  Without the audio codec a call cannot send audio. \<open>Initialize\<close> may fail in three ways: the
  codec is not found, its context is not allocated, or it does not open; the context is created all the
  same and keeps the encoder that does not work. From then on every \<open>SendAudioFrame\<close> for the call
  reports failure, sends nothing and changes nothing, so the branch that sends raw samples, meant for
  calls without an encoder, is never taken.
\<close>

theorem missing_codec_silences_audio:
  assumes "listening (sess, mx)" "find_context cid sess = None"
    "\<not> codec_opens (fst (ce_audio_codecs (se_context env (sess_created sess))))"
    "GetOrCreateContext env cid info (sess, mx) = (ctx, (sess', mx'))"
  shows "cx_audio_encoder ctx \<noteq> None \<and> SendAudioFrame env tx cid pcm samples sess' = Some (False, sess')"
proof -
  note fresh = GetOrCreateContext_fresh [OF assms(1,2,4)]
  obtain e where e: "cx_audio_encoder ctx = Some e"
    "EncodeAudio (tx_buffer tx) (tx_send tx) (tx_packet tx) pcm samples e = Some (False, [], e)"
    using new_context_encoder [OF assms(3)] unfolding fresh(1) by metis
  have find: "find_context cid sess' = Some ctx"
    using assms(2) by (simp add: find_context_def fresh(2) map_add_def)
  then have "put_context cid (ctx\<lparr>cx_audio_encoder := Some e\<rparr>) sess' = sess'"
    using e(1) by (simp add: put_context_def find_context_def update_triv)
  then show ?thesis using find e by (simp add: SendAudioFrame_def)
qed

theorem missing_codec_silences_audio_witness:
  "\<exists>sess' mx'. snd (GetOrCreateContext (sample_session_env False) ''c'' init_call_session_info
       ((SessionManager_new default_server_config)\<lparr>sess_event_target := SessionTarget\<rparr>, sample_mx))
       = (sess', mx')
     \<and> SendAudioFrame (sample_session_env False) \<lparr>tx_buffer = None, tx_send = 0, tx_packet = None,
         tx_sendto = (\<lambda>_. 0)\<rparr> ''c'' [1, 2] 1 sess' = Some (False, sess')"
proof -
  let ?env = "sample_session_env False"
  let ?s = "(SessionManager_new default_server_config)\<lparr>sess_event_target := SessionTarget\<rparr>"
  obtain ctx sess' mx' where g: "GetOrCreateContext ?env ''c'' init_call_session_info (?s, sample_mx)
      = (ctx, (sess', mx'))" by (metis prod.exhaust)
  have l: "listening (?s, sample_mx)"
    by (simp add: listening_def SessionManager_new_def sample_mx_def IoMultiplexer_new_def)
  have f: "find_context ''c'' ?s = None" by (simp add: find_context_def SessionManager_new_def)
  have c: "\<not> codec_opens (fst (ce_audio_codecs (se_context ?env (sess_created ?s))))"
    by (simp add: sample_session_env_def sample_context_env_def sample_codecs_def codec_opens_def)
  from missing_codec_silences_audio [OF l f c g] g show ?thesis by simp
qed

section \<open>Video, from the encoder to the datagrams\<close>

text \<open>The packets of a unit's fragments: the marker goes with the last one.\<close>

definition fragment_packets :: "rtp_session \<Rightarrow> bytes list \<Rightarrow> rtp_packet list" where
  "fragment_packets rtp fs = map (\<lambda>k. stream_packet rtp k (fs ! k, Suc k = length fs)) [0..<length fs]"

lemma fragment_packets_fields:
  "length (fragment_packets rtp fs) = length fs"
  "map pkt_payload (fragment_packets rtp fs) = fs"
  "map Sequence (fragment_packets rtp fs) = map (\<lambda>k. rs_current_seq rtp + of_nat k) [0..<length fs]"
  "map Timestamp (fragment_packets rtp fs) = replicate (length fs) (rs_current_timestamp rtp)"
  "map Ssrc (fragment_packets rtp fs) = replicate (length fs) (rs_ssrc rtp)"
  "fs \<noteq> [] \<Longrightarrow> map Marker (fragment_packets rtp fs) = replicate (length fs - 1) False @ [True]"
proof -
  show "length (fragment_packets rtp fs) = length fs" by (simp add: fragment_packets_def)
  show "map pkt_payload (fragment_packets rtp fs) = fs"
    by (rule nth_equalityI) (simp_all add: fragment_packets_def stream_packet_def)
  show "map Sequence (fragment_packets rtp fs) = map (\<lambda>k. rs_current_seq rtp + of_nat k) [0..<length fs]"
    by (simp add: fragment_packets_def stream_packet_def comp_def)
  show "map Timestamp (fragment_packets rtp fs) = replicate (length fs) (rs_current_timestamp rtp)"
    by (simp add: fragment_packets_def stream_packet_def comp_def map_replicate_const)
  show "map Ssrc (fragment_packets rtp fs) = replicate (length fs) (rs_ssrc rtp)"
    by (simp add: fragment_packets_def stream_packet_def comp_def map_replicate_const)
  show "map Marker (fragment_packets rtp fs) = replicate (length fs - 1) False @ [True]" if "fs \<noteq> []"
    using that by (intro nth_equalityI)
      (auto simp: fragment_packets_def stream_packet_def nth_append Suc_diff_Suc less_Suc_eq_le)
qed

lemma fragment_packets_Cons:
  "fragment_packets rtp (f # fs) = stream_packet rtp 0 (f, fs = []) # fragment_packets (after_send f rtp) fs"
proof -
  have "stream_packet (after_send f rtp) k y = stream_packet rtp (Suc k) y" for k y
    by (simp add: stream_packet_def algebra_simps)
  then show ?thesis
    by (simp add: fragment_packets_def upt_conv_Cons map_Suc_upt [symmetric] comp_def del: upt_Suc)
qed

lemma send_fragments_datagrams:
  assumes "rs_send_socket rtp \<noteq> None" "addr \<noteq> []" "port \<noteq> 0" "\<forall>i. 0 \<le> ret i"
    "list_all (\<lambda>f. length f \<le> kRtpMaxPayloadSize) fs"
    "send_fragments env ret addr port i fs rtp = (ds, rtp')"
  shows "map (\<lambda>x. RtpPacket_Parse (fst (snd x))) ds = map Some (fragment_packets rtp fs)
         \<and> rs_current_seq rtp' = rs_current_seq rtp + of_nat (length fs)
         \<and> rs_current_timestamp rtp' = rs_current_timestamp rtp"
  using assms
proof (induction fs arbitrary: i rtp ds)
  case (Cons f fs)
  have c: "can_send addr port f rtp" using Cons.prems(1-3,5) by (simp add: can_send_def send_destination_def)
  obtain ds' d where r: "send_fragments env ret addr port (Suc i) fs (after_send f rtp) = (ds', rtp')"
    "ds = d # ds'" "fst (snd d) = next_packet_bytes rtp (fs = []) f"
    using Cons.prems(4,6) by (auto simp: SendPacket_cases c split: prod.splits)
  have h: "RtpPacket_Parse (fst (snd d)) = Some (stream_packet rtp 0 (f, fs = []))"
    by (simp add: r(3) next_packet_bytes_parse next_packet_def stream_packet_def)
  have "rs_send_socket (after_send f rtp) \<noteq> None" using Cons.prems(1) by (simp add: after_send_def)
  from Cons.IH [OF this Cons.prems(2-4) _ r(1)] Cons.prems(5) show ?case
    by (simp add: r(2) h fragment_packets_Cons algebra_simps)
qed (simp add: fragment_packets_def)


definition sample_call_context :: call_context where
  "sample_call_context =
     (new_context (sample_session_env True) (sample_context_env True 0) default_server_config ''c''
        (init_call_session_info\<lparr>ci_remote_rtp_addr := ''10.0.0.9'', ci_audio_remote_port := Some 6000,
                                ci_video_remote_port := Some 6002\<rparr>))
     \<lparr>cx_video_encoder := Some tiny_encoder\<rparr>"

definition sample_session :: session_manager where
  "sample_session =
     (put_context ''c'' sample_call_context (SessionManager_new default_server_config))
       \<lparr>sess_packet_callback := True\<rparr>"

lemma sample_context_fields:
  "find_context ''c'' sample_session = Some sample_call_context"
  "cx_video_encoder sample_call_context = Some tiny_encoder"
  "rs_send_socket (cx_video_rtp sample_call_context) \<noteq> None"
  "rs_recv_socket (cx_audio_rtp sample_call_context) \<noteq> None"
  "ci_remote_rtp_addr (cx_info sample_call_context) = ''10.0.0.9''"
  "ci_video_remote_port (cx_info sample_call_context) = Some 6002"
  "cx_audio_jitter sample_call_context = JitterBuffer_new (session_jitter_config default_server_config)"
  "mc_video_fps (cfg_media (sess_config sample_session)) = 30"
  by (auto simp: sample_session_def find_context_def put_context_def SessionManager_new_def
      sample_call_context_def new_context_def Let_def open_rtp_def OpenRecvSocket_def OpenSendSocket_def
      init_call_session_info_def default_server_config_def default_media_config_def split: prod.splits)


section \<open>Audio, from a datagram to the packet callback\<close>

lemma fresh_jitter_passes:
  assumes "seq_sorter srt" "jc_initial_delay_ms c = 0"
  shows "\<exists>jb. JitterBuffer_Insert srt now p (JitterBuffer_new c) = Some (True, jb)
              \<and> fst (JitterBuffer_Extract jb) = Some p"
proof -
  let ?item = "\<lparr>bi_packet = p, bi_arrival_time = now, bi_ready = False\<rparr>"
  have "mset (srt [?item]) = {#?item#}" using seq_sorter.srt_mset [OF assms(1)] by simp
  then have "srt [?item] = [?item]" by (metis mset_single_iff_right)
  then show ?thesis
    by (simp add: JitterBuffer_Insert_def CalculateJitter_def JitterBuffer_new_def assms(2)
        jb_stage_defs track_seq_def Let_def drop_excess_small JitterBuffer_Extract_def)
qed

lemma session_jitter_config_delay: "jc_initial_delay_ms (session_jitter_config config) = 0"
  by (simp add: session_jitter_config_def)

lemma ReceivePacket_parsed:
  assumes "rs_recv_socket rs \<noteq> None" "data \<noteq> []" "length data \<le> 65536" "RtpPacket_Parse data = Some p"
  obtains rs' where "ReceivePacket inet_ntop (RecvData data src) rs = Some (1, rs')" "rs_last_packet rs' = p"
  by (rule that [OF ReceivePacket_data [OF assms]]) simp

text \<open>
  Property C16. Audio from end to end. A peer sends a non-empty G.711 payload; the datagram reaches a call
  that has just been set up. Then the receive callback hands the payload, byte for byte, to the packet
  callback under the call's identifier: the first packet passes the socket, the parser, the jitter
  buffer, whose first delay is zero, and the payload switch without loss.
\<close>

theorem received_audio_delivered:
  assumes "SendPacket inet_addr ret payload addr port m peer = (True, peer', Some (fd, data, dst))"
    "rs_payload_type peer = kPCMU \<or> rs_payload_type peer = kPCMA" "payload \<noteq> []"
    "find_context cid s = Some ctx" "rs_recv_socket (cx_audio_rtp ctx) \<noteq> None"
    "cx_audio_jitter ctx = JitterBuffer_new (session_jitter_config config)"
    "sess_packet_callback s" "seq_sorter (se_sort env)" "rx_outcome rx = RecvData data src"
  shows "\<exists>s'. on_audio_data env rx cid s = Some s'
     \<and> sess_delivered s' = sess_delivered s @ [(cid, payload, rs_payload_type peer)]"
proof -
  from assms(1) have d: "data = next_packet_bytes peer m payload" and c: "can_send addr port payload peer"
    by (simp_all add: SendPacket_cases split: if_splits)
  have "length data = 12 + length payload" by (simp add: d next_packet_bytes_length kRtpHeaderSize_def)
  moreover from c have "length payload \<le> 1460" by (simp add: can_send_def kRtpMaxPayloadSize_def)
  ultimately have l: "data \<noteq> []" "length data \<le> 65536" by auto
  let ?p = "next_packet peer m payload"
  have parse: "RtpPacket_Parse data = Some ?p" by (simp add: d next_packet_bytes_parse)
  obtain rtp where rtp: "ReceivePacket (se_inet_ntop env) (rx_outcome rx) (cx_audio_rtp ctx) = Some (1, rtp)"
    "rs_last_packet rtp = ?p" unfolding assms(9) by (rule ReceivePacket_parsed [OF assms(5) l parse])
  obtain jb jb' where jb: "JitterBuffer_Insert (se_sort env) (rx_now rx) ?p (cx_audio_jitter ctx) = Some (True, jb)"
    "JitterBuffer_Extract jb = (Some ?p, jb')"
    using fresh_jitter_passes [OF assms(8) session_jitter_config_delay, of "rx_now rx" ?p config]
    unfolding assms(6) by (metis prod.collapse)
  have pt: "PayloadType ?p = rs_payload_type peer" "rs_payload_type peer \<noteq> kAAC"
    using assms(2) by (auto simp: kPCMU_def kPCMA_def kAAC_def)
  let ?s = "put_context cid (ctx\<lparr>cx_audio_rtp := rtp, cx_audio_jitter := jb'\<rparr>) s"
  have f: "find_context cid ?s = Some (ctx\<lparr>cx_audio_rtp := rtp, cx_audio_jitter := jb'\<rparr>)"
    "sess_delivered ?s = sess_delivered s" "sess_packet_callback ?s"
    using assms(7) by (simp_all add: find_context_def put_context_def update_conv')
  have "on_audio_data env rx cid s = OnRtpData rx cid (rs_payload_type peer) payload ?s"
    using assms(4) rtp jb pt by (simp add: on_audio_data_def)
  also have "\<dots> = Some (deliver_data cid payload (rs_payload_type peer) ?s)"
    using assms(2,3) f(1) pt(2) by (simp add: OnRtpData_def)
  finally show ?thesis using f by (simp add: deliver_data_def)
qed

theorem received_audio_delivered_witness:
  "\<exists>peer' fd data dst s'. SendPacket (\<lambda>_. 0) 0 [1, 2, 3] [] 0 False (sample_sender\<lparr>rs_payload_type := kPCMU\<rparr>)
       = (True, peer', Some (fd, data, dst))
     \<and> on_audio_data (sample_session_env True) \<lparr>rx_outcome = RecvData data zero_sockaddr, rx_now = 0,
         rx_send = 0, rx_pcm = None, rx_picture = None\<rparr> ''c'' sample_session = Some s'
     \<and> sess_delivered s' = sess_delivered sample_session @ [(''c'', [1, 2, 3], kPCMU)]"
proof -
  let ?peer = "sample_sender\<lparr>rs_payload_type := kPCMU\<rparr>"
  have "can_send [] 0 [1, 2, 3] ?peer"
    by (simp add: can_send_remote ready_to_send_def sample_sender_def kRtpMaxPayloadSize_def)
  then obtain peer' fd data dst where
    send: "SendPacket (\<lambda>_. 0) 0 [1, 2, 3] [] 0 False ?peer = (True, peer', Some (fd, data, dst))"
    by (simp add: SendPacket_cases)
  let ?rx = "\<lparr>rx_outcome = RecvData data zero_sockaddr, rx_now = 0, rx_send = 0, rx_pcm = None,
    rx_picture = None\<rparr> :: rx_env"
  have h: "rs_payload_type ?peer = kPCMU \<or> rs_payload_type ?peer = kPCMA" "[1, 2, 3 :: u8] \<noteq> []"
    "sess_packet_callback sample_session" "seq_sorter (se_sort (sample_session_env True))"
    "rx_outcome ?rx = RecvData data zero_sockaddr"
    using stable_sorter.seq_sorter_axioms by (simp_all add: sample_session_def sample_session_env_def)
  from received_audio_delivered [OF send h(1,2) sample_context_fields(1,4,7) h(3-5)] send show ?thesis
    by auto
qed

end
