(* ===== verification/Session_Safety.thy ===== *)
theory Session_Safety
  imports Session_Properties
begin

text \<open>
  The receive path under arbitrary input: an invariant of the media state that every operation of the
  server keeps, and with it that no datagram makes a receive callback fault.
\<close>

section \<open>What the SIP manager may do to its client's state\<close>

text \<open>
  The SIP manager touches its client's state only through the callback, so a property of that state
  that every callback keeps is kept by every operation.
\<close>

locale client_state =
  fixes cb :: "'w sip_callback" and good :: "'w \<Rightarrow> bool"
  assumes keeps: "cb cid st (w, m) = (w', m') \<Longrightarrow> good w \<Longrightarrow> good w'"
begin

lemma move_keeps: "sip_move cb s e s' \<Longrightarrow> good (fst s) \<Longrightarrow> good (fst s')"
  by (erule sip_move.cases) (clarsimp; (blast intro: keeps)?)+

lemma moves_keep: "sip_moves cb s es s' \<Longrightarrow> good (fst s) \<Longrightarrow> good (fst s')"
  by (rule sip_moves_invariant [where P = "\<lambda>_. True"]) (auto intro: move_keeps simp: list_all_iff)

end

section \<open>The invariant of the media state\<close>

text \<open>
  A jitter buffer as the session manager makes it, with transit times within half the range of 32-bit
  integers.
\<close>

definition jitter_ok :: "server_config \<Rightarrow> jitter_buffer \<Rightarrow> bool" where
  "jitter_ok config jb \<longleftrightarrow> jb_config jb = session_jitter_config config \<and> transit_ok jb"

definition context_ok :: "server_config \<Rightarrow> call_context \<Rightarrow> bool" where
  "context_ok config c \<longleftrightarrow> jitter_ok config (cx_audio_jitter c) \<and> jitter_ok config (cx_video_jitter c)"

definition media_ok :: "server_config \<Rightarrow> session_io \<Rightarrow> bool" where
  "media_ok config io \<longleftrightarrow> sess_config (fst io) = config
     \<and> (\<forall>x \<in> set (sess_contexts (fst io)). context_ok config (snd x))"

lemma new_context_ok: "context_ok config (new_context env ce config cid info)"
  by (simp add: new_context_def Let_def context_ok_def jitter_ok_def JitterBuffer_new_def transit_ok_def)

lemma media_ok_find: "media_ok config (s, mx) \<Longrightarrow> find_context cid s = Some c \<Longrightarrow> context_ok config c"
  using map_of_SomeD [of "sess_contexts s" cid c] by (force simp: media_ok_def find_context_def)

lemma set_update_subset: "x \<in> set (AList.update k v xs) \<Longrightarrow> x = (k, v) \<or> x \<in> set xs"
  by (induction xs) (auto split: if_splits)

lemma media_ok_put:
  "media_ok config (s, mx) \<Longrightarrow> context_ok config c \<Longrightarrow> media_ok config (put_context cid c s, mx')"
  by (auto simp: media_ok_def put_context_def dest!: set_update_subset)

lemma media_ok_frame:
  "sess_contexts s' = sess_contexts s \<Longrightarrow> sess_config s' = sess_config s
     \<Longrightarrow> media_ok config (s', mx') = media_ok config (s, mx)"
  by (simp add: media_ok_def)

lemma SipEvent_media_ok:
  assumes "SipEvent env cid st (io, m) = (io', m')" "media_ok config io"
  shows "media_ok config io'"
proof -
  obtain s mx where io: "io = (s, mx)" by (cases io)
  have create: "media_ok config (snd (GetOrCreateContext env c info io))" for c info
  proof (cases "find_context c s")
    case None
    have "media_ok config (s\<lparr>sess_created := Suc (sess_created s)\<rparr>, mx)" "sess_config s = config"
      using assms(2) by (simp_all add: io media_ok_def)
    from media_ok_put [OF this(1) new_context_ok] this(2) None show ?thesis
      by (simp add: io GetOrCreateContext_def Let_def with_epoll_def media_ok_def split: sum.splits)
  next
    case (Some ctx)
    then show ?thesis using assms(2) by (simp add: io GetOrCreateContext_def)
  qed
  have remove: "media_ok config (RemoveContext env c io)" for c
    using assms(2)
    by (auto simp: AList.delete_eq io RemoveContext_def with_epoll_def media_ok_def split: option.splits sum.splits)
  show ?thesis
    using assms create [of cid] remove [of cid]
    by (auto simp: SipEvent_def OnSipEvent_def GetCall_def split: if_splits option.splits prod.splits)
      (metis snd_conv)+
qed

lemma Unpack_defined: "\<exists>u. AacPacketizer_Unpack payload = Some u"
proof (cases "length payload < 4")
  case False
  then obtain p0 p1 p2 p3 rest where "payload = p0 # p1 # p2 # p3 # rest"
    by (auto elim: four_bytesE[of payload] simp: not_less)
  then show ?thesis by (simp add: Unpack_cases)
qed (simp add: AacPacketizer_Unpack_def)

section \<open>The receive callbacks\<close>

text \<open>
  What a receive callback may rely on: the steady clock is within twelve days of its start, and what
  FFmpeg returns has the memory its sizes promise, for YUV 4:2:0 pictures and packed samples.
\<close>

definition picture_ok :: "av_picture \<Rightarrow> bool" where
  "picture_ok pic \<longleftrightarrow> 0 \<le> pic_width pic \<and> 0 \<le> pic_height pic
     \<and> (let w = nat (pic_width pic); h = nat (pic_height pic) in
        w * h + 2 * (w * h div 4) < 2 ^ 31 \<and>
        (case pic_planes pic of
           [yp, up, vp] \<Rightarrow> plane_ok h w yp \<and> plane_ok (h div 2) (w div 2) up \<and> plane_ok (h div 2) (w div 2) vp
         | _ \<Rightarrow> False))"

definition rx_ok :: "rx_env \<Rightarrow> bool" where
  "rx_ok rx \<longleftrightarrow> 0 \<le> rx_now rx \<and> rx_now rx < 2 ^ 30 * 1000000
     \<and> (case rx_pcm rx of None \<Rightarrow> True | Some (n, c, data) \<Rightarrow> n * c * 2 \<le> length data)
     \<and> (case rx_picture rx of None \<Rightarrow> True | Some pic \<Rightarrow> picture_ok pic)"

lemma picture_ok_packs: "picture_ok pic \<Longrightarrow> \<exists>raw. pack_picture [] pic = Some raw"
proof -
  assume ok: "picture_ok pic"
  obtain pw ph planes where p: "pic = \<lparr>pic_width = pw, pic_height = ph, pic_planes = planes\<rparr>" by (cases pic)
  with ok obtain yp up vp where planes: "planes = [yp, up, vp]"
    by (auto simp: picture_ok_def Let_def split: list.splits)
  have "pic = \<lparr>pic_width = int (nat pw), pic_height = int (nat ph), pic_planes = [yp, up, vp]\<rparr>"
    using ok by (simp add: p planes picture_ok_def)
  from pack_picture_planar [OF this] ok show ?thesis
    by (simp add: p planes picture_ok_def Let_def)
qed

lemma Decode_defined:
  assumes "rx_ok rx"
  shows "\<exists>ok yuv w h. Decode (rx_send rx) (rx_picture rx) payload ([], 0, 0) d = Some (ok, yuv, w, h)"
proof (cases "rx_picture rx")
  case (Some pic)
  with assms obtain raw where "pack_picture [] pic = Some raw"
    using picture_ok_packs by (auto simp: rx_ok_def)
  with Some show ?thesis by (auto simp: Decode_def)
qed (auto simp: Decode_def)

lemma DecodeAudio_defined:
  assumes "rx_ok rx"
  shows "\<exists>ok pcm. DecodeAudio (rx_send rx) (rx_pcm rx) aac [] d = Some (ok, pcm)"
proof (cases "rx_pcm rx")
  case (Some x)
  obtain n c data where x: "x = (n, c, data)" by (cases x)
  with assms Some have "n * c * 2 \<le> length data" by (simp add: rx_ok_def)
  with Some x show ?thesis by (auto simp: DecodeAudio_def rd_block_def)
qed (auto simp: DecodeAudio_def)

lemma OnRtpData_defined:
  assumes "rx_ok rx"
  obtains s' where "OnRtpData rx cid pt payload s = Some s'" "sess_contexts s' = sess_contexts s"
    "sess_config s' = sess_config s"
proof -
  have deliver: "sess_contexts (deliver_data cid x pt s) = sess_contexts s"
    "sess_config (deliver_data cid x pt s) = sess_config s" for x
    by (simp_all add: deliver_data_def)
  show thesis
  proof (cases "payload = [] \<or> find_context cid s = None")
    case True
    with that [of s] show thesis by (auto simp: OnRtpData_def split: if_splits)
  next
    case False
    then obtain ctx where c: "find_context cid s = Some ctx" "payload \<noteq> []" by auto
    obtain u where u: "AacPacketizer_Unpack payload = Some u" using Unpack_defined by blast
    obtain ok yuv w h where d: "Decode (rx_send rx) (rx_picture rx) payload ([], 0, 0)
        (the (cx_video_decoder ctx)) = Some (ok, yuv, w, h)" using Decode_defined [OF assms] by metis
    have a: "\<exists>ok pcm. DecodeAudio (rx_send rx) (rx_pcm rx) aac [] (the (cx_audio_decoder ctx)) = Some (ok, pcm)"
      for aac by (rule DecodeAudio_defined [OF assms])
    consider "pt = kAAC \<and> cx_audio_decoder ctx \<noteq> None" | "\<not> (pt = kAAC \<and> cx_audio_decoder ctx \<noteq> None)" by blast
    then show thesis
    proof cases
      case 1
      then show thesis
      proof (cases u)
        case (Inl x)
        with 1 c u that [of s] show thesis by (simp add: OnRtpData_def)
      next
        case (Inr aac)
        obtain ok pcm where "DecodeAudio (rx_send rx) (rx_pcm rx) aac [] (the (cx_audio_decoder ctx)) = Some (ok, pcm)"
          using a by blast
        with 1 c u Inr deliver that [of "if ok then deliver_data cid pcm pt s else s"] show thesis
          by (simp add: OnRtpData_def)
      qed
    next
      case 2
      have "OnRtpData rx cid pt payload s =
          (if pt = kPCMU \<or> pt = kPCMA then Some (deliver_data cid payload pt s)
           else if pt = kH264 \<and> cx_video_decoder ctx \<noteq> None
           then Some (if ok then deliver_data cid yuv pt s else s) else Some s)"
        using 2 c d by (auto simp: OnRtpData_def)
      with deliver that [of "deliver_data cid payload pt s"] that [of "deliver_data cid yuv pt s"] that [of s]
      show thesis by (auto split: if_splits)
    qed
  qed
qed

lemma jitter_insert_ok:
  assumes "jitter_ok config jb" "rx_ok rx" "4000 \<le> unat (mc_audio_sample_rate (cfg_media config))"
  shows "\<exists>jb'. JitterBuffer_Insert srt (rx_now rx) p jb = Some (True, jb')
              \<and> jitter_ok config (snd (JitterBuffer_Extract jb'))"
proof -
  have "clock_ok (jb_config jb) (rx_now rx)" "transit_ok jb"
    using assms by (simp_all add: clock_ok_def jitter_ok_def rx_ok_def session_jitter_config_def)
  then obtain jb' where jb': "JitterBuffer_Insert srt (rx_now rx) p jb = Some (True, jb')" "transit_ok jb'"
    by (rule Insert_defined)
  have "jb_config jb' = jb_config jb" by (rule Insert_unfold [OF jb'(1)])
  with assms(1) jb'(2) have "jitter_ok config (snd (JitterBuffer_Extract jb'))"
    by (simp add: jitter_ok_def transit_ok_def JitterBuffer_Extract_def split: option.split)
  with jb'(1) show ?thesis by blast
qed

lemma receive_defined:
  assumes "media_ok config (s, mx)" "rx_ok rx" "4000 \<le> unat (mc_audio_sample_rate (cfg_media config))"
  shows "\<exists>s'. on_audio_data env rx cid s = Some s' \<and> media_ok config (s', mx)"
    and "\<exists>s'. on_video_data env rx cid s = Some s' \<and> media_ok config (s', mx)"
proof -
  have data: "\<exists>s'. OnRtpData rx cid pt payload s1 = Some s' \<and> media_ok config (s', mx)"
    if "media_ok config (s1, mx)" for pt payload s1
    using OnRtpData_defined [OF assms(2), of cid pt payload s1] that media_ok_frame by metis
  show "\<exists>s'. on_audio_data env rx cid s = Some s' \<and> media_ok config (s', mx)"
  proof (cases "find_context cid s")
    case (Some ctx)
    obtain n rtp where r: "ReceivePacket (se_inet_ntop env) (rx_outcome rx) (cx_audio_rtp ctx) = Some (n, rtp)"
      using ReceivePacket_total by blast
    have ok: "context_ok config ctx" using media_ok_find [OF assms(1) Some] .
    then obtain jb where jb: "JitterBuffer_Insert (se_sort env) (rx_now rx) (rs_last_packet rtp)
        (cx_audio_jitter ctx) = Some (True, jb)" "jitter_ok config (snd (JitterBuffer_Extract jb))"
      using jitter_insert_ok [OF _ assms(2,3)] by (metis context_ok_def)
    obtain ready jb' where e: "JitterBuffer_Extract jb = (ready, jb')" by (rule prod.exhaust)
    let ?c1 = "ctx\<lparr>cx_audio_rtp := rtp\<rparr>" and ?c2 = "ctx\<lparr>cx_audio_rtp := rtp, cx_audio_jitter := jb'\<rparr>"
    have put: "media_ok config (put_context cid ?c1 s, mx)" "media_ok config (put_context cid ?c2 s, mx)"
      using media_ok_put [OF assms(1)] ok jb(2) e by (simp_all add: context_ok_def)
    then show ?thesis using data [OF put(2)]
      by (cases ready) (auto simp: on_audio_data_def Some r jb(1) e Let_def)
  qed (use assms(1) in \<open>simp add: on_audio_data_def\<close>)
  show "\<exists>s'. on_video_data env rx cid s = Some s' \<and> media_ok config (s', mx)"
  proof (cases "find_context cid s")
    case (Some ctx)
    obtain n rtp where r: "ReceivePacket (se_inet_ntop env) (rx_outcome rx) (cx_video_rtp ctx) = Some (n, rtp)"
      using ReceivePacket_total by blast
    have ok: "context_ok config ctx" using media_ok_find [OF assms(1) Some] .
    then obtain jb where jb: "JitterBuffer_Insert (se_sort env) (rx_now rx) (rs_last_packet rtp)
        (cx_video_jitter ctx) = Some (True, jb)" "jitter_ok config (snd (JitterBuffer_Extract jb))"
      using jitter_insert_ok [OF _ assms(2,3)] by (metis context_ok_def)
    obtain ready jb' where e: "JitterBuffer_Extract jb = (ready, jb')" by (rule prod.exhaust)
    let ?c1 = "ctx\<lparr>cx_video_rtp := rtp\<rparr>" and ?c2 = "ctx\<lparr>cx_video_rtp := rtp, cx_video_jitter := jb'\<rparr>"
    have put: "media_ok config (put_context cid ?c1 s, mx)" "media_ok config (put_context cid ?c2 s, mx)"
      using media_ok_put [OF assms(1)] ok jb(2) e by (simp_all add: context_ok_def)
    then show ?thesis using data [OF put(2)]
      by (cases ready) (auto simp: on_video_data_def Some r jb(1) e Let_def)
  qed (use assms(1) in \<open>simp add: on_video_data_def\<close>)
qed

lemma RtpEvent_defined:
  assumes "media_ok config (s, mx)" "\<forall>n. rx_ok (se_rx env n)"
    "4000 \<le> unat (mc_audio_sample_rate (cfg_media config))"
  shows "\<exists>s'. RtpEvent env c fd revents (s, mx) = Inr (s', mx) \<and> media_ok config (s', mx)"
proof -
  let ?s = "s\<lparr>sess_received := Suc (sess_received s)\<rparr>" and ?rx = "se_rx env (sess_received s)"
  have "media_ok config (?s, mx)" using assms(1) by (simp add: media_ok_def)
  note r = receive_defined [OF this spec [OF assms(2), of "sess_received s"] assms(3), of env]
  show ?thesis
  proof (cases c)
    case (AudioData cid)
    with r(1) [of cid] show ?thesis by (auto simp: RtpEvent_def or_undefined_def Let_def)
  next
    case (VideoData cid)
    with r(2) [of cid] show ?thesis by (auto simp: RtpEvent_def or_undefined_def Let_def)
  next
    case RtcpTimer
    with assms(1) show ?thesis by (simp add: RtpEvent_def Let_def)
  qed
qed

lemma deliver_defined:
  assumes "media_ok config (s, mx)" "\<not> im_fd_mutex mx" "\<forall>n. rx_ok (se_rx env n)"
    "4000 \<le> unat (mc_audio_sample_rate (cfg_media config))"
  shows "\<exists>s'. deliver (RtpEvent env) fd revents (s, mx) = Inr (s', mx) \<and> media_ok config (s', mx)"
proof (cases "Option.bind (im_fd_map mx fd) fi_callback")
  case None
  with assms(1,2) show ?thesis by (simp add: deliver_def)
next
  case (Some c)
  have "media_ok config (s, mx\<lparr>im_fd_mutex := True\<rparr>)" using assms(1) by (simp add: media_ok_def)
  from RtpEvent_defined [OF this assms(3,4), of c fd revents] obtain s' where
    "RtpEvent env c fd revents (s, mx\<lparr>im_fd_mutex := True\<rparr>) = Inr (s', mx\<lparr>im_fd_mutex := True\<rparr>)"
    "media_ok config (s', mx)" by (auto simp: media_ok_def)
  moreover have "mx\<lparr>im_fd_mutex := False\<rparr> = mx" using assms(2) by simp
  ultimately show ?thesis using Some assms(2) by (simp add: deliver_def)
qed

section \<open>Every step keeps it\<close>

text \<open>The conditions under which the receive path is safe: the sampling rate, and what the outside answers.\<close>

definition rx_conditions :: "session_env \<Rightarrow> server_config \<Rightarrow> bool" where
  "rx_conditions env config \<longleftrightarrow>
     (\<forall>n. rx_ok (se_rx env n)) \<and> 4000 \<le> unat (mc_audio_sample_rate (cfg_media config))"

definition media_good :: "session_env \<Rightarrow> server_config \<Rightarrow> session_io \<Rightarrow> bool" where
  "media_good env config io \<longleftrightarrow>
     sess_config (fst io) = config \<and> (rx_conditions env config \<longrightarrow> media_ok config io)"

lemma SipEvent_config:
  assumes "SipEvent env cid st (io, m) = (io', m')"
  shows "sess_config (fst io') = sess_config (fst io)"
proof -
  have create: "sess_config (fst (snd (GetOrCreateContext env c info io))) = sess_config (fst io)" for c info
    by (auto simp: GetOrCreateContext_def put_context_def Let_def with_epoll_def
        split: prod.splits option.splits sum.splits)
  have remove: "sess_config (fst (RemoveContext env c io)) = sess_config (fst io)" for c
    by (auto simp: RemoveContext_def with_epoll_def split: prod.splits option.splits sum.splits)
  show ?thesis
    using assms create [of cid] remove [of cid]
    by (auto simp: SipEvent_def OnSipEvent_def GetCall_def split: if_splits option.splits prod.splits)
      (metis snd_conv)+
qed

lemma SipEvent_media_good:
  "SipEvent env cid st (io, m) = (io', m') \<Longrightarrow> media_good env config io \<Longrightarrow> media_good env config io'"
  using SipEvent_config SipEvent_media_ok unfolding media_good_def by metis

interpretation media: client_state "SipEvent env" "media_good env config"
  by unfold_locales (rule SipEvent_media_good)

text \<open>The operations that leave the jitter buffers alone.\<close>

lemma media_ok_put_sender:
  assumes "media_ok config (s, mx)" "find_context cid s = Some ctx"
    "cx_audio_jitter c = cx_audio_jitter ctx" "cx_video_jitter c = cx_video_jitter ctx"
  shows "media_ok config (put_context cid c s, mx)"
  using media_ok_put [OF assms(1)] media_ok_find [OF assms(1,2)] assms(3,4) by (simp add: context_ok_def)

lemma record_sent_media_ok [simp]: "media_ok config (record_sent d s, mx) = media_ok config (s, mx)"
  by (simp add: record_sent_def media_ok_def split: option.split)

lemma send_audio_payload_media_ok:
  assumes "send_audio_payload env ret cid payload c s = Some (ok, s')" "media_ok config (s, mx)"
    "find_context cid s = Some ctx"
    "cx_audio_jitter c = cx_audio_jitter ctx" "cx_video_jitter c = cx_video_jitter ctx"
  shows "media_ok config (s', mx)"
  using assms(1) media_ok_put_sender [OF assms(2,3)] assms(4,5)
  by (auto simp: send_audio_payload_def bind_eq_Some_conv split_beta)

lemma SendAudioFrame_media_ok:
  assumes "SendAudioFrame env tx cid pcm samples s = Some (ok, s')" "media_ok config (s, mx)"
  shows "media_ok config (s', mx)"
proof (cases "find_context cid s")
  case (Some ctx)
  note payload = send_audio_payload_media_ok [OF _ assms(2) Some]
  note put = media_ok_put_sender [OF assms(2) Some]
  show ?thesis using assms(1) put payload [where s' = s']
    by (auto simp: SendAudioFrame_def Some Let_def bind_eq_Some_conv split_beta advance_audio_def
        split: option.splits if_splits)
qed (use assms in \<open>simp add: SendAudioFrame_def\<close>)

lemma SendVideoFrame_media_ok:
  assumes "SendVideoFrame env tx cid yuv s = Some (ok, s')" "media_ok config (s, mx)"
  shows "media_ok config (s', mx)"
proof (cases "find_context cid s")
  case (Some ctx)
  note find = this
  have sent: "media_ok config (x\<lparr>sess_sent := ds\<rparr>, mx) = media_ok config (x, mx)" for x ds
    by (simp add: media_ok_def)
  have put: "media_ok config (put_context cid (ctx\<lparr>cx_video_encoder := e\<rparr>) s, mx)"
    "media_ok config ((put_context cid (ctx\<lparr>cx_video_encoder := e, cx_video_rtp := r\<rparr>) s)\<lparr>sess_sent := ds\<rparr>, mx)"
    for e r ds using media_ok_put_sender [OF assms(2) Some] by (simp_all add: sent)
  show ?thesis
  proof (cases "cx_video_encoder ctx")
    case (Some enc)
    then obtain r e enc' where e: "EncodeVideo (tx_send tx) (tx_packet tx) yuv enc = Some (r, e, enc')"
      using assms find by (cases "EncodeVideo (tx_send tx) (tx_packet tx) yuv enc") (auto simp: SendVideoFrame_def)
    note simps = find Some e
    show ?thesis
    proof (cases r)
      case True
      then show ?thesis using assms(1) put
        by (cases "H264Fragmenter_Fragment e kRtpMaxPayloadSize")
           (auto simp: SendVideoFrame_def simps Let_def bind_eq_Some_conv split_beta split: if_splits)
    qed (use assms(1) put in \<open>auto simp: SendVideoFrame_def simps Let_def\<close>)
  qed (use assms find in \<open>simp add: SendVideoFrame_def\<close>)
qed (use assms in \<open>simp add: SendVideoFrame_def\<close>)

lemma run_callbacks_media_ok:
  "run_callbacks (RtpTimer env now_ns) cs (s, mx) = Inr (s', mx') \<Longrightarrow> media_ok config (s, mx)
    \<Longrightarrow> media_ok config (s', mx')"
proof (induction cs arbitrary: s mx)
  case (Cons c cs)
  then obtain x s1 mx1 where t: "RtpTimer env now_ns x (s, mx) = Inr (s1, mx1)"
    "run_callbacks (RtpTimer env now_ns) cs (s1, mx1) = Inr (s', mx')"
    by (cases c) (auto split: sum.splits)
  have "media_ok config (s1, mx1)"
    using t(1) Cons.prems(2)
    by (auto simp: RtpTimer_def OnRtcpTimer_def or_undefined_def media_ok_def
        split: rtp_callback.splits option.splits)
  with Cons.IH t(2) show ?case by blast
qed simp

lemma FireTimers_media_ok:
  assumes "FireTimers (RtpTimer env now_ns) now (s, mx) = Inr (s', mx')" "media_ok config (s, mx)"
    "\<not> im_timer_mutex mx"
  shows "media_ok config (s', mx')"
proof -
  from assms obtain mx1 where "run_callbacks (RtpTimer env now_ns) (due_callbacks now (im_timers mx))
      (s, mx\<lparr>im_timer_mutex := True\<rparr>) = Inr (s', mx1)"
    by (auto simp: FireTimers_def fire_loop_reference split: sum.splits prod.splits)
  from run_callbacks_media_ok [OF this, of config] assms(2) show ?thesis by (simp add: media_ok_def)
qed

lemma same_config: "same_contexts s s' \<Longrightarrow> sess_config s' = sess_config s"
  by (simp add: same_contexts_def)

lemma media_good_media:
  assumes "media_good env config (s, mx)" "same_contexts s s'"
    "media_ok config (s, mx) \<Longrightarrow> rx_conditions env config \<Longrightarrow> media_ok config (s', mx')"
  shows "media_good env config (s', mx')"
  using assms by (auto simp: media_good_def same_config)

lemma deliver_media_ok:
  assumes "deliver (RtpEvent env) fd revents (s, mx) = Inr (s', mx')" "\<not> im_fd_mutex mx"
    "media_ok config (s, mx)" "rx_conditions env config"
  shows "media_ok config (s', mx')"
  using assms(1) deliver_defined [OF assms(3,2), of env fd revents] assms(4)
  by (auto simp: rx_conditions_def)

lemma session_step_media_good:
  assumes "session_step env now_ns s s'" "session_ok s" "media_good env config (fst s)"
  shows "media_good env config (fst s')"
proof -
  obtain se mx m se' mx' m' where s: "s = ((se, mx), m)" "s' = ((se', mx'), m')"
    by (metis prod.exhaust)
  have free: "\<not> im_fd_mutex mx" "\<not> im_timer_mutex mx" and wf: "sip_wf m"
    using assms(2) by (simp_all add: s session_ok_def client_links_def listening_def)
  have good: "media_good env config (se, mx)" using assms(3) by (simp add: s)
  consider es where "sip_moves (SipEvent env) s es s'" | "media_step env now_ns (se, mx) (se', mx')"
    using session_step_cases [OF assms(1) [unfolded s] wf] s by blast
  then show ?thesis
  proof cases
    case (1 es)
    then show ?thesis using media.moves_keep assms(3) by blast
  next
    case 2
    note media_case = media_good_media [OF good, where s' = se' and mx' = mx']
    from 2 have "media_good env config (se', mx')"
    proof cases
      case (media_audio tx cid pcm samples ok)
      then show ?thesis using media_case SendAudioFrame_same SendAudioFrame_media_ok by metis
    next
      case (media_video tx cid yuv ok)
      then show ?thesis using media_case SendVideoFrame_same SendVideoFrame_media_ok by metis
    next
      case (media_event fd revents)
      then show ?thesis using media_case deliver_same deliver_media_ok free by metis
    next
      case (media_timer t)
      then show ?thesis using media_case FireTimers_same FireTimers_media_ok free by metis
    next
      case (media_rtcp_timer now i)
      then show ?thesis using good by (auto simp: media_good_def media_ok_def)
    next
      case media_packet_callback
      then show ?thesis using good by (auto simp: media_good_def media_ok_def SetRtpPacketCallback_def)
    qed
    then show ?thesis by (simp add: s)
  qed
qed

lemma session_reachable_media:
  "session_reachable env now_ns s \<Longrightarrow> \<exists>config. media_good env config (fst s)"
proof (induction rule: session_reachable.induct)
  case (session_started epfd mx config rng sess m)
  then have "sess_contexts sess = []" "sess_config sess = config"
    by (auto simp: SessionManager_Start_def SessionManager_new_def split: prod.splits bool.splits)
  then show ?case by (auto simp: media_good_def media_ok_def)
next
  case (session_stepped s s')
  with session_step_media_good session_reachable_ok show ?case by metis
qed

lemma reachable_deliver:
  assumes "session_reachable env now_ns ((sess, mx), sip)" "\<forall>n. rx_ok (se_rx env n)"
    "4000 \<le> unat (mc_audio_sample_rate (cfg_media (sess_config sess)))"
  shows "\<exists>sess'. deliver (RtpEvent env) fd revents (sess, mx) = Inr (sess', mx)"
proof -
  obtain config where "media_good env config (sess, mx)"
    using session_reachable_media [OF assms(1)] by auto
  moreover have "\<not> im_fd_mutex mx"
    using session_reachable_ok [OF assms(1)] by (simp add: session_ok_def client_links_def listening_def)
  ultimately show ?thesis using deliver_defined [of config sess mx env fd revents] assms(2,3)
    by (auto simp: media_good_def rx_conditions_def)
qed


text \<open>A sample in which every read returns a truncated header.\<close>

definition hostile_env :: session_env where
  "hostile_env = (sample_session_env True)
     \<lparr>se_rx := (\<lambda>_. \<lparr>rx_outcome = RecvData [0xBF, 1, 2] zero_sockaddr, rx_now = 0, rx_send = 0,
                     rx_pcm = None, rx_picture = None\<rparr>)\<rparr>"


end
