(* ===== verification/Session_Invariants.thy ===== *)
theory Session_Invariants
  imports Session_Safety
begin

text \<open>
  Invariants that tie the parts of the running server together, proved per move of the SIP manager and
  per step of the media thread: where a context comes from, which ports a call advertises, and which
  descriptor belongs to whom. From them: the answer of a live call names the ports it listens on, an
  event on a descriptor concerns the call that owns it and no other, and the loop of the media thread
  fails in one way only, at the first RTCP report of a server with a call.
\<close>

section \<open>The callback, once the manager listens\<close>

definition with_ports :: "call_context \<Rightarrow> sip_call \<Rightarrow> sip_call" where
  "with_ports ctx c = c\<lparr>call_session_info := (call_session_info c)
     \<lparr>ci_audio_local_port := ci_audio_local_port (cx_info ctx),
      ci_video_local_port := ci_video_local_port (cx_info ctx)\<rparr>\<rparr>"

lemma SipEvent_told:
  assumes "listening io"
  shows "SipEvent env cid st (io, m) =
     (if st = kConnected
      then (case sm_calls m cid of
              None \<Rightarrow> (io, m)
            | Some c \<Rightarrow> (case GetOrCreateContext env cid (call_session_info c) io of
                (ctx, io') \<Rightarrow> (io', put_call cid (with_ports ctx c) m)))
      else if st = kDisconnected \<or> st = kFailed then (RemoveContext env cid io, m)
      else (io, m))"
  using assms
  by (cases io) (auto simp: SipEvent_def OnSipEvent_def listening_def GetCall_def with_ports_def split: option.split prod.split)

lemma RemoveContext_effect:
  assumes "RemoveContext env cid (s, mx) = (s', mx')" "\<not> im_fd_mutex mx"
  shows "find_context cid s = None \<and> s' = s \<and> mx' = mx
    \<or> (\<exists>ctx. find_context cid s = Some ctx \<and> sess_contexts s' = AList.delete cid (sess_contexts s)
        \<and> sess_config s' = sess_config s \<and> sess_sent s' = sess_sent s
        \<and> UnregisterRtpFds (se_epoll_del env cid) ctx mx = Inr mx')"
proof (cases "find_context cid s")
  case (Some ctx)
  obtain mx1 where "UnregisterRtpFds (se_epoll_del env cid) ctx mx = Inr mx1"
    using register_fds(2) [OF assms(2)] by blast
  with Some assms(1) show ?thesis by (auto simp: RemoveContext_def with_epoll_def)
qed (use assms(1) in \<open>simp add: RemoveContext_def\<close>)

lemma GetOrCreateContext_find:
  assumes "GetOrCreateContext env cid info (s, mx) = (ctx, (s', mx'))" "\<not> im_fd_mutex mx"
  shows "find_context d s' = (if d = cid then Some ctx else find_context d s)"
  using GetOrCreateContext_effect [OF assms] by (auto simp: find_context_def map_add_def split: option.splits)

lemma RemoveContext_find:
  assumes "RemoveContext env cid (s, mx) = (s', mx')" "\<not> im_fd_mutex mx"
  shows "find_context d s' = (if d = cid then None else find_context d s)"
  using RemoveContext_effect [OF assms] by (auto simp: find_context_def delete_conv')

section \<open>Contexts, calls and descriptors\<close>

text \<open>
  A context was made by \<open>GetOrCreateContext\<close> for its call, from information without a callee's URI, and
  has kept its frame since.
\<close>

definition context_origin :: "session_env \<Rightarrow> server_config \<Rightarrow> string \<Rightarrow> call_context \<Rightarrow> bool" where
  "context_origin env config cid ctx \<longleftrightarrow>
     (\<exists>n info. ci_callee_uri info = [] \<and> same_frame (new_context env (se_context env n) config cid info) ctx)"

text \<open>A call that has a context carries the context's local ports.\<close>

definition call_linked :: "session_manager \<Rightarrow> string \<Rightarrow> sip_call \<Rightarrow> bool" where
  "call_linked s cid c \<longleftrightarrow> ci_callee_uri (call_session_info c) = []
     \<and> (live (Some (call_state c)) \<longrightarrow> (\<exists>ctx. find_context cid s = Some ctx
          \<and> ci_audio_local_port (call_session_info c) = ci_audio_local_port (cx_info ctx)
          \<and> ci_video_local_port (call_session_info c) = ci_video_local_port (cx_info ctx)))"

text \<open>A registered descriptor is the receive socket of the context that its closure names.\<close>

definition fd_owned :: "session_manager \<Rightarrow> int \<Rightarrow> rtp_callback fd_info \<Rightarrow> bool" where
  "fd_owned s fd info \<longleftrightarrow> 0 \<le> fd \<and> (\<exists>cid ctx. find_context cid s = Some ctx
     \<and> (fi_callback info = Some (AudioData cid) \<and> RecvFd (cx_audio_rtp ctx) = fd
        \<or> fi_callback info = Some (VideoData cid) \<and> RecvFd (cx_video_rtp ctx) = fd))"

text \<open>The kernel removes a descriptor from the set when it is asked to.\<close>

definition reliable_epoll :: "session_env \<Rightarrow> bool" where
  "reliable_epoll env \<longleftrightarrow> (\<forall>cid. 0 \<le> fst (se_epoll_del env cid) \<and> 0 \<le> snd (se_epoll_del env cid))"

definition parts_linked :: "session_env \<Rightarrow> session_state \<Rightarrow> bool" where
  "parts_linked env s \<longleftrightarrow> (case s of ((sess, mx), m) \<Rightarrow> listening (sess, mx)
     \<and> (\<forall>cid ctx. find_context cid sess = Some ctx \<longrightarrow> context_origin env (sess_config sess) cid ctx)
     \<and> (\<forall>cid c. sm_calls m cid = Some c \<longrightarrow> call_linked sess cid c)
     \<and> (reliable_epoll env \<longrightarrow> (\<forall>fd info. im_fd_map mx fd = Some info \<longrightarrow> fd_owned sess fd info))
     \<and> (\<forall>t \<in> set (im_timers mx). ti_callback t = Some RtcpTimer))"

lemma new_context_origin: "ci_callee_uri info = [] \<Longrightarrow> context_origin env config cid (new_context env (se_context env n) config cid info)"
  unfolding context_origin_def by (intro exI [of _ n] exI [of _ info]) simp

lemma context_origin_frame: "context_origin env config cid ctx \<Longrightarrow> same_frame ctx ctx' \<Longrightarrow> context_origin env config cid ctx'"
  unfolding context_origin_def using same_frame_trans by blast

lemma new_context_fields:
  "cx_call_id (new_context env ce config cid info) = cid"
  "ci_callee_uri (cx_info (new_context env ce config cid info)) = ci_callee_uri info"
  "ci_remote_rtp_addr (cx_info (new_context env ce config cid info)) = ci_remote_rtp_addr info"
  "ci_audio_remote_port (cx_info (new_context env ce config cid info)) = ci_audio_remote_port info"
  "ci_video_remote_port (cx_info (new_context env ce config cid info)) = ci_video_remote_port info"
  by (simp_all add: new_context_def Let_def)

text \<open>Registering and removing a context's descriptors.\<close>

lemma RegisterRtpFds_map:
  assumes "RegisterRtpFds ret ctx mx = Inr mx'" "im_fd_map mx' fd = Some info"
  shows "im_fd_map mx fd = Some info
    \<or> 0 \<le> fd \<and> (fi_callback info = Some (AudioData (cx_call_id ctx)) \<and> RecvFd (cx_audio_rtp ctx) = fd
                \<or> fi_callback info = Some (VideoData (cx_call_id ctx)) \<and> RecvFd (cx_video_rtp ctx) = fd)"
  using assms
  by (auto simp: RegisterRtpFds_def register_fd_def AddFd_def split: if_splits sum.splits)

lemma UnregisterRtpFds_map:
  assumes "UnregisterRtpFds ret ctx mx = Inr mx'" "0 \<le> fst ret" "0 \<le> snd ret" "im_fd_map mx' fd = Some info"
  shows "im_fd_map mx fd = Some info \<and> (0 \<le> fd \<longrightarrow> fd \<noteq> RecvFd (cx_audio_rtp ctx) \<and> fd \<noteq> RecvFd (cx_video_rtp ctx))"
  using assms
  by (auto simp: UnregisterRtpFds_def unregister_fd_def DelFd_def split: if_splits sum.splits)

lemma rtp_fds_timers:
  "RegisterRtpFds ret ctx mx = Inr mx' \<Longrightarrow> im_timers mx' = im_timers mx"
  "UnregisterRtpFds ret ctx mx = Inr mx' \<Longrightarrow> im_timers mx' = im_timers mx"
  by (auto simp: RegisterRtpFds_def UnregisterRtpFds_def register_fd_def unregister_fd_def AddFd_def DelFd_def
      split: if_splits sum.splits)

text \<open>Connecting a call keeps the links, and so does removing its context.\<close>

lemma connected_linked:
  assumes "GetOrCreateContext env cid (call_session_info c) (s, mx) = (ctx, (s', mx'))"
    "parts_linked env ((s, mx), m)" "listening (s', mx')" "ci_callee_uri (call_session_info c) = []" "sm_calls m' = (sm_calls m)(cid \<mapsto> c)"
  shows "parts_linked env ((s', mx'), put_call cid (with_ports ctx c) m')"
proof -
  have free: "\<not> im_fd_mutex mx" using assms(2) by (simp add: parts_linked_def listening_def)
  note eff = GetOrCreateContext_effect [OF assms(1) free] and find = GetOrCreateContext_find [OF assms(1) free]
  have config: "sess_config s' = sess_config s" using eff by auto
  have "context_origin env (sess_config s) cid ctx"
    using eff assms(2,4) new_context_origin by (auto simp: parts_linked_def)
  then have contexts: "\<forall>d x. find_context d s' = Some x \<longrightarrow> context_origin env (sess_config s') d x"
    using assms(2) by (auto simp: find config parts_linked_def)
  have calls: "call_linked s' d x" if "sm_calls (put_call cid (with_ports ctx c) m') d = Some x" for d x
    using that assms(2,4,5)
    by (auto simp: parts_linked_def call_linked_def find with_ports_def split: if_splits)
  have "fd_owned s' fd info" if "reliable_epoll env" "im_fd_map mx' fd = Some info" for fd info
  proof (cases "im_fd_map mx fd = Some info")
    case True
    then have "fd_owned s fd info" using that(1) assms(2) by (simp add: parts_linked_def)
    moreover have "find_context d s' = Some x" if "find_context d s = Some x" for d x
      using that eff find by (cases "d = cid") auto
    ultimately show ?thesis unfolding fd_owned_def by blast
  next
    case False
    with eff that(2) have made: "ctx = new_context env (se_context env (sess_created s)) (sess_config s) cid (call_session_info c)"
        "RegisterRtpFds (ce_epoll_add (se_context env (sess_created s))) ctx mx = Inr mx'" by auto
    from made(1) have "cx_call_id ctx = cid" by (simp only: new_context_fields)
    with RegisterRtpFds_map [OF made(2) that(2)] False show ?thesis unfolding fd_owned_def by (auto simp: find)
  qed
  moreover have "im_timers mx' = im_timers mx" using eff by (auto dest: rtp_fds_timers(1))
  ultimately show ?thesis using contexts calls assms(2,3) by (simp add: parts_linked_def)
qed

lemma removed_linked:
  assumes "RemoveContext env cid (s, mx) = (s', mx')" "parts_linked env ((s, mx), m)" "listening (s', mx')"
    "sm_calls m' = (sm_calls m)(cid := x)" "\<And>c. x = Some c \<Longrightarrow> ci_callee_uri (call_session_info c) = [] \<and> \<not> live (Some (call_state c))"
  shows "parts_linked env ((s', mx'), m')"
proof -
  have free: "\<not> im_fd_mutex mx" using assms(2) by (simp add: parts_linked_def listening_def)
  note eff = RemoveContext_effect [OF assms(1) free] and find = RemoveContext_find [OF assms(1) free]
  have config: "sess_config s' = sess_config s" using eff by auto
  have "call_linked s' d c" if "sm_calls m' d = Some c" for d c
    using that assms(2,4,5) by (auto simp: parts_linked_def call_linked_def find split: if_splits)
  moreover have "fd_owned s' fd info" if "reliable_epoll env" "im_fd_map mx' fd = Some info" for fd info
  proof -
    have "im_fd_map mx fd = Some info" "find_context cid s = None \<or> (\<exists>ctx. find_context cid s = Some ctx
        \<and> (0 \<le> fd \<longrightarrow> fd \<noteq> RecvFd (cx_audio_rtp ctx) \<and> fd \<noteq> RecvFd (cx_video_rtp ctx)))"
      using eff that UnregisterRtpFds_map unfolding reliable_epoll_def by metis+
    moreover have "fd_owned s fd info" using calculation(1) that(1) assms(2) by (simp add: parts_linked_def)
    ultimately show ?thesis unfolding fd_owned_def find by (metis option.distinct(1) option.inject)
  qed
  moreover have "im_timers mx' = im_timers mx" using eff by (auto dest: rtp_fds_timers(2))
  ultimately show ?thesis using assms(2,3) by (auto simp: parts_linked_def find config)
qed

lemma told_listening: "SipEvent env cid st (io, m) = (io', m') \<Longrightarrow> listening io \<Longrightarrow> listening io'"
  by (rule session.ready_kept)

lemma call_linked_put:
  assumes "parts_linked env (io, m)" "call_linked (fst io) cid c" "sm_calls m' = (sm_calls m)(cid \<mapsto> c)"
  shows "parts_linked env (io, m')"
  using assms by (cases io) (auto simp: parts_linked_def)

text \<open>The moves that tell the client of a change: the context is made, removed or left.\<close>

lemma changed_linked:
  assumes "sm_calls m cid = Some c" "call_change (call_state c) (call_state c')" "same_media c c'"
    "SipEvent env cid (call_state c') (w, put_call cid c' m) = (w', m')" "parts_linked env (w, m)"
  shows "parts_linked env (w', m')"
proof -
  obtain sess mx where w: "w = (sess, mx)" by (cases w)
  have p: "parts_linked env ((sess, mx), m)" using assms(5) by (simp add: w)
  have l: "listening w" using p by (simp add: w parts_linked_def)
  have l': "listening w'" by (rule told_listening [OF assms(4) l])
  have old: "call_linked sess cid c" using p assms(1) by (simp add: parts_linked_def)
  have callee: "ci_callee_uri (call_session_info c') = []"
    using old same_media_fields(6) [OF assms(3)] by (simp add: call_linked_def)
  consider "call_state c' = kConnected" | "call_state c' = kDisconnected \<or> call_state c' = kFailed"
    | "call_state c = kConnected" "call_state c' = kDisconnecting" using assms(2) by auto
  then show ?thesis
  proof cases
    case 1
    obtain ctx s1 mx1 where g: "GetOrCreateContext env cid (call_session_info c') (sess, mx) = (ctx, (s1, mx1))"
      by (metis prod.exhaust)
    then have "w' = (s1, mx1)" "m' = put_call cid (with_ports ctx c') (put_call cid c' m)"
      using assms(4) SipEvent_told [OF l] 1 by (auto simp: w)
    with connected_linked [OF g p _ callee, of "put_call cid c' m"] l' show ?thesis by simp
  next
    case 2
    obtain s1 mx1 where g: "RemoveContext env cid (sess, mx) = (s1, mx1)" by (rule prod.exhaust)
    then have "w' = (s1, mx1)" "m' = put_call cid c' m" using assms(4) SipEvent_told [OF l] 2 by (auto simp: w)
    with removed_linked [OF g p, of "put_call cid c' m" "Some c'"] l' callee 2 show ?thesis
      by (auto simp: live_def)
  next
    case 3
    then have "(w', m') = (w, put_call cid c' m)" using assms(4) SipEvent_told [OF l] by simp
    moreover have "call_linked sess cid c'"
      using old callee 3 same_media_fields(1,2) [OF assms(3)] by (simp add: call_linked_def live_def)
    ultimately show ?thesis using call_linked_put [of env w m cid c'] p by (simp add: w)
  qed
qed

lemma move_linked:
  assumes "sip_move (SipEvent env) s e s'" "parts_linked env s"
  shows "parts_linked env s'"
  using assms(1)
proof cases
  case (silent m' m w)
  then show ?thesis using assms(2) by (cases w) (simp add: parts_linked_def)
next
  case (timed m cid c c' w)
  have "call_linked (fst w) cid c" using assms(2) timed by (cases w) (simp add: parts_linked_def)
  then have "call_linked (fst w) cid c'" using timed same_media_fields [OF timed(6)] by (simp add: call_linked_def)
  with call_linked_put [of env w m cid c'] assms(2) timed show ?thesis by simp
next
  case (negotiated m cid c w desc)
  let ?c = "c\<lparr>call_session_info := sdp_to_info desc (call_session_info c)\<rparr>"
  have "call_linked (fst w) cid c" using assms(2) negotiated by (cases w) (simp add: parts_linked_def)
  then have "call_linked (fst w) cid ?c" by (simp add: call_linked_def)
  with call_linked_put [of env w m cid ?c] assms(2) negotiated show ?thesis by simp
next
  case (created m cid c w)
  have l: "listening w" using assms(2) created(1) by (cases w) (simp add: parts_linked_def)
  have "s' = (w, put_call cid c m)" using created SipEvent_told [OF l] by auto
  moreover have "call_linked (fst w) cid c"
    using created by (auto simp: call_linked_def live_def init_call_session_info_def)
  ultimately show ?thesis using call_linked_put [of env w m cid c] assms(2) created(1) by simp
next
  case (changed m cid c c' w)
  with changed_linked [of m cid c c' env w "fst s'" "snd s'"] assms(2) show ?thesis by simp
next
  case (gone m cid w)
  then show ?thesis using assms(2) by (cases w) (auto simp: parts_linked_def erase_call_def split: if_splits)
next
  case (reported st cid)
  obtain w m where s: "s = (w, m)" by (cases s)
  have "listening w" using assms(2) by (cases w) (simp add: s parts_linked_def)
  from SipEvent_told [OF this] reported have "s' = s" by (auto simp: s)
  then show ?thesis using assms(2) by simp
qed

lemma media_step_timers:
  assumes "media_step env now_ns (s, mx) (s', mx')" "listening (s, mx)" "t' \<in> set (im_timers mx')"
  shows "ti_callback t' = Some RtcpTimer \<or> (\<exists>t \<in> set (im_timers mx). ti_callback t' = ti_callback t)"
  using assms(1)
proof cases
  case (media_event fd revents)
  with deliver_same [OF this] assms(2,3) show ?thesis by (auto simp: listening_def)
next
  case (media_timer t)
  then obtain ts where "im_timers mx' = timers_after t (im_timers mx)"
    by (auto simp: FireTimers_def fire_loop_reference timers_after_def split: if_splits sum.splits prod.splits)
  then show ?thesis using assms(3) by (auto simp: timers_after_def reschedule_def split: if_splits)
qed (use assms(3) in \<open>auto simp: AddTimer_def split: if_splits\<close>)

lemma media_linked:
  assumes "media_step env now_ns (s, mx) (s', mx')" "parts_linked env ((s, mx), m)"
  shows "parts_linked env ((s', mx'), m)"
proof -
  have l: "listening (s, mx)" using assms(2) by (simp add: parts_linked_def)
  have f: "same_contexts s s'" "im_fd_mutex mx' = im_fd_mutex mx" "im_timer_mutex mx' = im_timer_mutex mx"
    "im_fd_map mx' = im_fd_map mx"
    using media_step_frame [OF assms(1)] l by (simp_all add: listening_def)
  have frame: "\<exists>x. find_context d s = Some x \<and> same_frame x y" if "find_context d s' = Some y" for d y
    using same_contexts_find [OF f(1), of d] that by (auto simp: option_rel_Some2)
  have frame': "\<exists>ctx'. find_context d s' = Some ctx' \<and> same_frame ctx ctx'" if "find_context d s = Some ctx" for d ctx
    using same_contexts_find [OF f(1), of d] that by (auto simp: option_rel_Some1)
  have config: "sess_config s' = sess_config s" using f(1) by (simp add: same_contexts_def)
  have calls: "call_linked s' d c" if "call_linked s d c" for d c
    using that frame' unfolding call_linked_def same_frame_def by metis
  have owned: "fd_owned s' fd info" if "fd_owned s fd info" for fd info
    using that frame' unfolding fd_owned_def same_frame_def RecvFd_def by metis
  have origin: "context_origin env (sess_config s') d ctx'" if "find_context d s' = Some ctx'" for d ctx'
  proof -
    from frame [OF that] obtain ctx where "find_context d s = Some ctx" "same_frame ctx ctx'" by blast
    moreover from this(1) have "context_origin env (sess_config s) d ctx" using assms(2) by (simp add: parts_linked_def)
    ultimately show ?thesis using context_origin_frame by (simp add: config)
  qed
  have "ti_callback t = Some RtcpTimer" if "t \<in> set (im_timers mx')" for t
    using media_step_timers [OF assms(1) l that] assms(2) by (auto simp: parts_linked_def)
  then show ?thesis
    using listening_same [OF f(1) l f(2,3)] calls owned origin assms(2) by (simp add: parts_linked_def f(4))
qed

lemma session_reachable_linked: "session_reachable env now_ns s \<Longrightarrow> parts_linked env s"
proof (induction rule: session_reachable.induct)
  case (session_started epfd mx config rng sess m)
  note started = session_reachable.session_started [OF session_started, of env now_ns]
  obtain m1 where init: "Initialize True (cfg_sip (sess_config (SessionManager_new config))) (SipManager_new rng) = (True, m1)"
    and r: "m1 = m" "sess_contexts sess = []"
    using session_started.hyps(2)
    by (auto simp: SessionManager_Start_def SessionManager_new_def split: prod.splits bool.splits if_splits)
  have "sm_calls m = (\<lambda>_. None)" using Initialize_no_calls [OF init] r by (simp add: SipManager_new_def)
  moreover have "im_fd_map mx = (\<lambda>_. None)" "im_timers mx = []"
    using session_started(1) by (auto simp: IoMultiplexer_new_def split: if_splits)
  ultimately show ?case using session_reachable_ok [OF started] r(2)
    by (simp add: parts_linked_def session_ok_def client_links_def find_context_def)
next
  case (session_stepped s s')
  obtain io m io' m' where s: "s = (io, m)" "s' = (io', m')" by (cases s, cases s')
  have "sip_wf m" using session_reachable_ok [OF session_stepped(1)] by (simp add: s session_ok_def)
  from session_step_cases [OF session_stepped(2) [unfolded s] this] show ?case
  proof
    assume "\<exists>es. sip_moves (SipEvent env) (io, m) es (io', m')"
    then obtain es where "sip_moves (SipEvent env) s es s'" by (auto simp: s)
    then show ?thesis using session_stepped(3)
      by (rule sip_moves_invariant [where P = "\<lambda>_. True"]) (auto intro: move_linked simp: list_all_iff)
  next
    assume "media_step env now_ns io io' \<and> m' = m"
    then show ?thesis using media_linked session_stepped(3) by (cases io; cases io') (simp add: s)
  qed
qed

section \<open>The answer and the sockets\<close>

text \<open>The receive socket of a new session, and the port that \<open>getsockname\<close> tells for the other one.\<close>

definition bound_port :: "rtp_session \<Rightarrow> u16 option" where
  "bound_port rs = map_option (\<lambda>s. ntohs (sin_port (us_local_addr s))) (rs_recv_socket rs)"

lemma open_rtp_sockets:
  "0 \<le> RecvFd (open_rtp env r port rs) \<Longrightarrow> bound_port (open_rtp env r port rs) = Some (port + 2)"
  "LocalSendPort name (open_rtp env r port rs) = UdpSocket_GetLocalPort name"
  by (cases "or_socket (snd r) < 0", auto simp: open_rtp_def OpenRecvSocket_def OpenSendSocket_def open_socket_def
      UdpSocket_Create_def UdpSocket_new_def UdpSocket_Bind_def RecvFd_def LocalSendPort_def bound_port_def
      split: prod.splits)

lemma new_context_sockets:
  "0 \<le> RecvFd (cx_audio_rtp (new_context env ce config cid info))
    \<Longrightarrow> bound_port (cx_audio_rtp (new_context env ce config cid info)) = Some (mc_audio_port (cfg_media config) + 2)"
  "0 \<le> RecvFd (cx_video_rtp (new_context env ce config cid info))
    \<Longrightarrow> bound_port (cx_video_rtp (new_context env ce config cid info)) = Some (mc_video_port (cfg_media config) + 2)"
  "ci_audio_local_port (cx_info (new_context env ce config cid info)) = Some (UdpSocket_GetLocalPort (fst (ce_names ce)))"
  "ci_video_local_port (cx_info (new_context env ce config cid info)) = Some (UdpSocket_GetLocalPort (snd (ce_names ce)))"
  by (simp_all add: new_context_def Let_def open_rtp_sockets)

lemma linked_call_ports:
  assumes "session_reachable env now_ns ((sess, mx), sip)" "find_context cid sess = Some ctx"
  obtains c n where "sm_calls sip cid = Some c" "live (Some (call_state c))"
    "ci_audio_local_port (call_session_info c) = ci_audio_local_port (cx_info ctx)"
    "ci_video_local_port (call_session_info c) = ci_video_local_port (cx_info ctx)"
    "context_origin env (sess_config sess) cid ctx"
proof -
  have "cid \<in> {cid. \<exists>c. sm_calls sip cid = Some c \<and> call_state c \<in> {kConnected, kDisconnecting}}"
    using session_ok_contexts [OF session_reachable_ok [OF assms(1)]] assms(2) by auto
  then obtain c where c: "sm_calls sip cid = Some c" "live (Some (call_state c))" by (auto simp: live_def)
  have "call_linked sess cid c" "context_origin env (sess_config sess) cid ctx"
    using session_reachable_linked [OF assms(1)] c(1) assms(2) by (simp_all add: parts_linked_def)
  with that c assms(2) show thesis by (simp add: call_linked_def)
qed


section \<open>One call's events and the other calls\<close>

lemma passed_on_effect:
  assumes "passed_on cid s s'"
  shows "find_context d s' = find_context d s" "sess_sent s' = sess_sent s"
    "sess_delivered s' = sess_delivered s \<or> (\<exists>data pt. sess_delivered s' = sess_delivered s @ [(cid, data, pt)])"
  using assms by (auto simp: passed_on_def deliver_data_def find_context_def)

text \<open>
  Property C7. Calls do not disturb each other. Whenever a descriptor reports data in a reachable state and
  the event is handled, nothing at all changes unless the descriptor is a receive socket of some call's
  context. Then only this call's context can change, and it keeps its information and its sockets; every
  other context stays as it is, nothing is sent, and at most one payload goes to the packet callback,
  under this call's identifier. This rests on the kernel removing descriptors from the epoll set when it
  is asked to.
\<close>

theorem media_event_isolation:
  assumes "session_reachable env now_ns ((sess, mx), sip)" "reliable_epoll env"
    "deliver (RtpEvent env) fd revents (sess, mx) = Inr (sess', mx')"
  shows "mx' = mx \<and> (sess' = sess \<or>
     (\<exists>cid ctx ctx'. find_context cid sess = Some ctx \<and> find_context cid sess' = Some ctx'
        \<and> 0 \<le> fd \<and> (RecvFd (cx_audio_rtp ctx) = fd \<or> RecvFd (cx_video_rtp ctx) = fd)
        \<and> cx_info ctx' = cx_info ctx \<and> rs_recv_socket (cx_audio_rtp ctx') = rs_recv_socket (cx_audio_rtp ctx)
        \<and> rs_recv_socket (cx_video_rtp ctx') = rs_recv_socket (cx_video_rtp ctx)
        \<and> (\<forall>d. d \<noteq> cid \<longrightarrow> find_context d sess' = find_context d sess) \<and> sess_sent sess' = sess_sent sess
        \<and> (sess_delivered sess' = sess_delivered sess
            \<or> (\<exists>data pt. sess_delivered sess' = sess_delivered sess @ [(cid, data, pt)]))))"
proof -
  have linked: "parts_linked env ((sess, mx), sip)" by (rule session_reachable_linked [OF assms(1)])
  then have free: "\<not> im_fd_mutex mx" by (simp add: parts_linked_def listening_def)
  have mx: "mx' = mx" using deliver_same [OF assms(3) free] by simp
  show ?thesis
  proof (cases "Option.bind (im_fd_map mx fd) fi_callback")
    case None
    then show ?thesis using assms(3) free by (simp add: deliver_def)
  next
    case (Some c)
    then obtain info where "im_fd_map mx fd = Some info" and c: "fi_callback info = Some c"
      by (auto simp: bind_eq_Some_conv)
    then have "fd_owned sess fd info" using linked assms(2) by (simp add: parts_linked_def)
    then obtain cid ctx where ctx: "find_context cid sess = Some ctx" "0 \<le> fd"
      and who: "c = AudioData cid \<and> RecvFd (cx_audio_rtp ctx) = fd \<or> c = VideoData cid \<and> RecvFd (cx_video_rtp ctx) = fd"
      using c by (auto simp: fd_owned_def)
    let ?rx = "se_rx env (sess_received sess)" and ?s = "sess\<lparr>sess_received := Suc (sess_received sess)\<rparr>"
    have ran: "on_audio_data env ?rx cid ?s = Some sess' \<or> on_video_data env ?rx cid ?s = Some sess'"
      using assms(3) free Some who
      by (auto simp: deliver_def RtpEvent_def Let_def or_undefined_def split: option.splits sum.splits)
    have "find_context cid ?s = Some ctx" using ctx(1) by (simp add: find_context_def)
    then obtain ctx' where ctx': "same_frame ctx ctx'" "passed_on cid (put_context cid ctx' ?s) sess'"
      using ran on_audio_data_passed_on on_video_data_passed_on by metis
    have "find_context cid sess' = Some ctx'" "d \<noteq> cid \<Longrightarrow> find_context d sess' = find_context d sess" for d
      using passed_on_effect(1) [OF ctx'(2)] by (simp_all add: find_context_def put_context_def update_conv')
    moreover have "sess_sent sess' = sess_sent sess" "sess_delivered sess' = sess_delivered sess
        \<or> (\<exists>data pt. sess_delivered sess' = sess_delivered sess @ [(cid, data, pt)])"
      using passed_on_effect(2,3) [OF ctx'(2)] by (simp_all add: put_context_def)
    ultimately show ?thesis using mx ctx ctx'(1) who unfolding same_frame_def
      by - (rule conjI [OF mx], rule disjI2, rule exI [of _ cid], rule exI [of _ ctx], rule exI [of _ ctx'], blast)
  qed
qed

section \<open>The media thread\<close>

text \<open>A context's report always faults; without contexts there is nothing to report.\<close>

lemma OnRtcpTimer_undefined:
  assumes "parts_linked env ((sess, mx), sip)"
  shows "OnRtcpTimer env now_ns sess = (if sess_contexts sess = [] then Some sess else None)"
proof (cases "sess_contexts sess")
  case (Cons x xs)
  then obtain ctx where ctx: "find_context (fst x) sess = Some ctx" by (cases x) (simp add: find_context_def)
  then have "context_origin env (sess_config sess) (fst x) ctx" using assms by (simp add: parts_linked_def)
  then have "ci_callee_uri (cx_info ctx) = []"
    by (auto simp: context_origin_def same_frame_def new_context_fields)
  moreover have "(fst x, ctx) \<in> set (sess_contexts sess)" using ctx by (simp add: find_context_def map_of_SomeD)
  ultimately have "OnRtcpTimer env now_ns sess = None" by (rule default_cname_faults [rotated])
  then show ?thesis by (simp add: Cons)
qed (simp add: OnRtcpTimer_def)

lemma FireTimers_outcome:
  assumes "parts_linked env ((sess, mx), sip)"
  shows "FireTimers (RtpTimer env now_ns) t (sess, mx) =
     (if sess_contexts sess \<noteq> [] \<and> (\<exists>x \<in> set (im_timers mx). timer_due t x) then Inl UndefinedBehaviour
      else Inr (sess, mx\<lparr>im_timers := timers_after t (im_timers mx), im_timer_mutex := False\<rparr>))"
proof -
  have cb: "\<forall>x \<in> set (im_timers mx). ti_callback x = Some RtcpTimer" and free: "\<not> im_timer_mutex mx"
    using assms by (simp_all add: parts_linked_def listening_def)
  have run: "run_callbacks (RtpTimer env now_ns) (map ti_callback ts) (sess, m) =
      (if sess_contexts sess \<noteq> [] \<and> ts \<noteq> [] then Inl UndefinedBehaviour else Inr (sess, m))"
    if "\<forall>x \<in> set ts. ti_callback x = Some RtcpTimer" for ts m
    using that OnRtcpTimer_undefined [OF assms, of now_ns]
    by (induction ts) (auto simp: RtpTimer_def or_undefined_def)
  have "filter (timer_due t) (im_timers mx) \<noteq> [] \<longleftrightarrow> (\<exists>x \<in> set (im_timers mx). timer_due t x)"
    by (simp add: filter_empty_conv)
  with run [of "filter (timer_due t) (im_timers mx)"] cb free show ?thesis
    by (simp add: FireTimers_def fire_loop_reference due_callbacks_def timers_after_def)
qed

lemma RtpEvent_sends_nothing:
  assumes "RtpEvent env c fd revents (s, mx) = Inr (s', mx')"
  shows "sess_sent s' = sess_sent s"
proof -
  have sent: "sess_sent s2 = sess_sent s1"
    if d: "on_audio_data env rx cid s1 = Some s2 \<or> on_video_data env rx cid s1 = Some s2" for rx cid s1 s2
  proof (cases "find_context cid s1")
    case None
    then show ?thesis using d by (auto simp: on_audio_data_def on_video_data_def)
  next
    case (Some ctx)
    then obtain ctx' where "passed_on cid (put_context cid ctx' s1) s2"
      using d on_audio_data_passed_on on_video_data_passed_on by metis
    from passed_on_effect(2) [OF this] show ?thesis by (simp add: put_context_def)
  qed
  show ?thesis
    using assms sent by (cases c) (fastforce simp: RtpEvent_def Let_def or_undefined_def split: option.splits)+
qed

lemma deliver_sends_nothing:
  assumes "deliver (RtpEvent env) fd revents (s, mx) = Inr (s', mx')"
  shows "sess_sent s' = sess_sent s"
  using assms RtpEvent_sends_nothing [of env _ fd revents s]
  by (auto simp: deliver_def split: if_splits option.splits sum.splits)

text \<open>What the loop of the media thread keeps, whatever it meets.\<close>

definition media_loop_ok :: "session_env \<Rightarrow> server_config \<Rightarrow> sip_manager \<Rightarrow> session_io \<Rightarrow> bool" where
  "media_loop_ok env config sip io \<longleftrightarrow> parts_linked env (io, sip) \<and> media_ok config io"

definition same_calls_sent :: "session_manager \<Rightarrow> session_manager \<Rightarrow> bool" where
  "same_calls_sent s s' \<longleftrightarrow> map fst (sess_contexts s') = map fst (sess_contexts s) \<and> sess_sent s' = sess_sent s"

lemma parts_linked_running [simp]:
  "parts_linked env ((s, mx\<lparr>im_running := b\<rparr>), sip) = parts_linked env ((s, mx), sip)"
  by (simp add: parts_linked_def listening_def)

lemma media_loop_ok_running [simp]:
  "media_loop_ok env config sip (s, mx\<lparr>im_running := b\<rparr>) = media_loop_ok env config sip (s, mx)"
  by (simp add: media_loop_ok_def media_ok_def)

lemma deliver_all_outcome:
  assumes "rx_conditions env config" "media_loop_ok env config sip (s, mx)"
  shows "\<exists>s'. deliver_all (RtpEvent env) events (s, mx) = Inr (s', mx)
     \<and> media_loop_ok env config sip (s', mx) \<and> same_calls_sent s s'"
  using assms(2)
proof (induction events arbitrary: s)
  case (Cons e events)
  obtain fd revents where e: "e = (fd, revents)" by (cases e)
  have ok: "parts_linked env ((s, mx), sip)" "media_ok config (s, mx)"
    using Cons.prems by (simp_all add: media_loop_ok_def)
  then have free: "\<not> im_fd_mutex mx" by (simp add: parts_linked_def listening_def)
  obtain s1 where d: "deliver (RtpEvent env) fd revents (s, mx) = Inr (s1, mx)" "media_ok config (s1, mx)"
    using deliver_defined [OF ok(2) free, of env fd revents] assms(1) by (auto simp: rx_conditions_def)
  have "media_loop_ok env config sip (s1, mx)"
    using media_linked [OF media_event [OF d(1)] ok(1)] d(2) by (simp add: media_loop_ok_def)
  from Cons.IH [OF this] obtain s' where s': "deliver_all (RtpEvent env) events (s1, mx) = Inr (s', mx)"
    "media_loop_ok env config sip (s', mx)" "same_calls_sent s1 s'" by blast
  have "same_calls_sent s s1"
    using deliver_same [OF d(1) free] same_contexts_keys deliver_sends_nothing [OF d(1)]
    by (simp add: same_calls_sent_def)
  with s' d(1) show ?case by (simp add: e same_calls_sent_def)
qed (simp add: same_calls_sent_def)

lemma turn_outcome:
  assumes "rx_conditions env config" "media_loop_ok env config sip (s, mx)"
  shows "case turn_body (RtpEvent env) (RtpTimer env now_ns) p (s, mx) of
       Inl f \<Rightarrow> f = UndefinedBehaviour \<and> sess_contexts s \<noteq> []
     | Inr (go_on, (s', mx')) \<Rightarrow> media_loop_ok env config sip (s', mx') \<and> same_calls_sent s s'"
proof (cases "lt_wait p")
  case (WaitEvents events)
  let ?fire = "FireTimers (RtpTimer env now_ns) (lt_fire_now p) (s, mx)"
  have ok: "parts_linked env ((s, mx), sip)" "media_ok config (s, mx)"
    using assms(2) by (simp_all add: media_loop_ok_def)
  note fire = FireTimers_outcome [OF ok(1), of now_ns "lt_fire_now p"]
  show ?thesis
  proof (cases ?fire)
    case (Inl f)
    with fire have "f = UndefinedBehaviour \<and> sess_contexts s \<noteq> []" by (simp split: if_splits)
    with Inl show ?thesis by (simp add: turn_body_def WaitEvents)
  next
    case (Inr io)
    with fire obtain mx1 where io: "io = (s, mx1)" by (simp split: if_splits)
    have "media_loop_ok env config sip (s, mx1)"
      using media_linked [OF media_timer [OF Inr [unfolded io]] ok(1)] ok(2) by (simp add: media_loop_ok_def media_ok_def)
    from deliver_all_outcome [OF assms(1) this, of events] Inr WaitEvents show ?thesis
      by (auto simp: turn_body_def io)
  qed
qed (use assms(2) in \<open>simp add: turn_body_def same_calls_sent_def\<close>)

lemma run_loop_outcome:
  assumes "rx_conditions env config"
  shows "media_loop_ok env config sip (s, mx)
    \<Longrightarrow> case run_loop (RtpEvent env) (RtpTimer env now_ns) 1000 turns (s, mx) of
         Inl f \<Rightarrow> f = UndefinedBehaviour \<and> sess_contexts s \<noteq> []
       | Inr (waits, ended, (s', mx')) \<Rightarrow> media_loop_ok env config sip (s', mx') \<and> same_calls_sent s s'
           \<and> set waits \<subseteq> {1000}"
proof (induction turns arbitrary: s mx)
  case (Cons p ps)
  let ?mx = "if lt_stop p then IoMultiplexer_Stop mx else mx"
  have ok: "media_loop_ok env config sip (s, ?mx)" using Cons.prems by (simp add: IoMultiplexer_Stop_def)
  show ?case
  proof (cases "im_running ?mx")
    case True
    note turn = turn_outcome [OF assms ok, of now_ns p]
    show ?thesis
    proof (cases "turn_body (RtpEvent env) (RtpTimer env now_ns) p (s, ?mx)")
      case (Inl f)
      with turn True show ?thesis by (simp add: Let_def)
    next
      case (Inr r)
      obtain go_on s1 mx1 where r: "r = (go_on, (s1, mx1))" by (metis prod.exhaust)
      with turn Inr have 1: "media_loop_ok env config sip (s1, mx1)" "same_calls_sent s s1" by simp_all
      show ?thesis
      proof (cases go_on)
        case goes: True
        have "sess_contexts s1 \<noteq> [] \<longleftrightarrow> sess_contexts s \<noteq> []"
          using 1(2) unfolding same_calls_sent_def by (metis map_is_Nil_conv)
        with Cons.IH [OF 1(1)] 1(2) True Inr r goes show ?thesis
          by (auto simp: Let_def same_calls_sent_def actual_timeout_def split: sum.splits)
      qed (use 1 True Inr r in \<open>simp add: Let_def actual_timeout_def\<close>)
    qed
  qed (use ok in \<open>simp add: Let_def same_calls_sent_def\<close>)
qed (simp add: same_calls_sent_def)


section \<open>Witnesses\<close>

lemma sample_context_sockets:
  assumes "context_origin (sample_session_env True) config cid ctx"
  shows "0 \<le> RecvFd (cx_audio_rtp ctx)" "0 \<le> RecvFd (cx_video_rtp ctx)"
  using assms
  by (auto simp: context_origin_def same_frame_def RecvFd_def new_context_def Let_def open_rtp_def OpenRecvSocket_def
      OpenSendSocket_def open_socket_def UdpSocket_Create_def UdpSocket_new_def UdpSocket_Bind_def sample_opens_def
      sample_session_env_def sample_context_env_def split: prod.splits)


text \<open>The event of a registered descriptor, in a state with a call.\<close>

theorem media_event_isolation_witness:
  "\<exists>sess mx sip sess' mx'. session_reachable (sample_session_env True) (\<lambda>_. 0) ((sess, mx), sip)
     \<and> find_context ''call'' sess \<noteq> None
     \<and> deliver (RtpEvent (sample_session_env True)) 11 EPOLLIN (sess, mx) = Inr (sess', mx') \<and> mx' = mx"
proof -
  let ?env = "sample_session_env True"
  obtain sess mx m ctx where r: "session_reachable ?env (\<lambda>_. 0) ((sess, mx), m)"
    "find_context ''call'' sess = Some ctx" "sess_config sess = default_server_config" by (rule sample_incoming)
  have "reliable_epoll ?env" by (simp add: reliable_epoll_def sample_session_env_def)
  moreover have "\<exists>sess'. deliver (RtpEvent ?env) 11 EPOLLIN (sess, mx) = Inr (sess', mx)"
    by (rule reachable_deliver [OF r(1)])
      (simp_all add: r(3) sample_session_env_def rx_ok_def default_server_config_def default_media_config_def)
  ultimately show ?thesis using media_event_isolation [OF r(1)] r(1,2) by blast
qed


end
