(* ===== verification/Lock_Order.thy ===== *)
theory Lock_Order
  imports Prelude
begin

text \<open>
  The mutexes of the running server. Its two threads, the signalling thread of \<open>main\<close> and the media
  thread of \<open>SessionManager::RtpEventLoop\<close>, are modelled by what they lock and unlock; the bodies in
  between are the other theories' definitions, which run with these locks held. A mutex is not
  recursive: locking waits until nobody holds it.
\<close>

section \<open>Locks and threads\<close>

text \<open>
  \<open>ctx_mutex_\<close> of the session manager, \<open>fd_mutex_\<close> and \<open>timer_mutex_\<close> of the event loop, and the
  mutex of a jitter buffer.
\<close>

datatype mutex = CtxMutex | FdMutex | TimerMutex | JitterMutex

datatype lock_op = Lock mutex | Unlock mutex

datatype thread = SipThread | MediaThread

record lock_state =
  ls_owner :: "mutex \<Rightarrow> thread option"
  ls_todo :: "thread \<Rightarrow> lock_op list"

inductive lock_step :: "(thread \<Rightarrow> lock_op list set) \<Rightarrow> lock_state \<Rightarrow> lock_state \<Rightarrow> bool"
  for routines :: "thread \<Rightarrow> lock_op list set" where
  start: "ls_todo s t = [] \<Longrightarrow> r \<in> routines t
    \<Longrightarrow> lock_step routines s (s\<lparr>ls_todo := (ls_todo s)(t := r)\<rparr>)"
| acquire: "ls_todo s t = Lock m # r \<Longrightarrow> ls_owner s m = None
    \<Longrightarrow> lock_step routines s \<lparr>ls_owner = (ls_owner s)(m \<mapsto> t), ls_todo = (ls_todo s)(t := r)\<rparr>"
| release: "ls_todo s t = Unlock m # r \<Longrightarrow> ls_owner s m = Some t
    \<Longrightarrow> lock_step routines s \<lparr>ls_owner = (ls_owner s)(m := None), ls_todo = (ls_todo s)(t := r)\<rparr>"

definition all_idle :: lock_state where
  "all_idle = \<lparr>ls_owner = (\<lambda>_. None), ls_todo = (\<lambda>_. [])\<rparr>"

inductive lock_reachable :: "(thread \<Rightarrow> lock_op list set) \<Rightarrow> lock_state \<Rightarrow> bool"
  for routines :: "thread \<Rightarrow> lock_op list set" where
  idle: "lock_reachable routines all_idle"
| locked: "lock_reachable routines s \<Longrightarrow> lock_step routines s s' \<Longrightarrow> lock_reachable routines s'"

text \<open>A thread that has begun a routine waits for a mutex somebody holds.\<close>

definition waits :: "lock_state \<Rightarrow> thread \<Rightarrow> bool" where
  "waits s t \<longleftrightarrow> (case ls_todo s t of Lock m # r \<Rightarrow> ls_owner s m \<noteq> None | _ \<Rightarrow> False)"

section \<open>The routines of the server\<close>

text \<open>An event in \<open>IoMultiplexer::Run\<close> runs its closure under \<open>fd_mutex_\<close>; the closure locks the contexts.\<close>

definition receive_locks :: "lock_op list" where
  "receive_locks = [Lock FdMutex, Lock CtxMutex, Lock JitterMutex, Unlock JitterMutex,
     Lock JitterMutex, Unlock JitterMutex, Unlock CtxMutex, Unlock FdMutex]"

definition rtcp_locks :: "lock_op list" where
  "rtcp_locks = [Lock TimerMutex, Lock CtxMutex, Unlock CtxMutex, Unlock TimerMutex]"

text \<open>A call that connects or ends locks the contexts, and for each of its two descriptors the event loop.\<close>

definition context_locks :: "lock_op list" where
  "context_locks = [Lock CtxMutex, Lock FdMutex, Unlock FdMutex, Lock FdMutex, Unlock FdMutex,
     Unlock CtxMutex]"

text \<open>Sending a frame and asking for a call's information lock the contexts only.\<close>

definition send_locks :: "lock_op list" where
  "send_locks = [Lock CtxMutex, Unlock CtxMutex]"

fun server_routines :: "thread \<Rightarrow> lock_op list set" where
  "server_routines SipThread = {context_locks, send_locks}"
| "server_routines MediaThread = {receive_locks, rtcp_locks}"

text \<open>The same while no call connects or ends.\<close>

fun steady_routines :: "thread \<Rightarrow> lock_op list set" where
  "steady_routines SipThread = {send_locks}"
| "steady_routines MediaThread = {receive_locks, rtcp_locks}"

section \<open>An order of the mutexes excludes a deadlock\<close>

text \<open>The order in which the media thread takes the mutexes.\<close>

fun mutex_rank :: "mutex \<Rightarrow> nat" where
  "mutex_rank FdMutex = 0"
| "mutex_rank TimerMutex = 1"
| "mutex_rank CtxMutex = 2"
| "mutex_rank JitterMutex = 3"

lemma mutex_rank_inject: "mutex_rank a = mutex_rank b \<longleftrightarrow> a = b"
  by (cases a; cases b) simp_all

instantiation mutex :: linorder
begin

definition less_eq_mutex :: "mutex \<Rightarrow> mutex \<Rightarrow> bool" where
  "less_eq_mutex a b \<longleftrightarrow> mutex_rank a \<le> mutex_rank b"

definition less_mutex :: "mutex \<Rightarrow> mutex \<Rightarrow> bool" where
  "less_mutex a b \<longleftrightarrow> mutex_rank a < mutex_rank b"

instance
  by standard (auto simp: less_eq_mutex_def less_mutex_def mutex_rank_inject)

end

text \<open>
  A routine is ordered when every mutex it locks comes after all it holds, it unlocks only what it
  holds, and it holds nothing in the end.
\<close>

fun ordered :: "mutex set \<Rightarrow> lock_op list \<Rightarrow> bool" where
  "ordered held [] \<longleftrightarrow> held = {}"
| "ordered held (Lock m # r) \<longleftrightarrow> (\<forall>h \<in> held. h < m) \<and> ordered (insert m held) r"
| "ordered held (Unlock m # r) \<longleftrightarrow> m \<in> held \<and> ordered (held - {m}) r"

definition held :: "lock_state \<Rightarrow> thread \<Rightarrow> mutex set" where
  "held s t = {m. ls_owner s m = Some t}"

lemma held_acquire:
  "ls_owner s m = None \<Longrightarrow>
   held \<lparr>ls_owner = (ls_owner s)(m \<mapsto> t), ls_todo = td\<rparr> u = (if u = t then insert m (held s t) else held s u)"
  by (auto simp: held_def)

lemma held_release:
  "ls_owner s m = Some t \<Longrightarrow>
   held \<lparr>ls_owner = (ls_owner s)(m := None), ls_todo = td\<rparr> u = (if u = t then held s t - {m} else held s u)"
  by (auto simp: held_def split: if_splits)

lemma held_todo [simp]: "held (s\<lparr>ls_todo := td\<rparr>) u = held s u"
  by (simp add: held_def)

lemma ordered_step:
  assumes "lock_step routines s s'" "\<forall>t. \<forall>r \<in> routines t. ordered {} r"
    "\<forall>t. ordered (held s t) (ls_todo s t)"
  shows "\<forall>t. ordered (held s' t) (ls_todo s' t)"
  using assms(1)
proof (cases rule: lock_step.cases)
  case (start t r)
  then have "held s t = {}" using spec [OF assms(3), of t] by simp
  with start assms(2,3) show ?thesis by auto
next
  case (acquire t m r)
  then show ?thesis using assms(3) spec [OF assms(3), of t] by (simp add: held_acquire)
next
  case (release t m r)
  then show ?thesis using assms(3) spec [OF assms(3), of t] by (simp add: held_release)
qed

lemma ordered_reachable:
  assumes "lock_reachable routines s" "\<forall>t. \<forall>r \<in> routines t. ordered {} r"
  shows "\<forall>t. ordered (held s t) (ls_todo s t)"
  using assms
proof (induction rule: lock_reachable.induct)
  case idle
  then show ?case by (simp add: all_idle_def held_def)
qed (rule ordered_step)

text \<open>With two threads: the one that waits for the higher mutex would wait for a lower one.\<close>

lemma ordered_progress:
  assumes "\<forall>t. ordered (held s t) (ls_todo s t)" "ls_todo s t \<noteq> []"
  shows "\<exists>u s'. ls_todo s u \<noteq> [] \<and> \<not> waits s u \<and> lock_step routines s s'
    \<and> length (ls_todo s' u) < length (ls_todo s u)"
proof -
  have moves: "\<exists>s'. lock_step routines s s' \<and> length (ls_todo s' u) < length (ls_todo s u)"
    if "ls_todo s u \<noteq> []" "\<not> waits s u" for u
  proof (cases "ls_todo s u")
    case (Cons x r)
    show ?thesis
    proof (cases x)
      case (Lock m)
      then have "ls_owner s m = None" using that Cons by (auto simp: waits_def)
      from lock_step.acquire [OF _ this] Cons Lock show ?thesis by fastforce
    next
      case (Unlock m)
      then have "ls_owner s m = Some u" using spec [OF assms(1), of u] Cons by (simp add: held_def)
      from lock_step.release [OF _ this] Cons Unlock show ?thesis by fastforce
    qed
  qed (use that in simp)
  have awaited: "\<exists>m v. ls_todo s u \<noteq> [] \<and> hd (ls_todo s u) = Lock m \<and> ls_owner s m = Some v \<and> u \<noteq> v
      \<and> (\<forall>h \<in> held s u. h < m)" if "waits s u" for u
  proof -
    from that obtain m r where m: "ls_todo s u = Lock m # r" "ls_owner s m \<noteq> None"
      by (auto simp: waits_def split: list.splits lock_op.splits)
    then obtain v where v: "ls_owner s m = Some v" by blast
    have above: "\<forall>h \<in> held s u. h < m" using spec [OF assms(1), of u] m by simp
    then have "u \<noteq> v" using v by (auto simp: held_def)
    with m v above show ?thesis by auto
  qed
  show ?thesis
  proof (cases "waits s t")
    case False
    with moves [OF assms(2)] assms(2) show ?thesis by blast
  next
    case True
    then obtain m v where m: "ls_owner s m = Some v" "t \<noteq> v" "\<forall>h \<in> held s t. h < m"
      using awaited by blast
    have busy: "ls_todo s v \<noteq> []"
    proof
      assume "ls_todo s v = []"
      then have "held s v = {}" using spec [OF assms(1), of v] by simp
      then show False using m(1) by (auto simp: held_def)
    qed
    have "\<not> waits s v"
    proof
      assume "waits s v"
      then obtain k w where k: "ls_owner s k = Some w" "v \<noteq> w" "\<forall>h \<in> held s v. h < k"
        using awaited by blast
      have "w = t" using m(2) k(2) by (cases w; cases v; cases t) auto
      then have "k < m" using m(3) k(1) by (simp add: held_def)
      moreover have "m < k" using k(3) m(1) by (simp add: held_def)
      ultimately show False by (rule less_asym)
    qed
    with moves [OF busy] busy show ?thesis by blast
  qed
qed

section \<open>Properties\<close>



text \<open>
  Property C25. A call that connects, or ends, while media arrive can stop the whole server. The
  media thread holds the event loop's descriptor mutex while its callback waits for the contexts; the
  signalling thread holds the contexts while it waits to register or remove a descriptor. Such a state
  can be reached, both threads wait in it, and no step leads out of it.
\<close>

theorem signalling_media_deadlock:
  "\<exists>s. lock_reachable server_routines s \<and> waits s SipThread \<and> waits s MediaThread
     \<and> ls_todo s SipThread = tl context_locks \<and> ls_todo s MediaThread = tl receive_locks
     \<and> (\<forall>s'. \<not> lock_step server_routines s s')"
proof -
  let ?s1 = "all_idle\<lparr>ls_todo := (ls_todo all_idle)(SipThread := context_locks)\<rparr>"
  let ?s2 = "?s1\<lparr>ls_todo := (ls_todo ?s1)(MediaThread := receive_locks)\<rparr>"
  let ?s3 = "\<lparr>ls_owner = (ls_owner ?s2)(CtxMutex \<mapsto> SipThread), ls_todo = (ls_todo ?s2)(SipThread := tl context_locks)\<rparr>"
  let ?s4 = "\<lparr>ls_owner = (ls_owner ?s3)(FdMutex \<mapsto> MediaThread), ls_todo = (ls_todo ?s3)(MediaThread := tl receive_locks)\<rparr>"
  have 1: "lock_reachable server_routines ?s1"
    by (rule locked [OF idle start]) (simp_all add: all_idle_def)
  have 2: "lock_reachable server_routines ?s2"
    by (rule locked [OF 1 start]) (simp_all add: all_idle_def)
  have 3: "lock_reachable server_routines ?s3"
    by (rule locked [OF 2 acquire]) (simp_all add: all_idle_def context_locks_def)
  have 4: "lock_reachable server_routines ?s4"
    by (rule locked [OF 3 acquire]) (simp_all add: all_idle_def receive_locks_def)
  have w: "waits ?s4 SipThread" "waits ?s4 MediaThread"
    by (simp_all add: waits_def all_idle_def context_locks_def receive_locks_def)
  have stuck: "\<not> lock_step server_routines ?s4 s'" for s'
  proof
    assume "lock_step server_routines ?s4 s'"
    then show False
    proof (cases rule: lock_step.cases)
      case (start t r)
      then show False by (cases t) (simp_all add: context_locks_def receive_locks_def)
    next
      case (acquire t m r)
      then show False by (cases t) (auto simp: context_locks_def receive_locks_def)
    next
      case (release t m r)
      then show False by (cases t) (simp_all add: context_locks_def receive_locks_def)
    qed
  qed
  show ?thesis by (rule exI [of _ ?s4]) (use 4 w stuck in simp)
qed

end
