(* ===== verification/Server_Main.thy ===== *)
theory Server_Main
  imports Session_Invariants Config H264_Fragmenter
begin

text \<open>
  The server program (\<open>main.cpp\<close>): the command line, the two self-tests, the start-up with its failure
  exits, and the signalling loop, which reads SIP messages from a socket, answers invitations and
  hang-ups with text it searches for in the message, and runs the SIP timers. Output to the log and the
  signal handler's flag, which ends the loop, are not state here: a run is given by its list of turns.
\<close>

section \<open>Command line and self-tests\<close>

text \<open>\<open>None\<close> is the help text, after which the program ends.\<close>

fun server_arguments :: "string list \<Rightarrow> string \<Rightarrow> string option" where
  "server_arguments [] path = Some path"
| "server_arguments (arg # rest) path =
     (if arg = ''-h'' \<or> arg = ''--help'' then None
      else if arg = ''-c''
      then (case rest of [] \<Rightarrow> Some path | value # rest' \<Rightarrow> server_arguments rest' value)
      else server_arguments rest path)"

definition TestRtpPacket :: bool where
  "TestRtpPacket =
     (let packet = RtpPacket_Build kAAC 12345 67890 0xABCD1234 True [0, 1, 2, 3];
          (len, buffer) = RtpPacket_Serialize packet (replicate 1500 0)
      in case RtpPacket_Parse (take len buffer) of
           None \<Rightarrow> False
         | Some parsed \<Rightarrow>
             Sequence parsed = 12345 \<and> Timestamp parsed = 67890 \<and> Ssrc parsed = 0xABCD1234
             \<and> length (pkt_payload parsed) = 4)"

definition self_test_nal :: bytes where
  "self_test_nal = 0x65 # map of_nat [1..<2000]"

definition TestH264Fragmenter :: bool where
  "TestH264Fragmenter =
     (case H264Fragmenter_Fragment self_test_nal 1200 of
        None \<Rightarrow> False
      | Some fragments \<Rightarrow>
          (case H264Fragmenter_Defragment fragments of
             None \<Rightarrow> False
           | Some rebuilt \<Rightarrow> length rebuilt = length self_test_nal \<and> rebuilt ! 0 = 0x65))"

section \<open>Reading a message as text\<close>

text \<open>\<open>std::string::find\<close> from the position the text starts at.\<close>

fun find_at :: "nat \<Rightarrow> string \<Rightarrow> string \<Rightarrow> nat option" where
  "find_at i needle [] = (if needle = [] then Some i else None)"
| "find_at i needle (c # cs) =
     (if take (length needle) (c # cs) = needle then Some i else find_at (Suc i) needle cs)"

definition std_find :: "string \<Rightarrow> string \<Rightarrow> nat option" where
  "std_find needle msg = find_at 0 needle msg"

text \<open>The Call-ID as the loop extracts it, up to the line's end and the host part; empty if there is none.\<close>

definition message_call_id :: "string \<Rightarrow> string" where
  "message_call_id msg =
     (case std_find ''Call-ID: '' msg of
        None \<Rightarrow> []
      | Some p \<Rightarrow>
          let field = (case find_at p [CR] (drop p msg) of
                         None \<Rightarrow> drop (p + 9) msg
                       | Some e \<Rightarrow> take (e - p - 9) (drop (p + 9) msg))
          in takeWhile (\<lambda>c. c \<noteq> CHR ''@'') field)"

definition message_body :: "string \<Rightarrow> string option" where
  "message_body msg =
     (case std_find (crlf @ crlf) msg of
        None \<Rightarrow> None
      | Some p \<Rightarrow> if p + 4 < length msg then Some (drop (p + 4) msg) else None)"

section \<open>The signalling loop\<close>

text \<open>A reply to the source of a message; the result of \<open>sendto\<close> is not looked at.\<close>

definition server_reply ::
  "session_env \<Rightarrow> udp_socket \<Rightarrow> string \<Rightarrow> u16 \<Rightarrow> int \<Rightarrow> string \<Rightarrow> datagram_out" where
  "server_reply env sck addr port ret text =
     snd (UdpSocket_SendTo (se_inet_addr env) ret sck (map of_char text) addr port)"

text \<open>The reply to an invitation, with the offer in it; \<open>None\<close> is a read of a port that was never set.\<close>

definition answer_invite ::
  "session_env \<Rightarrow> udp_socket \<Rightarrow> string \<Rightarrow> u16 \<Rightarrow> int \<Rightarrow> string \<Rightarrow> sip_manager
   \<Rightarrow> (datagram_out list \<times> sip_manager) option" where
  "answer_invite env sck addr port ret msg sip =
     (let cid = message_call_id msg;
          sip1 = (case message_body msg of
                    None \<Rightarrow> sip
                  | Some body \<Rightarrow> if cid \<noteq> [] then snd (ProcessIncomingSdp cid body sip) else sip);
          (ringing, sip2) = BuildInviteResponse 180 ''Ringing'' [] sip1
      in do {
        sdp_answer \<leftarrow> BuildSdpAnswer cid sip2;
        let (ok, sip3) = BuildInviteResponse 200 ''OK'' sdp_answer sip2;
        Some ([server_reply env sck addr port ret ringing, server_reply env sck addr port ret ok], sip3)
      })"

definition answer_bye ::
  "session_env \<Rightarrow> udp_socket \<Rightarrow> string \<Rightarrow> u16 \<Rightarrow> int \<Rightarrow> sip_manager \<Rightarrow> datagram_out list \<times> sip_manager" where
  "answer_bye env sck addr port ret sip =
     (let (ok, sip1) = BuildResponse 200 ''OK'' [] sip in ([server_reply env sck addr port ret ok], sip1))"

definition server_message ::
  "(string \<Rightarrow> osip_message option) \<Rightarrow> session_env \<Rightarrow> udp_socket \<Rightarrow> time_ns \<times> time_ns \<Rightarrow> int \<Rightarrow> string \<Rightarrow> u16
   \<Rightarrow> string \<Rightarrow> session_state \<Rightarrow> (datagram_out list \<times> session_state) option" where
  "server_message parse env sck now ret addr port msg s =
     (case ProcessIncomingMessage parse (SipEvent env) now msg s of
        (io, sip) \<Rightarrow>
          do {
            (out1, sip1) \<leftarrow> (if std_find ''INVITE'' msg \<noteq> None
                             then answer_invite env sck addr port ret msg sip else Some ([], sip));
            let (out2, sip2) = (if std_find ''BYE'' msg \<noteq> None
                                then answer_bye env sck addr port ret sip1 else ([], sip1));
            Some (out1 @ out2, (io, sip2))
          })"

text \<open>
  One turn of the loop: what \<open>recvfrom\<close> answers, the clock readings of the message and of the timers
  with the order of the calls, and the answer of \<open>sendto\<close>.
\<close>

record server_turn =
  st_recv :: recv_outcome
  st_now :: "time_ns \<times> time_ns"
  st_sendto :: int
  st_clock :: "string \<Rightarrow> time_ns \<times> time_ns \<times> time_ns"
  st_calls :: "string list"

definition server_step ::
  "(string \<Rightarrow> osip_message option) \<Rightarrow> session_env \<Rightarrow> udp_socket \<Rightarrow> server_turn \<Rightarrow> session_state
   \<Rightarrow> (datagram_out list \<times> session_state) option" where
  "server_step parse env sck turn s =
     (case UdpSocket_RecvFrom (se_inet_ntop env) (st_recv turn) 65535 [] 0 of
        (n, buf, addr, port) \<Rightarrow>
          do {
            (out, s1) \<leftarrow> (if n > 0
                          then server_message parse env sck (st_now turn) (st_sendto turn) addr port
                                 (map (\<lambda>b. char_of (unat b)) buf) s
                          else Some ([], s));
            Some (out, ProcessTimers (SipEvent env) (st_clock turn) (st_calls turn) s1)
          })"

fun server_loop ::
  "(string \<Rightarrow> osip_message option) \<Rightarrow> session_env \<Rightarrow> udp_socket \<Rightarrow> server_turn list \<Rightarrow> session_state
   \<Rightarrow> (datagram_out list \<times> session_state) option" where
  "server_loop parse env sck [] s = Some ([], s)"
| "server_loop parse env sck (t # ts) s =
     do {
       (out, s1) \<leftarrow> server_step parse env sck t s;
       (outs, s2) \<leftarrow> server_loop parse env sck ts s1;
       Some (out @ outs, s2)
     }"

section \<open>Start and exit\<close>

text \<open>What the start-up meets: the files, the SIP socket, \<open>epoll\<close>, osip, the random engine.\<close>

record server_env =
  sv_session :: session_env
  sv_parse :: "string \<Rightarrow> osip_message option"
  sv_file :: "string \<Rightarrow> string option"
  sv_socket :: open_results
  sv_epoll :: int
  sv_osip :: bool
  sv_random :: "nat \<Rightarrow> nat"

text \<open>How the program ends: a status, an exception nobody catches, or undefined behaviour.\<close>

datatype server_exit = Exit int "datagram_out list" "session_state option" | Uncaught | Undefined

definition server_config_of :: "server_env \<Rightarrow> string \<Rightarrow> stoi_error + server_config" where
  "server_config_of env path = (if path = [] then Inr LoadDefault else LoadFromFile (sv_file env path))"

definition sip_socket :: "server_env \<Rightarrow> server_config \<Rightarrow> bool \<times> udp_socket" where
  "sip_socket env config =
     UdpSocket_Bind (se_inet_addr (sv_session env)) (or_bind (sv_socket env))
       (sc_local_port (cfg_sip config)) ''0.0.0.0''
       (snd (UdpSocket_Create (or_socket (sv_socket env)) UdpSocket_new))"

definition server_main :: "server_env \<Rightarrow> string list \<Rightarrow> server_turn list \<Rightarrow> server_exit" where
  "server_main env args turns =
     (case server_arguments args [] of
        None \<Rightarrow> Exit 0 [] None
      | Some path \<Rightarrow>
        (case server_config_of env path of
           Inl e \<Rightarrow> Uncaught
         | Inr config \<Rightarrow>
           (case sip_socket env config of
              (False, sck) \<Rightarrow> Exit 1 [] None
            | (True, sck) \<Rightarrow>
              (case IoMultiplexer_new (sv_epoll env) 1024 of
                 None \<Rightarrow> Uncaught
               | Some mx \<Rightarrow>
                 (case SessionManager_Start (sv_osip env)
                         ((SetRtpPacketCallback (SetSipEventCallback (SessionManager_new config)), mx),
                          SipManager_new (sv_random env)) of
                    None \<Rightarrow> Uncaught
                  | Some (False, s) \<Rightarrow> Exit 1 [] (Some s)
                  | Some (True, s) \<Rightarrow>
                    (case server_loop (sv_parse env) (sv_session env) sck turns
                            (snd (Register (SipEvent (sv_session env)) s)) of
                       None \<Rightarrow> Undefined
                     | Some (out, s') \<Rightarrow>
                         Exit 0 out (Some (SessionManager_Stop (sv_session env) s'))))))))"

section \<open>The self-tests\<close>

text \<open>
  Both self-tests that the server runs at start-up succeed.
\<close>

theorem self_tests_pass: "TestRtpPacket \<and> TestH264Fragmenter"
proof
  let ?p = "RtpPacket_Build kAAC 12345 67890 0xABCD1234 True [0, 1, 2, 3]"
  have bytes: "fst (RtpPacket_Serialize ?p (replicate 1500 0)) = 16
    \<and> take 16 (snd (RtpPacket_Serialize ?p (replicate 1500 0))) = header_bytes (pkt_header ?p) @ [0, 1, 2, 3]"
    by (simp add: RtpPacket_Serialize_def TotalSize_def kRtpHeaderSize_def)
  have "RtpPacket_Parse (header_bytes (pkt_header ?p) @ [0, 1, 2, 3])
      = Some \<lparr>pkt_header = pkt_header ?p, pkt_payload = [0, 1, 2, 3]\<rparr>"
    by (rule RtpPacket_Parse_plain [OF plain_header_Build])
  moreover have "\<lparr>pkt_header = pkt_header ?p, pkt_payload = [0, 1, 2, 3]\<rparr> = ?p"
    by (simp add: RtpPacket_Build_def)
  ultimately show TestRtpPacket
    using bytes by (simp add: TestRtpPacket_def Let_def case_prod_unfold)
  have len: "length self_test_nal = 2000" by (simp add: self_test_nal_def)
  obtain fs where fs: "H264Fragmenter_Fragment self_test_nal 1200 = Some fs"
    using Fragment_fragmented [of 1200 self_test_nal] len by simp
  have "H264Fragmenter_Defragment fs = Some self_test_nal"
    by (rule Fragment_reassembles [OF _ _ fs]) (simp_all add: len)
  moreover have "self_test_nal ! 0 = 0x65" by (simp add: self_test_nal_def)
  ultimately show TestH264Fragmenter by (simp add: TestH264Fragmenter_def fs)
qed

section \<open>The loop and the reachable states\<close>

lemma ProcessIncomingSdp_reachable:
  "session_reachable env now_ns (io, m)
    \<Longrightarrow> session_reachable env now_ns (io, snd (ProcessIncomingSdp cid body m))"
  using session_stepped step_sdp by (metis prod.collapse)

lemma answer_invite_reachable:
  assumes "answer_invite env sck addr port ret msg m = Some (out, m')" "session_reachable env now_ns (io, m)"
  shows "session_reachable env now_ns (io, m')"
proof -
  let ?m1 = "case message_body msg of None \<Rightarrow> m
    | Some body \<Rightarrow> if message_call_id msg \<noteq> [] then snd (ProcessIncomingSdp (message_call_id msg) body m) else m"
  obtain r m2 where r: "BuildInviteResponse 180 ''Ringing'' [] ?m1 = (r, m2)" by (rule prod.exhaust)
  obtain a where a: "BuildSdpAnswer (message_call_id msg) m2 = Some a"
    using assms(1) r by (auto simp: answer_invite_def Let_def bind_eq_Some_conv)
  obtain k m3 where k: "BuildInviteResponse 200 ''OK'' a m2 = (k, m3)" by (rule prod.exhaust)
  have m': "m' = m3" using assms(1) r a k by (simp add: answer_invite_def Let_def)
  have "session_reachable env now_ns (io, ?m1)"
    using assms(2) ProcessIncomingSdp_reachable by (simp split: option.split)
  from session_stepped [OF this step_invite_response [OF r]]
  show ?thesis unfolding m' by (rule session_stepped [OF _ step_invite_response [OF k]])
qed

lemma server_message_reachable:
  assumes "server_message parse env sck now ret addr port msg s = Some (out, s')"
    "session_reachable env now_ns s"
  shows "session_reachable env now_ns s'"
proof -
  obtain io m where p: "ProcessIncomingMessage parse (SipEvent env) now msg s = (io, m)" by (rule prod.exhaust)
  have 1: "session_reachable env now_ns (io, m)" by (rule session_stepped [OF assms(2) step_message [OF p]])
  obtain out1 m1 where i: "(if std_find ''INVITE'' msg \<noteq> None
      then answer_invite env sck addr port ret msg m else Some ([], m)) = Some (out1, m1)"
    using assms(1) p by (auto simp: server_message_def bind_eq_Some_conv)
  have 2: "session_reachable env now_ns (io, m1)"
    using i 1 answer_invite_reachable by (auto split: if_splits)
  obtain r m2 where r: "BuildResponse 200 ''OK'' [] m1 = (r, m2)" by (rule prod.exhaust)
  have "s' = (io, m1) \<or> s' = (io, m2)"
    using assms(1) p i r by (auto simp: server_message_def answer_bye_def Let_def split: if_splits)
  then show ?thesis using 2 session_stepped [OF 2 step_response [OF r]] by blast
qed

lemma server_step_reachable:
  assumes "server_step parse env sck turn s = Some (out, s')" "session_reachable env now_ns s"
  shows "session_reachable env now_ns s'"
proof -
  obtain n buf addr port where r: "UdpSocket_RecvFrom (se_inet_ntop env) (st_recv turn) 65535 [] 0 = (n, buf, addr, port)"
    by (metis prod.exhaust)
  obtain s1 where s1: "s' = ProcessTimers (SipEvent env) (st_clock turn) (st_calls turn) s1"
    "(if n > 0 then server_message parse env sck (st_now turn) (st_sendto turn) addr port
        (map (\<lambda>b. char_of (unat b)) buf) s else Some ([], s)) = Some (out, s1)"
    using assms(1) r by (auto simp: server_step_def bind_eq_Some_conv)
  have "session_reachable env now_ns s1"
    using s1(2) assms(2) server_message_reachable by (auto split: if_splits)
  then show ?thesis unfolding s1(1) by (rule session_stepped [OF _ step_timers]) (rule refl)
qed

lemma server_loop_reachable:
  "server_loop parse env sck turns s = Some (out, s') \<Longrightarrow> session_reachable env now_ns s
    \<Longrightarrow> session_reachable env now_ns s'"
proof (induction turns arbitrary: s out)
  case (Cons t ts)
  then obtain o1 s1 o2 where "server_step parse env sck t s = Some (o1, s1)"
    "server_loop parse env sck ts s1 = Some (o2, s')" by (auto simp: bind_eq_Some_conv)
  with Cons server_step_reachable show ?case by blast
qed simp

lemma start_reachable:
  assumes "IoMultiplexer_new epfd 1024 = Some mx"
    "SessionManager_Start osip ((SetRtpPacketCallback (SetSipEventCallback (SessionManager_new config)), mx),
       SipManager_new rng) = Some (True, s)"
  shows "session_reachable env now_ns s"
proof -
  obtain m where i: "Initialize osip (cfg_sip config) (SipManager_new rng) = (True, m)"
    and s: "s = (((SetRtpPacketCallback (SetSipEventCallback (SessionManager_new config)))
       \<lparr>sess_event_target := SessionTarget, sess_thread_pool := Some (unat (cfg_worker_threads config)),
        sess_rtp_running := True, sess_rtp_thread := True\<rparr>, mx), m)"
    using assms(2) by (auto simp: SessionManager_Start_def SetRtpPacketCallback_def SetSipEventCallback_def
        SessionManager_new_def split: prod.splits bool.splits)
  have osip using i by (cases osip) (simp_all add: Initialize_def Let_def)
  let ?s = "(SessionManager_new config)\<lparr>sess_event_target := SessionTarget,
    sess_thread_pool := Some (unat (cfg_worker_threads config)), sess_rtp_running := True, sess_rtp_thread := True\<rparr>"
  have "SessionManager_Start True ((SessionManager_new config, mx), SipManager_new rng)
      = Some (True, ((?s, mx), m))"
    using i \<open>osip\<close> by (simp add: SessionManager_Start_def SessionManager_new_def)
  note r = session_started [OF assms(1) this, of env now_ns]
  have "s = ((SetRtpPacketCallback ?s, mx), m)"
    by (simp add: s SetRtpPacketCallback_def SetSipEventCallback_def SessionManager_new_def)
  then show ?thesis using session_stepped [OF r step_packet_callback] by simp
qed

section \<open>Properties\<close>

text \<open>
  Every run of the server keeps signalling and media in step: from a successful start, with
  its own SIP callback installed first as the program does, and after any number of turns of the loop on
  any messages, the calls that have a media context are exactly those that are connected or being hung
  up, the contexts have different identifiers, no event has blocked, and no mutex of the event loop is
  held.
\<close>

theorem server_run_contexts:
  assumes "IoMultiplexer_new epfd 1024 = Some mx"
    "SessionManager_Start osip ((SetRtpPacketCallback (SetSipEventCallback (SessionManager_new config)), mx),
       SipManager_new rng) = Some (True, s)"
    "server_loop parse env sck turns (snd (Register (SipEvent env) s)) = Some (out, ((sess, mx'), sip))"
  shows "{cid. find_context cid sess \<noteq> None} =
           {cid. \<exists>c. sm_calls sip cid = Some c \<and> call_state c \<in> {kConnected, kDisconnecting}}
         \<and> distinct (map fst (sess_contexts sess)) \<and> sess_blocked sess = None
         \<and> \<not> im_fd_mutex mx' \<and> \<not> im_timer_mutex mx'"
proof -
  have "session_reachable env (\<lambda>_. 0) (snd (Register (SipEvent env) s))"
    by (rule session_stepped [OF start_reachable [OF assms(1,2)] step_register]) (rule prod.collapse [symmetric])
  from server_loop_reachable [OF assms(3) this] show ?thesis
    by (rule session_ok_contexts [OF session_reachable_ok])
qed

lemma show_status: "show_int 180 = ''180''" "show_int 200 = ''200''"
  by (simp_all add: show_int_def show_nat.simps)

text \<open>The two replies to an invitation, with the response texts in them.\<close>

lemma invite_response_text:
  assumes "BuildInviteResponse status reason sdp m = (msg, m')"
  shows "\<exists>mid. msg = ''SIP/2.0 '' @ show_int status @ '' '' @ reason @ crlf @ mid @ sdp"
  using assms
proof (rule BuildInviteResponse_stages)
  fix a c d :: string
  assume "msg = ''SIP/2.0 '' @ show_int status @ '' '' @ reason @ crlf
          @ via_line m' @ (if sm_last_via_branch m' \<noteq> [] then '';branch='' @ sm_last_via_branch m' else []) @ crlf
          @ ''From: <sip:remote@'' @ sc_domain (sm_config m') @ ''>''
          @ (if sm_last_from_tag m' \<noteq> [] then '';tag='' @ sm_last_from_tag m' else []) @ crlf
          @ ''To: <'' @ own_uri m @ ''>'' @ a @ crlf
          @ ''Call-ID: '' @ c @ crlf
          @ ''CSeq: '' @ d @ crlf
          @ ''Contact: <'' @ own_uri m @ ''>'' @ crlf
          @ (if sdp \<noteq> []
             then ''Content-Type: application/sdp'' @ crlf
                  @ ''Content-Length: '' @ show_nat (length sdp) @ crlf @ crlf @ sdp
             else ''Content-Length: 0'' @ crlf @ crlf)"
  then show ?thesis
    by (cases "sdp = []") auto
qed

lemma sdp_keeps_call:
  assumes "sm_calls m cid = Some c" "ProcessIncomingSdp cid body m = (ok, m')"
  shows "\<exists>c'. sm_calls m' cid = Some c' \<and> call_state c' = call_state c
     \<and> ci_audio_local_port (call_session_info c') = ci_audio_local_port (call_session_info c)
     \<and> ci_video_local_port (call_session_info c') = ci_video_local_port (call_session_info c)
     \<and> sm_config m' = sm_config m"
  using assms
  by (auto simp: ProcessIncomingSdp_def sdp_to_info_def put_call_def Let_def
      split: prod.splits bool.splits option.splits)

text \<open>The SIP manager after the offer in the message's body, if it has one, is stored in the call.\<close>

definition offer_stored :: "string \<Rightarrow> string \<Rightarrow> sip_manager \<Rightarrow> sip_manager" where
  "offer_stored cid msg m =
     (case message_body msg of None \<Rightarrow> m
      | Some body \<Rightarrow> if cid \<noteq> [] then snd (ProcessIncomingSdp cid body m) else m)"

lemma offer_stored_keeps:
  assumes "sm_calls m cid = Some c"
  obtains c' where "sm_calls (offer_stored cid msg m) cid = Some c'" "call_state c' = call_state c"
    "ci_audio_local_port (call_session_info c') = ci_audio_local_port (call_session_info c)"
    "ci_video_local_port (call_session_info c') = ci_video_local_port (call_session_info c)"
    "sm_config (offer_stored cid msg m) = sm_config m"
proof (cases "message_body msg = None \<or> cid = []")
  case True
  then have "offer_stored cid msg m = m" by (auto simp: offer_stored_def split: option.splits)
  with that assms show thesis by simp
next
  case False
  then obtain body where "offer_stored cid msg m = snd (ProcessIncomingSdp cid body m)"
    by (auto simp: offer_stored_def)
  with that sdp_keeps_call [OF assms] show thesis by (metis prod.collapse)
qed


text \<open>The reply to a BYE: its identifier and its sequence number are new, and it claims to answer an INVITE.\<close>

lemma response_text:
  assumes "BuildResponse 200 ''OK'' [] m = (text, m')"
  shows "\<exists>pre n rest. text = ''SIP/2.0 200 OK'' @ crlf @ pre @ ''CSeq: '' @ show_u32 n @ '' INVITE'' @ crlf @ rest"
proof -
  have exists: "\<exists>pre n rest. ''SIP/2.0 200 OK'' @ crlf @ a @ ''CSeq: '' @ show_u32 k @ '' INVITE'' @ crlf @ b
      = ''SIP/2.0 200 OK'' @ crlf @ pre @ ''CSeq: '' @ show_u32 n @ '' INVITE'' @ crlf @ rest" for a k b by blast
  have eq: "text = fst (BuildResponse 200 ''OK'' [] m)" using assms by simp
  obtain br m1 where 1: "GenerateBranchId m = (br, m1)" by (rule prod.exhaust)
  obtain from_tag m2 where 2: "GenerateTag m1 = (from_tag, m2)" by (rule prod.exhaust)
  obtain tag m3 where 3: "GenerateTag m2 = (tag, m3)" by (rule prod.exhaust)
  obtain id m4 where 4: "RandomHex 16 m3 = (id, m4)" by (rule prod.exhaust)
  obtain k m5 where 5: "GenerateCSeq m4 = (k, m5)" by (rule prod.exhaust)
  have "text = ''SIP/2.0 200 OK'' @ crlf @ (via_line m5 @ '';branch='' @ br @ crlf
        @ ''From: <sip:remote@'' @ sc_domain (sm_config m5) @ ''>;tag='' @ from_tag @ crlf
        @ ''To: <'' @ own_uri m @ ''>;tag='' @ tag @ crlf @ ''Call-ID: '' @ id @ crlf)
      @ ''CSeq: '' @ show_u32 k @ '' INVITE'' @ crlf
      @ (''Contact: <'' @ own_uri m @ ''>'' @ crlf @ ''Content-Length: 0'' @ crlf @ crlf)"
    unfolding eq BuildResponse_def response_head_def Let_def 1 2 3 4 5 prod.case fst_conv if_True simp_thms(6) show_status
    by (simp only: append_assoc append_Cons append_Nil)
  then show ?thesis by (simp only: exists)
qed


section \<open>Witnesses\<close>

definition sample_turn :: server_turn where
  "sample_turn = \<lparr>st_recv = RecvData [65] zero_sockaddr, st_now = (0, 0), st_sendto = 0,
     st_clock = (\<lambda>_. (0, 0, 0)), st_calls = []\<rparr>"

lemma view_registered: "call_view (m\<lparr>sm_registered := b\<rparr>) = call_view m"
  by (simp add: call_view_def [abs_def])

theorem server_run_contexts_witness:
  "\<exists>s out sess mx sip. SessionManager_Start True
       ((SetRtpPacketCallback (SetSipEventCallback (SessionManager_new default_server_config)), sample_mx),
        SipManager_new (\<lambda>_. 0)) = Some (True, s)
     \<and> server_loop (\<lambda>_. Some (request_message ''INVITE'' ''call'')) (sample_session_env True) UdpSocket_new
         [sample_turn] (snd (Register (SipEvent (sample_session_env True)) s)) = Some (out, ((sess, mx), sip))
     \<and> find_context ''call'' sess \<noteq> None"
proof -
  let ?env = "sample_session_env True" and ?parse = "\<lambda>_ :: string. Some (request_message ''INVITE'' ''call'')"
  let ?s = "(SetRtpPacketCallback (SetSipEventCallback (SessionManager_new default_server_config)), sample_mx)"
  obtain b m where i: "Initialize True (cfg_sip default_server_config) (SipManager_new (\<lambda>_. 0)) = (b, m)"
    by fastforce
  have b by (use i in \<open>auto simp: Initialize_def SipManager_new_def Let_def split: prod.splits\<close>)
  have mx: "IoMultiplexer_new 3 1024 = Some sample_mx" by (simp add: sample_mx_def IoMultiplexer_new_def)
  obtain s where s: "SessionManager_Start True (?s, SipManager_new (\<lambda>_. 0)) = Some (True, s)" "snd s = m"
    using i \<open>b\<close> by (auto simp: SessionManager_Start_def SetRtpPacketCallback_def SetSipEventCallback_def
        SessionManager_new_def)
  obtain r s1 where g: "Register (SipEvent ?env) s = (r, s1)" by (rule prod.exhaust)
  have reach: "session_reachable ?env (\<lambda>_. 0) s1"
    by (rule session_stepped [OF start_reachable [OF mx s(1)] step_register [OF g]])
  have "call_view (snd s) ''call'' = None"
    using Initialize_no_calls [OF i] s(2) by (simp add: SipManager_new_def call_view_def)
  then have "call_view (snd s1) ''call'' = None"
    using g session_reachable_ok [OF reach] session_reachable_ok [OF start_reachable [OF mx s(1)]]
      session.notify (1) [of ?env "[]" kRegistered "fst s" "(snd s)\<lparr>sm_registered := True\<rparr>" "fst s1" "snd s1"]
    by (auto simp: Register_def view_registered split: prod.splits if_splits)
  from invite_connects [OF session_reachable_ok [OF reach] this, of ?parse "''A''" ?env "(0, 0)"]
  have up: "call_view (snd (ProcessIncomingMessage ?parse (SipEvent ?env) (0, 0) ''A'' s1)) ''call'' = Some kConnected"
    by simp
  obtain sess mx' sip where p: "ProcessIncomingMessage ?parse (SipEvent ?env) (0, 0) ''A'' s1 = ((sess, mx'), sip)"
    by (metis prod.exhaust)
  have a: "char_of (65 :: nat) = CHR ''A''" by (simp add: char_of_def bit_0)
  have loop: "server_loop ?parse ?env UdpSocket_new [sample_turn] (snd (Register (SipEvent ?env) s))
      = Some ([], ((sess, mx'), sip))"
    using p by (simp add: g server_step_def sample_turn_def UdpSocket_RecvFrom_def server_message_def a
        std_find_def ProcessTimers_def)
  from server_run_contexts [OF mx s(1) loop] up p have "find_context ''call'' sess \<noteq> None"
    by (auto simp: call_view_def)
  with s(1) loop show ?thesis by blast
qed

definition sample_invite :: string where
  "sample_invite = ''INVITE sip:a SIP/2.0'' @ crlf @ ''Call-ID: call@h'' @ crlf @ crlf"


definition sample_bye :: string where
  "sample_bye = ''BYE sip:a SIP/2.0'' @ crlf @ ''Call-ID: call@h'' @ crlf @ crlf"


end
