(* ===== verification/Server_Run.thy ===== *)
theory Server_Run
  imports Server_Main
begin

text \<open>
  The two threads of the server program (\<open>main.cpp\<close>) together: the signalling loop takes its turns while
  the media thread handles descriptors and timers, in any order. What such a program reaches is narrower
  than what a user of the session manager could reach, since it never calls anybody, never hangs up and
  sends no media of its own: every turn of its loop is defined, whatever arrives, and not one media
  or control datagram ever leaves it. At the end, the ways in which the program can exit.
\<close>

section \<open>The states of the program\<close>

text \<open>What happens between two turns of the loop: the registration, and the steps of the media thread.\<close>

inductive program_silent :: "session_env \<Rightarrow> (string \<Rightarrow> nat) \<Rightarrow> session_state \<Rightarrow> session_state \<Rightarrow> bool"
  for env :: session_env and now_ns :: "string \<Rightarrow> nat" where
  silent_register: "Register (SipEvent env) s = (ok, s') \<Longrightarrow> program_silent env now_ns s s'"
| silent_rtcp_timer:
    "AddTimer now 5000 True (Some RtcpTimer) mx = Inr (i, mx')
     \<Longrightarrow> program_silent env now_ns ((sess, mx), m) ((sess, mx'), m)"
| silent_event:
    "deliver (RtpEvent env) fd revents io = Inr io' \<Longrightarrow> program_silent env now_ns (io, m) (io', m)"
| silent_timers:
    "FireTimers (RtpTimer env now_ns) t io = Inr io' \<Longrightarrow> program_silent env now_ns (io, m) (io', m)"

text \<open>
  A run of the program with a configuration: the turns its loop has taken, in order, the datagrams the
  loop has sent, and the state.
\<close>

inductive program_run ::
  "(string \<Rightarrow> osip_message option) \<Rightarrow> session_env \<Rightarrow> (string \<Rightarrow> nat) \<Rightarrow> server_config
   \<Rightarrow> server_turn list \<Rightarrow> datagram_out list \<Rightarrow> session_state \<Rightarrow> bool"
  for parse :: "string \<Rightarrow> osip_message option" and env :: session_env and now_ns :: "string \<Rightarrow> nat"
    and config :: server_config where
  run_started:
    "IoMultiplexer_new epfd 1024 = Some mx
     \<Longrightarrow> SessionManager_Start osip ((SetRtpPacketCallback (SetSipEventCallback (SessionManager_new config)), mx),
           SipManager_new rng) = Some (True, s)
     \<Longrightarrow> program_run parse env now_ns config [] [] s"
| run_silent:
    "program_run parse env now_ns config turns sent s \<Longrightarrow> program_silent env now_ns s s'
     \<Longrightarrow> program_run parse env now_ns config turns sent s'"
| run_turn:
    "program_run parse env now_ns config turns sent s \<Longrightarrow> server_step parse env sck turn s = Some (out, s')
     \<Longrightarrow> program_run parse env now_ns config (turns @ [turn]) (sent @ out) s'"

definition program_reachable ::
  "(string \<Rightarrow> osip_message option) \<Rightarrow> session_env \<Rightarrow> (string \<Rightarrow> nat) \<Rightarrow> session_state \<Rightarrow> bool" where
  "program_reachable parse env now_ns s \<longleftrightarrow>
     (\<exists>config turns sent. program_run parse env now_ns config turns sent s)"

lemma program_started:
  "IoMultiplexer_new epfd 1024 = Some mx
   \<Longrightarrow> SessionManager_Start osip ((SetRtpPacketCallback (SetSipEventCallback (SessionManager_new config)), mx),
         SipManager_new rng) = Some (True, s)
   \<Longrightarrow> program_reachable parse env now_ns s"
  unfolding program_reachable_def by (blast intro: run_started)

lemma program_registered:
  "program_reachable parse env now_ns s \<Longrightarrow> program_reachable parse env now_ns (snd (Register (SipEvent env) s))"
  unfolding program_reachable_def by (metis run_silent silent_register prod.collapse)

lemma program_turn:
  "program_reachable parse env now_ns s \<Longrightarrow> server_step parse env sck turn s = Some (out, s')
   \<Longrightarrow> program_reachable parse env now_ns s'"
  unfolding program_reachable_def by (blast intro: run_turn)

lemma program_silent_session:
  assumes "program_silent env now_ns s s'"
  shows "session_step env now_ns s s'"
  using assms by cases (auto intro: session_step.intros)

lemma program_run_session:
  "program_run parse env now_ns config turns sent s \<Longrightarrow> session_reachable env now_ns s"
proof (induction rule: program_run.induct)
  case (run_started epfd mx osip rng s)
  then show ?case by (rule start_reachable)
next
  case (run_silent turns sent s s')
  then show ?case using session_stepped program_silent_session by blast
next
  case (run_turn turns sent s sck turn out s')
  then show ?case using server_step_reachable by blast
qed

lemma program_session_reachable: "program_reachable parse env now_ns s \<Longrightarrow> session_reachable env now_ns s"
  unfolding program_reachable_def using program_run_session by blast

section \<open>The invariant of the program\<close>

text \<open>An information record without the other end's address.\<close>

definition unaddressed :: "call_session_info \<Rightarrow> bool" where
  "unaddressed i \<longleftrightarrow> ci_remote_rtp_addr i = [] \<and> ci_audio_remote_port i = None \<and> ci_video_remote_port i = None"

text \<open>
  A call of the program: it came in, it has no address until it is connected, and local ports from then on.
\<close>

definition taken_call :: "sip_call \<Rightarrow> bool" where
  "taken_call c \<longleftrightarrow> call_state c \<notin> {kCalling, kDisconnecting}
     \<and> (if call_state c = kRinging then unaddressed (call_session_info c)
        else ci_audio_local_port (call_session_info c) \<noteq> None \<and> ci_video_local_port (call_session_info c) \<noteq> None)"

definition silent_context :: "call_context \<Rightarrow> bool" where
  "silent_context ctx \<longleftrightarrow> unaddressed (cx_info ctx)
     \<and> ci_audio_local_port (cx_info ctx) \<noteq> None \<and> ci_video_local_port (cx_info ctx) \<noteq> None"

definition program_ok :: "session_state \<Rightarrow> bool" where
  "program_ok s \<longleftrightarrow> (case s of ((sess, mx), m) \<Rightarrow> listening (sess, mx) \<and> sess_sent sess = []
     \<and> (\<forall>cid ctx. find_context cid sess = Some ctx \<longrightarrow> silent_context ctx)
     \<and> (\<forall>cid c. sm_calls m cid = Some c \<longrightarrow> taken_call c))"

lemma program_ok_put:
  assumes "program_ok (io, m)" "taken_call c" "sm_calls m' = (sm_calls m)(cid \<mapsto> c)"
  shows "program_ok (io, m')"
  using assms by (cases io) (auto simp: program_ok_def)

lemma program_okD:
  assumes "program_ok (io, m)"
  shows "listening io" "sm_calls m cid = Some c \<Longrightarrow> taken_call c"
  using assms by (cases io; auto simp: program_ok_def)+

lemma unaddressed_same_media:
  "same_media c c' \<Longrightarrow> unaddressed (call_session_info c') = unaddressed (call_session_info c)"
  using same_media_fields [of c c'] by (simp add: unaddressed_def)

lemma taken_same_media:
  assumes "taken_call c" "same_media c c'" "call_state c' \<notin> {kCalling, kDisconnecting, kRinging}"
    "call_state c \<noteq> kRinging"
  shows "taken_call c'"
  using assms same_media_fields [OF assms(2)] by (simp add: taken_call_def)

lemma new_context_silent: "unaddressed info \<Longrightarrow> silent_context (new_context env ce config cid info)"
  by (simp add: silent_context_def unaddressed_def new_context_fields new_context_sockets)

lemma connected_program_ok:
  assumes "GetOrCreateContext env cid (call_session_info c) (s, mx) = (ctx, (s', mx'))"
    "program_ok ((s, mx), m)" "listening (s', mx')" "unaddressed (call_session_info c)" "call_state c = kConnected"
    "sm_calls m' = (sm_calls m)(cid \<mapsto> c)"
  shows "program_ok ((s', mx'), put_call cid (with_ports ctx c) m')"
proof -
  have free: "\<not> im_fd_mutex mx" using assms(2) by (simp add: program_ok_def listening_def)
  note eff = GetOrCreateContext_effect [OF assms(1) free] and find = GetOrCreateContext_find [OF assms(1) free]
  have ctx: "silent_context ctx" using eff assms(2) new_context_silent [OF assms(4)] by (auto simp: program_ok_def)
  then have "taken_call (with_ports ctx c)"
    by (simp add: taken_call_def with_ports_def silent_context_def assms(5))
  moreover have "sess_sent s' = []" using eff assms(2) by (auto simp: program_ok_def)
  ultimately show ?thesis using ctx assms(2,3,6) by (auto simp: program_ok_def find split: if_splits)
qed

lemma removed_program_ok:
  assumes "RemoveContext env cid (s, mx) = (s', mx')" "program_ok ((s, mx), m)" "listening (s', mx')"
    "sm_calls m' = (sm_calls m)(cid \<mapsto> c)" "taken_call c"
  shows "program_ok ((s', mx'), m')"
proof -
  have free: "\<not> im_fd_mutex mx" using assms(2) by (simp add: program_ok_def listening_def)
  have "sess_sent s' = []" using RemoveContext_effect [OF assms(1) free] assms(2) by (auto simp: program_ok_def)
  then show ?thesis using assms(2-5) RemoveContext_find [OF assms(1) free]
    by (auto simp: program_ok_def split: if_splits)
qed

lemma changed_program_ok:
  assumes "sm_calls m cid = Some c" "call_change (call_state c) (call_state c')" "same_media c c'"
    "SipEvent env cid (call_state c') (w, put_call cid c' m) = s'"
    "unprompted (Changed cid (call_state c) (call_state c'))" "program_ok (w, m)"
  shows "program_ok s'"
proof -
  obtain sess mx where w: "w = (sess, mx)" by (cases w)
  have p: "program_ok ((sess, mx), m)" using assms(6) by (simp add: w)
  have l: "listening w" using program_okD(1) p by (simp add: w)
  have old: "taken_call c" by (rule program_okD(2) [OF p assms(1)])
  show ?thesis
  proof (cases "call_state c' = kConnected")
    case True
    then have "call_state c = kRinging" using old assms(5) by (auto simp: taken_call_def)
    then have un: "unaddressed (call_session_info c')"
      using old unaddressed_same_media [OF assms(3)] by (simp add: taken_call_def)
    obtain ctx s1 mx1 where g: "GetOrCreateContext env cid (call_session_info c') (sess, mx) = (ctx, (s1, mx1))"
      by (metis prod.exhaust)
    then have "s' = ((s1, mx1), put_call cid (with_ports ctx c') (put_call cid c' m))"
      using assms(4) SipEvent_told [OF l] True by (auto simp: w)
    moreover have "listening (s1, mx1)" by (rule told_listening [OF _ l]) (use assms(4) calculation in simp)
    ultimately show ?thesis using connected_program_ok [OF g p _ un True, of "put_call cid c' m"] by simp
  next
    case False
    then have gone: "call_state c' = kDisconnected \<or> call_state c' = kFailed" "call_state c \<noteq> kRinging"
      using assms(2,5) by auto
    then have c': "taken_call c'" using taken_same_media [OF old assms(3)] by auto
    obtain s1 mx1 where g: "RemoveContext env cid (sess, mx) = (s1, mx1)" by (rule prod.exhaust)
    then have "s' = ((s1, mx1), put_call cid c' m)" using assms(4) SipEvent_told [OF l] gone by (auto simp: w)
    moreover have "listening (s1, mx1)" by (rule told_listening [OF _ l]) (use assms(4) calculation in simp)
    ultimately show ?thesis using removed_program_ok [OF g p _ _ c', of "put_call cid c' m"] by simp
  qed
qed

lemma move_program_ok:
  assumes "sip_move (SipEvent env) s e s'" "unprompted e" "program_ok s"
  shows "program_ok s'"
  using assms(1)
proof cases
  case (silent m' m w)
  then show ?thesis using assms(3) by (cases w) (simp add: program_ok_def)
next
  case (timed m cid c c' w)
  have "taken_call c" using program_okD(2) assms(3) timed by blast
  then have "taken_call c'"
    using timed same_media_fields [OF timed(6)] unaddressed_same_media [OF timed(6)] by (simp add: taken_call_def)
  with program_ok_put [of w m c' _ cid] assms(3) timed show ?thesis by simp
next
  case (negotiated m cid c w desc)
  let ?c = "c\<lparr>call_session_info := sdp_to_info desc (call_session_info c)\<rparr>"
  have "taken_call c" using program_okD(2) assms(3) negotiated by blast
  then have "taken_call ?c" using assms(2) negotiated by (simp add: taken_call_def)
  with program_ok_put [of w m ?c _ cid] assms(3) negotiated show ?thesis by simp
next
  case (created m cid c w)
  have l: "listening w" using program_okD(1) assms(3) created(1) by blast
  have "s' = (w, put_call cid c m)" using created SipEvent_told [OF l] by auto
  moreover have "taken_call c" using created assms(2)
    by (simp add: taken_call_def unaddressed_def init_call_session_info_def)
  ultimately show ?thesis using program_ok_put [of w m c _ cid] assms(3) created(1) by simp
next
  case (changed m cid c c' w)
  then show ?thesis using changed_program_ok [of m cid c c' env w] assms(2,3) by simp
next
  case (gone m cid w)
  then show ?thesis using assms(3) by (cases w) (auto simp: program_ok_def erase_call_def split: if_splits)
next
  case (reported st cid)
  obtain w m where s: "s = (w, m)" by (cases s)
  have "listening w" using program_okD(1) assms(3) by (simp add: s)
  from SipEvent_told [OF this] reported have "s' = s" by (auto simp: s)
  then show ?thesis using assms(3) by simp
qed

lemma moves_program_ok:
  assumes "unprompted_moves (SipEvent env) s s'" "program_ok s"
  shows "program_ok s'"
proof -
  obtain es where es: "sip_moves (SipEvent env) s es s'" "list_all unprompted es"
    using assms(1) by (auto simp: unprompted_moves_def)
  show ?thesis by (rule sip_moves_invariant [where keep = program_ok, OF es(1) assms(2) es(2)]) (rule move_program_ok)
qed

text \<open>What only counts, caches or takes in a description for a call at rest.\<close>

lemma counters_program_ok: "same_but_counters m m' \<Longrightarrow> program_ok (io, m) \<Longrightarrow> program_ok (io, m')"
  using same_counters_calls [of m m'] by (cases io) (simp add: program_ok_def)

lemma sdp_program_ok:
  assumes "program_ok (io, m)" "sip_wf m"
  shows "program_ok (io, snd (ProcessIncomingSdp cid body m))"
proof -
  obtain ok m' where p: "ProcessIncomingSdp cid body m = (ok, m')" by (rule prod.exhaust)
  have "unprompted_moves (SipEvent env) (io, m) (io, m')" for env
  proof -
    from session.sdp_moves [OF p, of env io] obtain es where es: "sip_moves (SipEvent env) (io, m) es (io, m')"
      "\<forall>e \<in> set es. \<exists>c. sm_calls m cid = Some c \<and> e = Negotiated cid (call_state c)" by (elim exE conjE)
    have "unprompted (Negotiated cid (call_state c))" if "sm_calls m cid = Some c" for c
      using program_okD(2) [OF assms(1) that] session.not_ringing [OF assms(2) that] by (simp add: taken_call_def)
    then have "list_all unprompted es" using es(2) unfolding list_all_iff by metis
    with es(1) show ?thesis by (rule unprompted_run)
  qed
  from moves_program_ok [OF this assms(1)] show ?thesis by (simp add: p)
qed

section \<open>The media thread sends nothing\<close>

lemma same_contexts_silent:
  assumes "same_contexts s s'" "\<forall>cid ctx. find_context cid s = Some ctx \<longrightarrow> silent_context ctx"
  shows "\<forall>cid ctx. find_context cid s' = Some ctx \<longrightarrow> silent_context ctx"
  using same_contexts_find [OF assms(1)] assms(2)
  by (metis (no_types, lifting) option_rel_Some2 same_frame_def silent_context_def)

lemma rtcp_loop_silent:
  "\<forall>x \<in> set cs. silent_context (snd x) \<Longrightarrow> rtcp_loop env now_ns cs = Some ds \<Longrightarrow> ds = []"
  by (induction cs arbitrary: ds)
    (auto simp: rtcp_for_def silent_context_def unaddressed_def bind_eq_Some_conv)

lemma silent_contexts_all:
  assumes "listening (s, mx)" "\<forall>cid ctx. find_context cid s = Some ctx \<longrightarrow> silent_context ctx"
  shows "\<forall>x \<in> set (sess_contexts s). silent_context (snd x)"
  using assms by (auto simp: find_context_def listening_def map_of_eq_Some_iff)

lemma run_rtcp_silent:
  "run_callbacks (RtpTimer env now_ns) cs (s, mx) = Inr (s', mx') \<Longrightarrow> \<forall>x \<in> set (sess_contexts s). silent_context (snd x)
    \<Longrightarrow> s' = s"
proof (induction cs arbitrary: s mx)
  case (Cons c cs)
  then obtain x s1 mx1 where r: "RtpTimer env now_ns x (s, mx) = Inr (s1, mx1)"
    "run_callbacks (RtpTimer env now_ns) cs (s1, mx1) = Inr (s', mx')"
    by (cases c) (auto split: sum.splits)
  from r(1) have "s1 = s" using rtcp_loop_silent [OF Cons.prems(2), of env now_ns]
    by (cases x) (fastforce simp: RtpTimer_def or_undefined_def OnRtcpTimer_def split: option.splits)+
  then show ?case using Cons.IH [OF r(2)] Cons.prems(2) by simp
qed simp

lemma media_program_ok:
  assumes "program_ok ((s, mx), m)"
    "(\<exists>fd revents. deliver (RtpEvent env) fd revents (s, mx) = Inr (s', mx'))
     \<or> (\<exists>t. FireTimers (RtpTimer env now_ns) t (s, mx) = Inr (s', mx'))
     \<or> s' = s \<and> (\<exists>now i. AddTimer now 5000 True (Some RtcpTimer) mx = Inr (i, mx'))"
  shows "program_ok ((s', mx'), m)"
proof -
  have p: "listening (s, mx)" "sess_sent s = []" "\<forall>cid ctx. find_context cid s = Some ctx \<longrightarrow> silent_context ctx"
    using assms(1) by (simp_all add: program_ok_def)
  have step: "media_step env now_ns (s, mx) (s', mx')" using assms(2) by (auto intro: media_step.intros)
  note frame = media_step_frame [OF step]
  have f: "same_contexts s s'" "im_fd_mutex mx' = im_fd_mutex mx" "im_timer_mutex mx' = im_timer_mutex mx"
    using frame p(1) by (simp_all add: listening_def)
  have "sess_sent s' = []"
  proof -
    have "s' = s" if "FireTimers (RtpTimer env now_ns) t (s, mx) = Inr (s', mx')" for t
      using that run_rtcp_silent [OF _ silent_contexts_all [OF p(1,3)], of env now_ns]
      by (auto simp: FireTimers_def fire_loop_reference split: if_splits sum.splits prod.splits)
    then show ?thesis using assms(2) deliver_sends_nothing p(2) by metis
  qed
  then show ?thesis
    using assms(1) listening_same [OF f(1) p(1) f(2,3)] same_contexts_silent [OF f(1) p(3)]
    by (simp add: program_ok_def)
qed

section \<open>The signalling loop is defined\<close>

lemma sdp_wf: "sip_wf m \<Longrightarrow> sip_wf (snd (ProcessIncomingSdp cid body m))"
  using ProcessIncomingSdp_effect by (metis prod.collapse sip_wf_def)

lemma answer_invite_defined:
  assumes "program_ok (io, m)" "sip_wf m"
  shows "\<exists>out m'. answer_invite env sck addr port ret msg m = Some (out, m') \<and> program_ok (io, m')"
proof -
  let ?cid = "message_call_id msg"
  define m1 where "m1 = (case message_body msg of None \<Rightarrow> m
    | Some body \<Rightarrow> if ?cid \<noteq> [] then snd (ProcessIncomingSdp ?cid body m) else m)"
  have m1: "program_ok (io, m1)" "sip_wf m1"
    using assms sdp_program_ok [OF assms] sdp_wf [OF assms(2)] by (simp_all add: m1_def split: option.split)
  obtain r m2 where r: "BuildInviteResponse 180 ''Ringing'' [] m1 = (r, m2)" by (rule prod.exhaust)
  note same = BuildInviteResponse_same [OF r]
  have m2: "program_ok (io, m2)" "sip_wf m2"
    using counters_program_ok [OF same m1(1)] same_counters_view [OF same] m1(2) by (simp_all add: sip_wf_def)
  obtain a where a: "BuildSdpAnswer ?cid m2 = Some a"
  proof (cases "sm_calls m2 ?cid")
    case (Some c)
    have "taken_call c" "call_state c \<noteq> kRinging"
      by (rule program_okD(2) [OF m2(1) Some], rule session.not_ringing [OF m2(2) Some])
    then obtain p q where "ci_audio_local_port (call_session_info c) = Some p"
      "ci_video_local_port (call_session_info c) = Some q" by (auto simp: taken_call_def)
    with Some that show thesis by (simp add: BuildSdpAnswer_def)
  qed (use that in \<open>simp add: BuildSdpAnswer_def\<close>)
  obtain k m3 where k: "BuildInviteResponse 200 ''OK'' a m2 = (k, m3)" by (rule prod.exhaust)
  have "program_ok (io, m3)" by (rule counters_program_ok [OF BuildInviteResponse_same [OF k] m2(1)])
  then show ?thesis using r a k by (simp add: answer_invite_def Let_def m1_def)
qed

lemma server_message_defined:
  assumes "program_ok s" "sip_wf (snd s)"
  shows "\<exists>out s'. server_message parse env sck now ret addr port msg s = Some (out, s') \<and> program_ok s'"
proof -
  obtain io0 m0 where s: "s = (io0, m0)" by (cases s)
  obtain io m where p: "ProcessIncomingMessage parse (SipEvent env) now msg s = (io, m)" by (rule prod.exhaust)
  have wf0: "sip_wf m0" using assms(2) by (simp add: s)
  have ok: "program_ok (io, m)" by (rule moves_program_ok [OF session.message_moves [OF p [unfolded s] wf0] assms(1) [unfolded s]])
  have wf: "sip_wf m" by (rule session.step_wf [OF sip_step.message [OF p [unfolded s]] wf0])
  obtain out1 m1 where i: "(if std_find ''INVITE'' msg \<noteq> None
      then answer_invite env sck addr port ret msg m else Some ([], m)) = Some (out1, m1)" "program_ok (io, m1)"
    using answer_invite_defined [OF ok wf, of env sck addr port ret msg] ok by (cases "std_find ''INVITE'' msg") auto
  obtain r m2 where r: "BuildResponse 200 ''OK'' [] m1 = (r, m2)" by (rule prod.exhaust)
  have "program_ok (io, m2)" by (rule counters_program_ok [OF BuildResponse_same [OF r] i(2)])
  moreover have "server_message parse env sck now ret addr port msg s = (if std_find ''BYE'' msg \<noteq> None
      then Some (out1 @ [server_reply env sck addr port ret r], (io, m2)) else Some (out1, (io, m1)))"
    using p i(1) r by (simp add: server_message_def answer_bye_def)
  ultimately show ?thesis using i(2) by (cases "std_find ''BYE'' msg") auto
qed

lemma server_step_defined:
  assumes "program_ok s" "session_reachable env now_ns s"
  shows "\<exists>out s'. server_step parse env sck turn s = Some (out, s') \<and> program_ok s'"
proof -
  obtain n buf addr port where r: "UdpSocket_RecvFrom (se_inet_ntop env) (st_recv turn) 65535 [] 0 = (n, buf, addr, port)"
    by (metis prod.exhaust)
  let ?msg = "map (\<lambda>b. char_of (unat b)) buf"
  have wf: "sip_wf (snd s)" using session_reachable_ok [OF assms(2)] by (simp add: session_ok_def)
  obtain out s1 where s1: "(if n > 0 then server_message parse env sck (st_now turn) (st_sendto turn) addr port ?msg s
      else Some ([], s)) = Some (out, s1)" "program_ok s1" "sip_wf (snd s1)"
  proof (cases "n > 0")
    case True
    obtain out s1 where m: "server_message parse env sck (st_now turn) (st_sendto turn) addr port ?msg s = Some (out, s1)"
      "program_ok s1" using server_message_defined [OF assms(1) wf] by blast
    have "sip_wf (snd s1)"
      using session_reachable_ok [OF server_message_reachable [OF m(1) assms(2)]] by (simp add: session_ok_def)
    with that m True show thesis by simp
  qed (use that assms wf in simp)
  obtain io m where "s1 = (io, m)" by (cases s1)
  then have "program_ok (ProcessTimers (SipEvent env) (st_clock turn) (st_calls turn) s1)"
    using moves_program_ok [OF session.timers_moves [OF refl]] s1(2,3) by auto
  then show ?thesis using r s1 by (simp add: server_step_def)
qed

lemma program_silent_ok:
  assumes "program_silent env now_ns s s'" "program_ok s"
  shows "program_ok s'"
  using assms(1)
proof cases
  case (silent_register ok)
  obtain io m where s: "s = (io, m)" by (cases s)
  from moves_program_ok [OF session.registration_moves(1) [OF silent_register [unfolded s]] assms(2) [unfolded s]]
  show ?thesis .
next
  case (silent_rtcp_timer now mx i mx' sess m)
  then show ?thesis using assms(2) media_program_ok [of sess mx m env sess mx' now_ns] by blast
next
  case (silent_event fd revents io io' m)
  then show ?thesis using assms(2) by (cases io; cases io') (use media_program_ok in blast)
next
  case (silent_timers t io io' m)
  then show ?thesis using assms(2) by (cases io; cases io') (use media_program_ok in blast)
qed

lemma program_run_ok: "program_run parse env now_ns config turns sent s \<Longrightarrow> program_ok s"
proof (induction rule: program_run.induct)
  case (run_started epfd mx osip rng s)
  obtain sess mx' m where s: "s = ((sess, mx'), m)" by (metis prod.exhaust)
  have ok: "session_ok s" using session_reachable_ok [OF start_reachable [OF run_started]] .
  obtain m0 where i: "Initialize osip (cfg_sip config) (SipManager_new rng) = (True, m0)"
    and f: "m = m0" "sess_contexts sess = []" "sess_sent sess = []"
    using run_started(2) by (auto simp: s SessionManager_Start_def SetRtpPacketCallback_def SetSipEventCallback_def
        SessionManager_new_def split: prod.splits bool.splits)
  have "sm_calls m = (\<lambda>_. None)" using Initialize_no_calls [OF i] by (simp add: f SipManager_new_def)
  then show ?case using ok f by (simp add: s program_ok_def session_ok_def client_links_def find_context_def)
next
  case (run_silent turns sent s s')
  then show ?case using program_silent_ok by blast
next
  case (run_turn turns sent s sck turn out s')
  from server_step_defined [OF run_turn(3) program_run_session [OF run_turn(1)], of parse sck turn] run_turn(2)
  show ?case by auto
qed

lemma program_reachable_ok: "program_reachable parse env now_ns s \<Longrightarrow> program_ok s"
  unfolding program_reachable_def using program_run_ok by blast

section \<open>Properties\<close>



section \<open>How the program ends\<close>

lemma server_loop_defined:
  "program_reachable parse env now_ns s \<Longrightarrow> \<exists>out s'. server_loop parse env sck turns s = Some (out, s')"
proof (induction turns arbitrary: s)
  case (Cons t ts)
  obtain out s1 where t: "server_step parse env sck t s = Some (out, s1)"
    using server_step_defined [OF program_reachable_ok program_session_reachable, OF Cons.prems Cons.prems] by blast
  from Cons.IH [OF program_turn [OF Cons.prems t]] t show ?case by auto
qed simp

lemma SessionManager_Start_first:
  assumes "osip"
  obtains s where "SessionManager_Start osip ((SetRtpPacketCallback (SetSipEventCallback (SessionManager_new config)), mx),
      SipManager_new rng) = Some (True, s)"
proof -
  obtain b m where i: "Initialize osip (cfg_sip config) (SipManager_new rng) = (b, m)" by (rule prod.exhaust)
  then have b using assms by (auto simp: Initialize_def Let_def split: prod.splits)
  with i that show thesis
    by (simp add: SessionManager_Start_def SetRtpPacketCallback_def SetSipEventCallback_def SessionManager_new_def)
qed

lemma SessionManager_Start_no_osip:
  assumes "\<not> osip"
  obtains s where "SessionManager_Start osip ((sess, mx), m) = Some (False, s)"
  by (rule that) (use assms in \<open>simp add: SessionManager_Start_def Initialize_def Let_def\<close>)

text \<open>The state in which the program leaves its objects: no call, no context, no thread, no osip.\<close>

definition stopped :: "session_state \<Rightarrow> bool" where
  "stopped s \<longleftrightarrow> (case s of ((sess, mx), sip) \<Rightarrow> sess_contexts sess = [] \<and> \<not> sess_rtp_thread sess
     \<and> sess_thread_pool sess = None \<and> \<not> im_running mx
     \<and> sm_calls sip = (\<lambda>_. None) \<and> \<not> sm_osip sip \<and> \<not> sm_initialized sip)"

lemma Stop_stopped:
  assumes "listening io"
  shows "stopped (SessionManager_Stop env (io, m))"
proof -
  obtain sess mx where io: "io = (sess, mx)" by (cases io)
  let ?s = "sess\<lparr>sess_rtp_running := False, sess_rtp_thread := False, sess_thread_pool := None\<rparr>"
  have "listening (?s, IoMultiplexer_Stop mx)"
    using assms by (simp add: io listening_def IoMultiplexer_Stop_def)
  then have "SipEvent env [] kUnregistered ((?s, IoMultiplexer_Stop mx), m') = ((?s, IoMultiplexer_Stop mx), m')" for m'
    by (simp add: SipEvent_told)
  then show ?thesis
    by (auto simp: io SessionManager_Stop_def Shutdown_def Unregister_def stopped_def IoMultiplexer_Stop_def Let_def)
qed

text \<open>A start without failures leads into the loop, and from there to a stopped program.\<close>

lemma server_main_runs:
  assumes "server_arguments args [] = Some path" "server_config_of env path = Inr config"
    "sip_socket env config = (True, sck)" "sv_osip env"
    "IoMultiplexer_new (sv_epoll env) 1024 = Some (mx :: rtp_callback io_multiplexer)"
  shows "\<exists>out s. server_main env args turns = Exit 0 out (Some s) \<and> stopped s"
proof -
  let ?s0 = "((SetRtpPacketCallback (SetSipEventCallback (SessionManager_new config)), mx), SipManager_new (sv_random env))"
  obtain s where s: "SessionManager_Start (sv_osip env) ?s0 = Some (True, s)"
    by (rule SessionManager_Start_first [OF assms(4)])
  let ?s1 = "snd (Register (SipEvent (sv_session env)) s)"
  have run: "program_reachable (sv_parse env) (sv_session env) (\<lambda>_. 0) ?s1"
    by (rule program_registered [OF program_started [OF assms(5) s]])
  obtain out s' where loop: "server_loop (sv_parse env) (sv_session env) sck turns ?s1 = Some (out, s')"
    using server_loop_defined [OF run] by blast
  have "listening (fst s')"
    using session_reachable_ok [OF server_loop_reachable [OF loop program_session_reachable [OF run]]]
    by (simp add: session_ok_def client_links_def)
  then have "stopped (SessionManager_Stop (sv_session env) s')" using Stop_stopped by (metis prod.collapse)
  moreover have "server_main env args turns = Exit 0 out (Some (SessionManager_Stop (sv_session env) s'))"
    using assms(1-3,5) s loop by (simp add: server_main_def)
  ultimately show ?thesis by blast
qed


section \<open>Witnesses\<close>

lemma sample_program:
  obtains sess mx sip ctx where
    "program_reachable (\<lambda>_. Some (request_message ''INVITE'' ''call'')) env now_ns ((sess, mx), sip)"
    "find_context ''call'' sess = Some ctx"
proof -
  let ?parse = "\<lambda>_ :: string. Some (request_message ''INVITE'' ''call'')"
  let ?s0 = "(SetRtpPacketCallback (SetSipEventCallback (SessionManager_new default_server_config)), sample_mx)"
  have mx: "IoMultiplexer_new 3 1024 = Some sample_mx" by (simp add: sample_mx_def IoMultiplexer_new_def)
  obtain s where s: "SessionManager_Start True (?s0, SipManager_new (\<lambda>_. 0)) = Some (True, s)"
    by (rule SessionManager_Start_first) simp_all
  obtain sess mx0 m where split: "s = ((sess, mx0), m)" by (metis prod.exhaust)
  note started = program_started [OF mx s, of ?parse env now_ns]
  have none: "sm_calls m ''call'' = None"
    using s Initialize_no_calls [of True] by (auto simp: split SessionManager_Start_def SetRtpPacketCallback_def
        SetSipEventCallback_def SessionManager_new_def SipManager_new_def split: prod.splits bool.splits)
  obtain sess1 mx1 m1 where p: "ProcessIncomingMessage ?parse (SipEvent env) (0, 0) ''A'' ((sess, mx0), m)
      = ((sess1, mx1), m1)" by (metis prod.exhaust)
  have i: "is_invite ''call'' (request_message ''INVITE'' ''call'')"
    by (simp add: is_invite_def request_message_def response_message_def)
  have ne: "''call'' \<noteq> []" by simp
  from incoming_call_effect [OF program_session_reachable [OF started [unfolded split]] none ne refl i p]
  obtain ctx where ctx: "find_context ''call'' sess1 = Some ctx" by auto
  have "char_of (65 :: nat) = CHR ''A''" by (simp add: char_of_def bit_0)
  then have "server_step ?parse env UdpSocket_new sample_turn s = Some ([], ((sess1, mx1), m1))"
    using p by (simp add: split server_step_def sample_turn_def UdpSocket_RecvFrom_def server_message_def
        std_find_def ProcessTimers_def)
  from that [OF program_turn [OF started this] ctx] show thesis .
qed



definition sample_server_env :: server_env where
  "sample_server_env = \<lparr>sv_session = sample_session_env True,
     sv_parse = (\<lambda>_. Some (request_message ''INVITE'' ''call'')), sv_file = (\<lambda>_. None),
     sv_socket = \<lparr>or_socket = 4, or_bind = 0\<rparr>, sv_epoll = 3, sv_osip = True, sv_random = (\<lambda>_. 0)\<rparr>"


end
