(* ===== verification/Server_Switchboard.thy ===== *)
theory Server_Switchboard
  imports Server_Run
begin

text \<open>
  The specification of the whole program. A switchboard knows, for every call identifier, whether there is
  no call, a call that talks or a call that is broken; a message changes one entry, by a function of a few
  lines. The program refines it: after any run of its two threads the call table is the switchboard
  after the messages of the run, in their order, and exactly the calls that talk have a media context.
\<close>

section \<open>The specification\<close>

datatype line = Talking | Broken

type_synonym switchboard = "string \<Rightarrow> line option"

text \<open>
  An INVITE with a new identifier puts a call through. A BYE and a CANCEL end it. A final response other
  than a success breaks it. Everything else is ignored.
\<close>

definition switch :: "osip_message option \<Rightarrow> switchboard \<Rightarrow> switchboard" where
  "switch m b =
     (case m of
        None \<Rightarrow> b
      | Some msg \<Rightarrow>
          let cid = value_or [] (om_call_id msg) in
          if om_status_code msg = 0
          then (if om_method msg = Some ''INVITE'' \<and> cid \<noteq> [] \<and> b cid = None then b(cid \<mapsto> Talking)
                else if om_method msg = Some ''BYE'' \<or> om_method msg = Some ''CANCEL'' then b(cid := None)
                else b)
          else if 300 \<le> om_status_code msg \<and> b cid \<noteq> None then b(cid \<mapsto> Broken)
          else b)"

text \<open>The text of the message that a turn of the loop reads, if it reads one.\<close>

definition turn_text :: "server_turn \<Rightarrow> string option" where
  "turn_text turn =
     (case st_recv turn of
        RecvData data src \<Rightarrow> if data = [] then None else Some (map (\<lambda>b. char_of (unat b)) (take 65535 data))
      | RecvError again \<Rightarrow> None)"

definition switch_turn :: "(string \<Rightarrow> osip_message option) \<Rightarrow> server_turn \<Rightarrow> switchboard \<Rightarrow> switchboard" where
  "switch_turn parse turn b = (case turn_text turn of None \<Rightarrow> b | Some text \<Rightarrow> switch (parse text) b)"

text \<open>The datagrams a turn sends: two for a text with INVITE in it, one for a text with BYE in it.\<close>

definition turn_replies :: "server_turn \<Rightarrow> nat" where
  "turn_replies turn =
     (case turn_text turn of
        None \<Rightarrow> 0
      | Some text \<Rightarrow> (if std_find ''INVITE'' text \<noteq> None then 2 else 0) + (if std_find ''BYE'' text \<noteq> None then 1 else 0))"

text \<open>The abstraction.\<close>

definition line_of :: "sip_call_state \<Rightarrow> line" where
  "line_of st = (if st = kFailed then Broken else Talking)"

definition board :: "session_state \<Rightarrow> switchboard" where
  "board s cid = map_option line_of (call_view (snd s) cid)"

text \<open>A turn whose clock does not pass a timer's deadline between the two tests of \<open>ProcessTimers\<close>.\<close>

definition steady_turn :: "server_turn \<Rightarrow> bool" where
  "steady_turn turn \<longleftrightarrow> (\<forall>cid. fst (snd (st_clock turn cid)) = fst (st_clock turn cid))"

section \<open>The configuration stays\<close>

context sip_client
begin

lemma move_config:
  assumes "sip_move cb s e s'"
  shows "sm_config (snd s') = sm_config (snd s)"
proof -
  have told: "sm_config (snd (cb cid st (w, m))) = sm_config m" for cid st w m
    using notify(3) [of cid st w m] by (cases "cb cid st (w, m)") simp
  from assms show ?thesis
  proof cases
    case (reported st cid)
    then show ?thesis using told [of cid st "fst s" "snd s"] by simp
  qed (use told in \<open>auto simp: erase_call_def\<close>)
qed

lemma moves_config: "sip_moves cb s es s' \<Longrightarrow> sm_config (snd s') = sm_config (snd s)"
  by (induction rule: sip_moves.induct) (simp_all add: move_config)

end

section \<open>A turn of the loop\<close>

text \<open>Between its turns the program holds calls that talk and calls that failed.\<close>

lemma program_view:
  assumes "program_ok (io, m)" "sip_wf m"
  shows "call_view m cid \<in> {None, Some kConnected, Some kFailed}"
proof (cases "sm_calls m cid")
  case (Some c)
  have "taken_call c" by (rule program_okD(2) [OF assms(1) Some])
  moreover have "settled (call_state c)" using assms(2) view_Some [OF Some] by (simp add: sip_wf_def)
  ultimately show ?thesis by (auto simp: view_Some [OF Some] taken_call_def settled_def)
qed (simp add: call_view_def)

lemma board_update: "call_view m' = (call_view m)(cid := x) \<Longrightarrow> board (io', m') = (board (io, m))(cid := map_option line_of x)"
  by (auto simp: board_def fun_eq_iff)

lemma board_same: "call_view m' = call_view m \<Longrightarrow> board (io', m') = board (io, m)"
  by (simp add: board_def fun_eq_iff)

lemma board_None: "board (io, m) cid = None \<longleftrightarrow> call_view m cid = None"
  by (simp add: board_def)

lemma response_board:
  assumes "x \<in> {None, Some kConnected, Some kFailed}"
  shows "map_option line_of (response_view status x) =
     (if 300 \<le> status \<and> x \<noteq> None then Some Broken else map_option line_of x)"
  using assms by (auto simp: response_view_def line_of_def)

lemma message_board:
  assumes "ProcessIncomingMessage parse (SipEvent env) now raw (io, m) = (io', m')"
    "program_ok (io, m)" "sip_wf m"
  shows "board (io', m') = switch (parse raw) (board (io, m))"
proof (cases "parse raw")
  case (Some msg)
  let ?cid = "value_or [] (om_call_id msg)"
  have wf: "calls_wf m" using assms(3) by (simp add: sip_wf_def)
  consider (resp) "om_status_code msg \<noteq> 0"
    | (invite) "om_status_code msg = 0" "om_method msg = Some ''INVITE''"
    | (bye) "om_status_code msg = 0" "om_method msg = Some ''BYE''"
    | (cancel) "om_status_code msg = 0" "om_method msg = Some ''CANCEL''"
    | (other) "om_status_code msg = 0" "om_method msg \<notin> {Some ''INVITE'', Some ''BYE'', Some ''CANCEL''}"
    by blast
  then show ?thesis
  proof cases
    case resp
    then have "HandleResponse (SipEvent env) msg (io, m) = (io', m')"
      using assms(1) by (simp add: ProcessIncomingMessage_def Some)
    then have "call_view m' = (call_view m)(?cid := response_view (om_status_code msg) (call_view m ?cid))"
      using session.HandleResponse_effect wf by blast
    from board_update [OF this, of io' io] response_board [OF program_view [OF assms(2,3)], of "om_status_code msg" ?cid]
      resp show ?thesis by (auto simp: switch_def Some Let_def board_None fun_upd_idem board_def)
  next
    case invite
    then have "HandleInvite (SipEvent env) now msg (io, m) = (io', m')"
      using assms(1) by (simp add: ProcessIncomingMessage_def Some)
    then have "call_view m' = (if ?cid \<noteq> [] \<and> call_view m ?cid = None
        then (call_view m)(?cid \<mapsto> kConnected) else call_view m)"
      using session.HandleInvite_effect wf by blast
    then show ?thesis using invite board_update [of m' m ?cid "Some kConnected" io' io] board_same [of m' m io' io]
      by (simp add: switch_def Some Let_def board_None line_of_def split: if_splits)
  next
    case bye
    then have "HandleBye (SipEvent env) msg (io, m) = (io', m')"
      using assms(1) by (simp add: ProcessIncomingMessage_def Some)
    then have "call_view m' = (call_view m)(?cid := None)" using session.HandleBye_effect wf by blast
    from board_update [OF this, of io' io] bye show ?thesis by (simp add: switch_def Some Let_def)
  next
    case cancel
    then have "HandleCancel (SipEvent env) msg (io, m) = (io', m')"
      using assms(1) by (simp add: ProcessIncomingMessage_def Some)
    then have "call_view m' = (call_view m)(?cid := None)" using session.HandleCancel_effect wf by blast
    from board_update [OF this, of io' io] cancel show ?thesis by (simp add: switch_def Some Let_def)
  next
    case other
    then have "(io', m') = (io, m)"
      using assms(1) by (auto simp: ProcessIncomingMessage_def Some HandleAck_def split: option.splits if_splits)
    with other show ?thesis by (auto simp: switch_def Some Let_def)
  qed
qed (use assms(1) in \<open>simp add: ProcessIncomingMessage_def switch_def\<close>)

lemma sdp_view: "call_view (snd (ProcessIncomingSdp cid body m)) = call_view m"
  using ProcessIncomingSdp_effect by (metis prod.collapse)

lemma sdp_config: "sm_config (snd (ProcessIncomingSdp cid body m)) = sm_config m"
  by (simp add: ProcessIncomingSdp_def split: prod.split bool.split option.split)

text \<open>What the two answers leave of the manager, and how many datagrams they are.\<close>

lemma answer_invite_effect:
  assumes "answer_invite env sck addr port ret msg m = Some (out, m')"
  shows "call_view m' = call_view m \<and> sm_config m' = sm_config m \<and> length out = 2"
proof -
  let ?m1 = "case message_body msg of None \<Rightarrow> m
    | Some body \<Rightarrow> if message_call_id msg \<noteq> [] then snd (ProcessIncomingSdp (message_call_id msg) body m) else m"
  have m1: "call_view ?m1 = call_view m" "sm_config ?m1 = sm_config m"
    by (simp_all add: sdp_view sdp_config split: option.split)
  obtain r m2 where r: "BuildInviteResponse 180 ''Ringing'' [] ?m1 = (r, m2)" by (rule prod.exhaust)
  obtain a where a: "BuildSdpAnswer (message_call_id msg) m2 = Some a"
    using assms r by (auto simp: answer_invite_def Let_def bind_eq_Some_conv)
  obtain k m3 where k: "BuildInviteResponse 200 ''OK'' a m2 = (k, m3)" by (rule prod.exhaust)
  note same = BuildInviteResponse_same [OF r] BuildInviteResponse_same [OF k]
  have "m' = m3" "length out = 2" using assms r a k by (auto simp: answer_invite_def Let_def)
  then show ?thesis
    using m1 same_counters_view(1) [OF same(1)] same_counters_view(1) [OF same(2)]
      same_but_counters_fields(1) [OF same(1)] same_but_counters_fields(1) [OF same(2)] by simp
qed

lemma server_message_board:
  assumes "server_message parse env sck now ret addr port text s = Some (out, s')" "program_ok s" "sip_wf (snd s)"
  shows "board s' = switch (parse text) (board s) \<and> sm_config (snd s') = sm_config (snd s)
     \<and> length out = (if std_find ''INVITE'' text \<noteq> None then 2 else 0) + (if std_find ''BYE'' text \<noteq> None then 1 else 0)"
proof -
  obtain io0 m0 where s: "s = (io0, m0)" by (cases s)
  obtain io m where p: "ProcessIncomingMessage parse (SipEvent env) now text s = (io, m)" by (rule prod.exhaust)
  have wf: "sip_wf m0" using assms(3) by (simp add: s)
  obtain es where "sip_moves (SipEvent env) (io0, m0) es (io, m)"
    using session.message_moves [OF p [unfolded s] wf] by (auto simp: unprompted_moves_def)
  then have c: "sm_config m = sm_config m0" using session.moves_config by fastforce
  have b: "board (io, m) = switch (parse text) (board s)"
    using message_board [OF p [unfolded s]] assms(2) wf by (simp add: s)
  obtain out1 m1 where i: "(if std_find ''INVITE'' text \<noteq> None
      then answer_invite env sck addr port ret text m else Some ([], m)) = Some (out1, m1)"
    using assms(1) p by (auto simp: server_message_def bind_eq_Some_conv)
  then have m1: "call_view m1 = call_view m" "sm_config m1 = sm_config m"
    "length out1 = (if std_find ''INVITE'' text \<noteq> None then 2 else 0)"
    using answer_invite_effect by (auto split: if_splits)
  obtain r m2 where r: "BuildResponse 200 ''OK'' [] m1 = (r, m2)" by (rule prod.exhaust)
  note same = BuildResponse_same [OF r]
  have m2: "call_view m2 = call_view m" "sm_config m2 = sm_config m"
    using same_counters_view(1) [OF same] same_but_counters_fields(1) [OF same] m1 by simp_all
  have "s' = (io, if std_find ''BYE'' text \<noteq> None then m2 else m1)"
    "length out = length out1 + (if std_find ''BYE'' text \<noteq> None then 1 else 0)"
    using assms(1) p i r by (auto simp: server_message_def answer_bye_def Let_def split: if_splits)
  with b c m1 m2 board_same [of m1 m io io] board_same [of m2 m io io] show ?thesis by (simp add: s)
qed

lemma server_step_board:
  assumes "server_step parse env sck turn s = Some (out, s')" "program_ok s" "session_reachable env now_ns s"
    "steady_turn turn" "sc_max_retransmit (sm_config (snd s)) \<noteq> 0"
  shows "board s' = switch_turn parse turn (board s) \<and> sm_config (snd s') = sm_config (snd s)
     \<and> length out = turn_replies turn"
proof -
  obtain n buf addr port where r: "UdpSocket_RecvFrom (se_inet_ntop env) (st_recv turn) 65535 [] 0 = (n, buf, addr, port)"
    by (metis prod.exhaust)
  let ?text = "map (\<lambda>b. char_of (unat b)) buf"
  have read: "turn_text turn = (if n > 0 then Some ?text else None)"
    using r by (auto simp: turn_text_def UdpSocket_RecvFrom_def split: recv_outcome.splits if_splits)
  obtain s1 where s1: "s' = ProcessTimers (SipEvent env) (st_clock turn) (st_calls turn) s1"
    "(if n > 0 then server_message parse env sck (st_now turn) (st_sendto turn) addr port ?text s
      else Some ([], s)) = Some (out, s1)"
    using assms(1) r by (auto simp: server_step_def bind_eq_Some_conv)
  have wf: "sip_wf (snd s)" using session_reachable_ok [OF assms(3)] by (simp add: session_ok_def)
  have 1: "board s1 = switch_turn parse turn (board s)" "sm_config (snd s1) = sm_config (snd s)"
    "length out = turn_replies turn" "sip_wf (snd s1)"
  proof -
    have "board s1 = switch_turn parse turn (board s) \<and> sm_config (snd s1) = sm_config (snd s)
        \<and> length out = turn_replies turn \<and> sip_wf (snd s1)"
    proof (cases "n > 0")
      case True
      with s1(2) have m: "server_message parse env sck (st_now turn) (st_sendto turn) addr port ?text s = Some (out, s1)"
        by simp
      from server_message_board [OF m assms(2) wf] session_reachable_ok [OF server_message_reachable [OF m assms(3)]]
      show ?thesis using read True by (simp add: switch_turn_def turn_replies_def session_ok_def)
    qed (use s1(2) read wf in \<open>simp add: switch_turn_def turn_replies_def\<close>)
    then show "board s1 = switch_turn parse turn (board s)" "sm_config (snd s1) = sm_config (snd s)"
      "length out = turn_replies turn" "sip_wf (snd s1)" by simp_all
  qed
  obtain io1 m1 io m where pairs: "s1 = (io1, m1)" "s' = (io, m)" by (cases s1, cases s')
  have timers: "ProcessTimers (SipEvent env) (st_clock turn) (st_calls turn) (io1, m1) = (io, m)"
    using s1(1) by (simp add: pairs)
  have "calls_wf m1" using 1(4) by (simp add: pairs sip_wf_def)
  from session.ProcessTimers_effect [OF timers this] assms(4,5) 1(2)
  have "call_view m = call_view m1" "sm_config m = sm_config m1" by (simp_all add: pairs steady_turn_def)
  with 1(1-3) board_same [of m m1 io io1] show ?thesis by (simp add: pairs)
qed

lemma program_silent_board:
  assumes "program_silent env now_ns s s'" "listening (fst s)"
  shows "board s' = board s \<and> sm_config (snd s') = sm_config (snd s)"
  using assms(1)
proof cases
  case (silent_register ok)
  obtain io m where s: "s = (io, m)" by (cases s)
  have "listening io" using assms(2) by (simp add: s)
  from SipEvent_told [OF this] silent_register show ?thesis
    by (auto simp: s Register_def board_def call_view_def fun_eq_iff split: if_splits)
qed (auto simp: board_def fun_eq_iff)

section \<open>A run of the program\<close>

lemma program_run_board:
  assumes "program_run parse env now_ns config turns sent s" "sc_max_retransmit (cfg_sip config) \<noteq> 0"
    "list_all steady_turn turns"
  shows "board s = fold (switch_turn parse) turns (\<lambda>_. None) \<and> sm_config (snd s) = cfg_sip config
     \<and> length sent = sum_list (map turn_replies turns)"
  using assms(1,3)
proof (induction rule: program_run.induct)
  case (run_started epfd mx osip rng s)
  obtain m where i: "Initialize osip (cfg_sip config) (SipManager_new rng) = (True, m)" and s: "snd s = m"
    using run_started.hyps(2) by (auto simp: SessionManager_Start_def SetRtpPacketCallback_def
        SetSipEventCallback_def SessionManager_new_def split: prod.splits bool.splits)
  have "sm_calls m = (\<lambda>_. None)" using Initialize_no_calls [OF i] by (simp add: SipManager_new_def)
  with Initialize_config [of osip] i show ?case by (auto simp: board_def call_view_def s)
next
  case (run_silent turns sent s s')
  have "listening (fst s)" using program_run_ok [OF run_silent.hyps(1)] by (cases s; cases "fst s") (simp add: program_ok_def)
  from program_silent_board [OF run_silent.hyps(2) this] run_silent show ?case by simp
next
  case (run_turn turns sent s sck turn out s')
  note run = run_turn.hyps(1)
  have ih: "board s = fold (switch_turn parse) turns (\<lambda>_. None)" "sm_config (snd s) = cfg_sip config"
    "length sent = sum_list (map turn_replies turns)" and steady: "steady_turn turn"
    using run_turn by simp_all
  from server_step_board [OF run_turn.hyps(2) program_run_ok [OF run] program_run_session [OF run] steady] ih assms(2)
  show ?case by simp
qed

lemma board_Talking:
  assumes "program_run parse env now_ns config turns sent ((sess, mx), m)"
  shows "board ((sess, mx), m) cid = Some Talking \<longleftrightarrow> find_context cid sess \<noteq> None"
proof -
  have ok: "session_ok ((sess, mx), m)" by (rule session_reachable_ok [OF program_run_session [OF assms]])
  then have "call_view m cid \<in> {None, Some kConnected, Some kFailed}"
    using program_view program_run_ok [OF assms] by (simp add: session_ok_def)
  moreover have "find_context cid sess \<noteq> None \<longleftrightarrow> live (call_view m cid)"
    using ok by (simp add: session_ok_def client_links_def context_ids_def find_context_def domIff)
  ultimately show ?thesis by (auto simp: board_def live_def line_of_def)
qed


text \<open>Every sequence of turns is the one of some run, so the program always gets on.\<close>

lemma program_runs:
  "\<exists>sent s. program_run parse env now_ns config turns sent s"
proof (induction turns rule: rev_induct)
  case Nil
  have mx: "IoMultiplexer_new 3 1024 = Some sample_mx" by (simp add: sample_mx_def IoMultiplexer_new_def)
  obtain s where "SessionManager_Start True ((SetRtpPacketCallback (SetSipEventCallback (SessionManager_new config)),
      sample_mx), SipManager_new (\<lambda>_. 0)) = Some (True, s)"
    by (rule SessionManager_Start_first) simp_all
  from run_started [OF mx this] show ?case by blast
next
  case (snoc turn turns)
  then obtain sent s where run: "program_run parse env now_ns config turns sent s" by blast
  obtain out s' where "server_step parse env UdpSocket_new turn s = Some (out, s')"
    using server_step_defined [OF program_run_ok [OF run] program_run_session [OF run]] by blast
  from run_turn [OF run this] show ?case by blast
qed

text \<open>A first message INVITE, a second message BYE.\<close>

definition sample_parse :: "string \<Rightarrow> osip_message option" where
  "sample_parse text = Some (request_message (if text = ''A'' then ''INVITE'' else ''BYE'') ''call'')"


end
