(* ===== verification/Playout_Queue.thy ===== *)
theory Playout_Queue
  imports Jitter_Buffer
begin

text \<open>
  What the jitter buffer (\<open>rtp/jitter_buffer.cpp\<close>) is for, as a bag of packets waiting to be played:
  no vector, no sorting, no counters and no jitter estimate. A packet that is put in is marked, with
  all the others, against a play-out delay that the configured maximum bounds; when more than
  \<open>kMaxBufferSize\<close> packets wait, ones with the least sequence numbers are given up; what is taken out
  has the least sequence number of the packets that are ready. Every run of the code's operations is
  a run of the bag.
\<close>

section \<open>The bag\<close>

text \<open>
  \<open>queue_step d op M outs M'\<close>: with play-out delays of at most \<open>d\<close>, the operation \<open>op\<close> takes the bag
  \<open>M\<close> to \<open>M'\<close> and hands out the packets \<open>outs\<close>.
\<close>

inductive queue_step ::
  "u32 \<Rightarrow> jb_op \<Rightarrow> buffer_item multiset \<Rightarrow> rtp_packet list \<Rightarrow> buffer_item multiset \<Rightarrow> bool"
  for d :: u32 where
  queue_put: "\<lbrakk>delay \<le> d;
     image_mset (mark_item now delay)
       (add_mset \<lparr>bi_packet = p, bi_arrival_time = now, bi_ready = False\<rparr> M) = lost + M';
     size lost = Suc (size M) - kMaxBufferSize;
     \<forall>b \<in># lost. \<forall>b' \<in># M'. item_seq b \<le> item_seq b'\<rbrakk>
   \<Longrightarrow> queue_step d (InsertAt now p) M [] M'"
| queue_get: "\<lbrakk>bi_ready b; \<forall>b' \<in># M. bi_ready b' \<longrightarrow> item_seq b \<le> item_seq b'; M = add_mset b M'\<rbrakk>
   \<Longrightarrow> queue_step d ExtractNext M [bi_packet b] M'"
| queue_starved: "\<forall>b \<in># M. \<not> bi_ready b \<Longrightarrow> queue_step d ExtractNext M [] M"
| queue_reset: "queue_step d ResetBuffer M [] {#}"

inductive queue_run ::
  "u32 \<Rightarrow> jb_op list \<Rightarrow> buffer_item multiset \<Rightarrow> rtp_packet list \<Rightarrow> buffer_item multiset \<Rightarrow> bool"
  for d :: u32 where
  queue_done: "queue_run d [] M [] M"
| queue_more: "\<lbrakk>queue_step d op M outs M'; queue_run d ops M' outs' M''\<rbrakk>
   \<Longrightarrow> queue_run d (op # ops) M (outs @ outs') M''"

section \<open>The operations implement the steps\<close>

lemma sorted_drop_prefix:
  assumes "sorted (map f xs)" "b \<in> set (take n xs)" "b' \<in> set (drop n xs)"
  shows "f b \<le> f b'"
proof -
  have "sorted (map f (take n xs) @ map f (drop n xs))"
    using assms(1) by (metis append_take_drop_id map_append)
  with assms(2,3) show ?thesis by (auto simp: sorted_append)
qed

lemma first_ready_least:
  assumes "sorted (map item_seq (xs @ b # ys))" "\<forall>x \<in> set xs. \<not> bi_ready x"
    "b' \<in> set (xs @ b # ys)" "bi_ready b'"
  shows "item_seq b \<le> item_seq b'"
  using assms by (auto simp: sorted_append)

lemma Extract_queue_step:
  assumes "JitterBuffer_Extract jb = (r, jb')" "sorted (map item_seq (jb_buffer jb))"
  shows "queue_step d ExtractNext (mset (jb_buffer jb))
           (case r of None \<Rightarrow> [] | Some p \<Rightarrow> [p]) (mset (jb_buffer jb'))"
proof (cases rule: Extract_cases[of jb])
  case not_ready
  with assms(1) show ?thesis by (auto intro: queue_starved)
next
  case (packet xs b ys)
  have "queue_step d ExtractNext (mset (xs @ b # ys)) [bi_packet b] (mset (xs @ ys))"
  proof (rule queue_get)
    show "\<forall>b' \<in># mset (xs @ b # ys). bi_ready b' \<longrightarrow> item_seq b \<le> item_seq b'"
      using first_ready_least[of xs b ys] assms(2) packet by (auto simp: packet(1))
  qed (simp_all add: packet(2))
  with packet assms(1) show ?thesis by auto
qed

context seq_sorter
begin

lemma Insert_queue_step:
  assumes "JitterBuffer_Insert srt now p jb = Some (ok, jb')" "jb_current_delay_ms jb \<le> d"
  shows "queue_step d (InsertAt now p) (mset (jb_buffer jb)) [] (mset (jb_buffer jb'))"
proof -
  let ?item = "\<lparr>bi_packet = p, bi_arrival_time = now, bi_ready = False\<rparr>"
  define delay where "delay = jb_current_delay_ms jb"
  define xs where "xs = map (mark_item now delay) (srt (jb_buffer jb @ [?item]))"
  define n where "n = length xs - kMaxBufferSize"
  have b: "jb_buffer jb' = drop n xs"
    using assms(1) by (rule Insert_unfold) (simp add: xs_def n_def delay_def Let_def)
  have len: "length xs = Suc (length (jb_buffer jb))" by (simp add: xs_def srt_length)
  have s: "sorted (map item_seq xs)" by (simp add: xs_def comp_def srt_sorted)
  show ?thesis
  proof (rule queue_put)
    show "delay \<le> d" using assms(2) by (simp add: delay_def)
    show "image_mset (mark_item now delay) (add_mset ?item (mset (jb_buffer jb)))
            = mset (take n xs) + mset (jb_buffer jb')"
      by (simp add: b mset_append[symmetric] del: mset_append) (simp add: xs_def srt_mset)
    show "size (mset (take n xs)) = Suc (size (mset (jb_buffer jb))) - kMaxBufferSize"
      by (simp add: n_def len min_def)
    show "\<forall>b \<in># mset (take n xs). \<forall>b' \<in># mset (jb_buffer jb'). item_seq b \<le> item_seq b'"
      using sorted_drop_prefix[OF s] by (auto simp: b)
  qed
qed

lemma step_queue_step:
  assumes "jb_step srt op jb = Some (outs, jb')" "jb_wf jb" "jc_max_delay_ms (jb_config jb) = d"
  shows "queue_step d op (mset (jb_buffer jb)) outs (mset (jb_buffer jb'))"
proof (cases op)
  case (InsertAt now p)
  with assms(1) obtain ok where "JitterBuffer_Insert srt now p jb = Some (ok, jb')" "outs = []"
    by (auto simp: bind_eq_Some_conv)
  with assms(2,3) InsertAt show ?thesis
    by (auto simp: jb_wf_def jb_delay_bounded_def Let_def intro: Insert_queue_step)
next
  case ExtractNext
  obtain r jb1 where e: "JitterBuffer_Extract jb = (r, jb1)" by fastforce
  with assms(1) ExtractNext have "outs = (case r of None \<Rightarrow> [] | Some p \<Rightarrow> [p])" "jb' = jb1"
    by (auto split: option.splits)
  with Extract_queue_step[OF e] assms(2) ExtractNext show ?thesis
    by (simp add: jb_wf_def jb_sorted_bounded_def)
next
  case ResetBuffer
  with assms(1) show ?thesis by (auto simp: JitterBuffer_Reset_def intro: queue_reset)
qed

lemma run_queue_run:
  "\<lbrakk>jb_run srt ops jb = Some (outs, jb'); jb_wf jb; jc_max_delay_ms (jb_config jb) = d\<rbrakk>
   \<Longrightarrow> queue_run d ops (mset (jb_buffer jb)) outs (mset (jb_buffer jb'))"
proof (induction ops arbitrary: jb outs)
  case Nil
  then show ?case by (auto intro: queue_done)
next
  case (Cons op ops)
  from Cons.prems(1) obtain o1 jb1 o2 where
    s: "jb_step srt op jb = Some (o1, jb1)" "jb_run srt ops jb1 = Some (o2, jb')" "outs = o1 @ o2"
    by (auto simp: bind_eq_Some_conv split: prod.splits)
  have "jc_max_delay_ms (jb_config jb1) = d" using step_config[OF s(1)] Cons.prems(3) by simp
  with Cons.IH[OF s(2)] step_wf[OF s(1)] step_queue_step[OF s(1)] Cons.prems(2,3) s(3) show ?case
    by (auto intro: queue_more)
qed

end

section \<open>What the bag promises\<close>

inductive_cases queue_put_cases: "queue_step d (InsertAt now p) M outs M'"

text \<open>A packet that has waited the maximal delay when another one arrives is ready afterwards.\<close>

lemma queue_put_ready:
  assumes "queue_step d (InsertAt now p) M outs M'" "b \<in># M'"
    "d \<le> of_int (to_ms (now - bi_arrival_time b))"
  shows "bi_ready b"
proof -
  from assms(1) obtain delay lost where m: "delay \<le> d" "image_mset (mark_item now delay)
      (add_mset \<lparr>bi_packet = p, bi_arrival_time = now, bi_ready = False\<rparr> M) = lost + M'"
    by (rule queue_put_cases) (rule that, assumption, simp)
  from assms(2) have "b \<in># lost + M'" by simp
  then have "b \<in> mark_item now delay ` set_mset
      (add_mset \<lparr>bi_packet = p, bi_arrival_time = now, bi_ready = False\<rparr> M)"
    by (simp only: m(2)[symmetric] set_image_mset)
  with m(1) assms(3) show ?thesis by (auto simp: mark_item_def)
qed

section \<open>The refinement\<close>

text \<open>
  Property C13. With sensible delays, whatever sorter \<open>std::sort\<close> is, every run of the operations of a
  fresh jitter buffer is a run of the bag: the packets handed out and the items left waiting are
  those of a bag that takes a packet of least sequence number among the ready ones, gives up the
  least sequence numbers above 500 packets, and never applies a delay above the configured maximum.
\<close>

theorem JitterBuffer_refines_queue:
  assumes "seq_sorter srt" "jb_run srt ops (JitterBuffer_new c) = Some (outs, jb)"
    and "5 \<le> jc_min_delay_ms c" "jc_min_delay_ms c \<le> jc_max_delay_ms c"
      "jc_initial_delay_ms c \<le> jc_max_delay_ms c" "jc_max_delay_ms c \<le> 0xFFFFFFF5"
  shows "queue_run (jc_max_delay_ms c) ops {#} outs (mset (jb_buffer jb))"
  using seq_sorter.run_queue_run[OF assms(1,2) new_wf[OF assms(3-6)] refl] by simp

theorem JitterBuffer_refines_queue_witness:
  "\<exists>jb. jb_run (sort_key item_seq) sample_ops (JitterBuffer_new sample_config)
      = Some ([sample_packet 5], jb) \<and>
    queue_run 200 sample_ops {#} [sample_packet 5] (mset (jb_buffer jb)) \<and>
    map item_seq (jb_buffer jb) = [7]"
proof -
  obtain jb where r: "jb_run (sort_key item_seq) sample_ops (JitterBuffer_new sample_config)
    = Some ([sample_packet 5], jb)" "map item_seq (jb_buffer jb) = [7]"
    using sample_run by (elim exE conjE) (rule that)
  from JitterBuffer_refines_queue[OF stable_sorter.seq_sorter_axioms r(1)] r show ?thesis by auto
qed

end
