(* ===== verification/Spec2Isabelle.thy ===== *)
theory Spec2Isabelle
  imports Rtp_Packet H264_Fragmenter Aac_Packetizer Rtcp_Handler Jitter_Buffer Udp_Socket Rtp_Session
    Sdp Config Sip_Call Sip_Messages Sip_Manager Io_Multiplexer Thread_Pool Media_Codec Media_Capture
    Sip_Moves Session_Manager Session_Media Session_Calls Session_Steps Session_Properties Session_Safety
    Session_Invariants Lock_Order Server_Main Server_Run Server_Switchboard Playout_Queue
begin

text \<open>
  rtcom is a C++ audio and video call server: SIP signalling, SDP negotiation, RTP media with H.264
  and AAC payloads, RTCP reports, a jitter buffer, an epoll loop, a worker pool and wrappers over
  FFmpeg. This library models its own code (\<open>src/src/\<close>) theory by theory and proves what makes each part
  correct, or shows where it is not.

  \<^bold>\<open>How the program works.\<close> \<open>main.cpp\<close> reads a configuration, runs two self-tests, binds the SIP socket and
  starts a \<open>SessionManager\<close>; then its loop, the signalling thread, reads SIP messages, hands them to the
  \<open>SipManager\<close>, answers invitations with an SDP answer and runs the SIP timers. The \<open>SipManager\<close> keeps
  the table of calls and reports every change of a call's state to a callback, \<open>OnSipEvent\<close>, which makes
  or removes the call's media context: two RTP sessions with four UDP sockets, two jitter buffers, an
  RTCP handler, two encoders and two decoders, with the two receive sockets registered in the
  \<open>IoMultiplexer\<close>. The media thread runs that loop: a packet that arrives goes through
  \<open>RtpSession::ReceivePacket\<close>, the jitter buffer and a decoder to the packet callback, and a timer sends
  RTCP reports. Sending goes from \<open>SendAudioFrame\<close> and \<open>SendVideoFrame\<close> through an encoder, the packetisers and
  \<open>RtpSession::SendPacket\<close> to the socket.

  \<^bold>\<open>Theories and code.\<close>
  \<^item> \<open>Prelude\<close>: memory accesses as options (\<open>rd\<close>, \<open>rd_block\<close>, \<open>wr_block\<close>), byte orders, shared lemmas.
    \<open>Text_Io\<close>: the part of the C++ library the parsers and printers use.
  \<^item> \<open>Rtcom_Types\<close>: \<open>common/types.h\<close>. \<open>Config\<close>: \<open>common/config.cpp\<close>. \<open>Sdp\<close>: \<open>common/sdp.cpp\<close>.
  \<^item> \<open>Rtp_Packet\<close>, \<open>H264_Fragmenter\<close>, \<open>Aac_Packetizer\<close>: \<open>rtp/rtp_packet.cpp\<close>. \<open>Rtp_Session\<close>: \<open>rtp/rtp_session.cpp\<close>.
    \<open>Rtcp_Handler\<close>: \<open>rtp/rtcp_handler.cpp\<close>. \<open>Jitter_Buffer\<close>: \<open>rtp/jitter_buffer.cpp\<close>.
  \<^item> \<open>Udp_Socket\<close>: \<open>net/udp_socket.cpp\<close>, with descriptor ownership as a transition system.
    \<open>Io_Multiplexer\<close>: \<open>net/io_multiplexer.cpp\<close>. \<open>Thread_Pool\<close>: \<open>net/thread_pool.cpp\<close>, every thread a program
    counter and every step between two mutex operations a step of the system.
  \<^item> \<open>Sip_Call\<close>: \<open>sip/sip_call.cpp\<close>. \<open>Sip_Messages\<close>, \<open>Sip_Manager\<close>: \<open>sip/sip_manager.cpp\<close>.
  \<^item> \<open>Media_Codec\<close>: \<open>media/media_encoder.cpp\<close> and \<open>media/media_decoder.cpp\<close>. \<open>Media_Capture\<close>:
    \<open>media/media_capture.cpp\<close>.
  \<^item> \<open>Session_Manager\<close> (contexts, SIP events, call control) and \<open>Session_Media\<close> (sending, receiving,
    RTCP, the media loop): \<open>session/session_manager.cpp\<close>. \<open>Session_Calls\<close>, \<open>Session_Steps\<close>,
    \<open>Session_Properties\<close>, \<open>Session_Safety\<close> and \<open>Session_Invariants\<close> hold the lemmas about it, \<open>Lock_Order\<close>
    its mutexes.
  \<^item> \<open>Server_Main\<close>: \<open>main.cpp\<close>; \<open>Server_Run\<close>: the signalling and the media thread of that program together.
  \<^item> \<open>Server_Switchboard\<close> and \<open>Playout_Queue\<close> hold no code: they specify the program and the jitter buffer
    and prove that the code refines these specifications.

  \<^bold>\<open>Moves and steps.\<close> \<open>Sip_Moves\<close> cuts every operation of the \<open>SipManager\<close> into labelled moves that change one
  call and tell the client at most once; a step of the session manager is a run of such moves or one step
  of the media thread. An invariant of the whole program is proved per move and per media step, and holds
  in every state by rule induction: \<open>session_reachable\<close> (whatever a user of the session manager calls) and
  \<open>program_reachable\<close> (what \<open>main\<close> does) are the two sets of states. \<open>program_run\<close> keeps, besides the state,
  the turns of the signalling loop that led to it and the datagrams they sent.

  \<^bold>\<open>How code becomes definitions.\<close> A class is a record with one field per member, an operation a function
  from the state to its result and the new state, an enumeration a datatype, a sized integer a word. An
  access outside an allocation, the read of a variable that was never set and undefined arithmetic are
  the value \<open>None\<close> (in the event loop, a fault); a mutex locked twice and an empty callback are faults of
  the event loop. System calls, clocks, random numbers, the osip parser and FFmpeg are arguments, grouped
  in the records \<open>context_env\<close>, \<open>rx_env\<close>, \<open>tx_env\<close>, \<open>session_env\<close>, \<open>server_env\<close>; what is relied on of them is a
  named hypothesis or a locale.

  \<^bold>\<open>Interfaces.\<close> \<open>seq_sorter\<close>: what \<open>std::sort\<close> promises the jitter buffer. \<open>sip_client\<close>: what the SIP
  manager relies on while its callback runs; \<open>media_client\<close> extends it with the laws of a client that serves
  the live calls, and \<open>client_state\<close> carries any property of the client's state through every operation of
  the SIP manager; all three are interpreted on the session manager's \<open>SipEvent\<close>. \<open>io_client\<close>: what the
  event loop relies on while its callbacks run, interpreted on the session manager's \<open>RtpEvent\<close> and \<open>RtpTimer\<close>.

  \<^bold>\<open>What the lemmas show.\<close>
  \<^item> Packets: parsing is safe on any datagram and agrees with RFC 3550, building and parsing are inverse,
    fragments reassemble, streams are numbered across the 16-bit wrap. RTCP and AAC: round trips and
    the defects of their encodings.
  \<^item> Jitter buffer: order, bounds, delivery, loss count and the jitter filter with its wrap-around; every run
    is a run of a bag of waiting packets (\<open>Playout_Queue\<close>).
  \<^item> Signalling: the operations refine the abstract life of a call, the table is well formed, calls
    and negotiation end to end; timers that never give a call up.
  \<^item> Event loop: the code's timers equal a reference that fires each due timer once, the loop ends,
    re-entrant callbacks block. Worker pool: every task runs at most once and none is lost while the
    pool lives, waiting is correct, the pool drains, and what destruction can drop.
  \<^item> Media: the layout of pictures is preserved by encoder input and decoder output; the encoder's
    second video frame faults.
  \<^item> Sessions: in every reachable state the contexts are those of the live calls; no datagram makes the
    receive path fault; an event concerns the call that owns the descriptor and no other; the ports in an
    answer are those the call listens on; video and audio end to end; what an incoming call's context
    lacks; how the media thread can fail; a deadlock of the two threads and its absence while
    no call connects or ends.
  \<^item> Program: a run of the two threads refines a switchboard of a few lines (\<open>Server_Switchboard\<close>); the
    server answers invitations and hang-ups; no message makes a turn of its loop undefined; it never
    sends media; the ways in which it ends.

  \<^bold>\<open>Bounds and fuel.\<close> Loops over data are structural recursion, or recursion on a measure, with their
  termination proved. The event loop and the signalling loop run over the list of their turns, one
  element per wake-up, so a run of any length is covered by a list of that length; \<open>IoMultiplexer_Run_stops\<close>
  shows that the turn after \<open>Stop\<close> is the last. The recursion of \<open>ReadPacket\<close> runs over the packets the
  container still has. Clock hypotheses (\<open>clock_ok\<close>, \<open>rx_ok\<close>) bound the steady clock by \<open>2^30\<close>
  milliseconds, about twelve days, from which on the jitter arithmetic overflows.

  \<^bold>\<open>Not modelled.\<close> Logging; signal delivery (the run of the server is given by the turns until the
  flag is cleared); the destructors that only repeat \<open>Stop\<close> or \<open>Close\<close>; FFmpeg's codecs and the osip
  parser, which are parameters; the preemption points inside the operations of the session manager,
  whose bodies hold the context mutex (\<open>Lock_Order\<close> has the interleavings of the mutexes themselves); the
  data races that unlocked accesses (\<open>MakeCall\<close>'s size test, \<open>Stop\<close>'s clearing) could cause.
\<close>

section \<open>Sender, network and jitter buffer\<close>



end
